(* ===== verification/Prelude.thy ===== *)
theory Prelude
  imports Main
begin

text \<open>
  Shared vocabulary of the development. Python dictionaries of the configuration
  code (an instance \<open>__dict__\<close>, a merge source, the keyword arguments of
  \<open>validate_kwargs\<close>) are association lists with distinct keys in insertion order,
  which is the iteration order of a Python 3.7+ \<open>dict\<close>. Lookup is \<open>map_of\<close>;
  \<open>dset\<close> is \<open>d[k] = v\<close> (a known key keeps its position, a new key is appended)
  and \<open>ddel\<close> is \<open>del d[k]\<close> for a key that is present. The lemmas below relate
  them to maps and are the simp set the component theories build on.
\<close>

named_theorems cfg_simps "equations that evaluate the configuration model on concrete states"
named_theorems frame_simps "frame facts: what an operation of the model leaves unchanged"

type_synonym addr = nat
type_synonym 'v dict = "(string \<times> 'v) list"

abbreviation dkeys :: "'v dict \<Rightarrow> string list" where
  "dkeys d \<equiv> map fst d"

fun dset :: "string \<Rightarrow> 'v \<Rightarrow> 'v dict \<Rightarrow> 'v dict" where
  "dset k v [] = [(k, v)]"
| "dset k v ((k', v') # d) = (if k = k' then (k, v) # d else (k', v') # dset k v d)"

definition ddel :: "string \<Rightarrow> 'v dict \<Rightarrow> 'v dict" where
  "ddel k d = filter (\<lambda>(k', _). k' \<noteq> k) d"

definition dget :: "string \<Rightarrow> 'v \<Rightarrow> 'v dict \<Rightarrow> 'v" where
  "dget k dflt d = (case map_of d k of Some v \<Rightarrow> v | None \<Rightarrow> dflt)"

text \<open>A sequence of \<open>d[k] = v\<close> assignments, in order.\<close>

definition dsets :: "(string \<times> 'v) list \<Rightarrow> 'v dict \<Rightarrow> 'v dict" where
  "dsets us d = fold (\<lambda>(k, v). dset k v) us d"

subsection \<open>Lookup after update\<close>

lemma map_of_dset [simp]: "map_of (dset k v d) = (map_of d)(k \<mapsto> v)"
  by (induction k v d rule: dset.induct) (auto simp: fun_eq_iff)

lemma dkeys_dset:
  "dkeys (dset k v d) = (if k \<in> set (dkeys d) then dkeys d else dkeys d @ [k])"
  by (induction k v d rule: dset.induct) auto

lemma set_dkeys_dset [simp]: "fst ` set (dset k v d) = insert k (fst ` set d)"
  by (induction k v d rule: dset.induct) auto

lemma distinct_dkeys_dset [simp]: "distinct (dkeys d) \<Longrightarrow> distinct (dkeys (dset k v d))"
  by (simp add: dkeys_dset)

lemma length_dset: "length (dset k v d) = (if k \<in> set (dkeys d) then length d else Suc (length d))"
  by (induction k v d rule: dset.induct) auto

lemma dset_vals: "set (map snd (dset k v d)) \<subseteq> insert v (set (map snd d))"
  by (induction k v d rule: dset.induct) auto

lemma map_of_ddel [simp]: "map_of (ddel k d) = (map_of d)(k := None)"
  by (induction d) (auto simp: ddel_def fun_eq_iff)

lemma set_dkeys_ddel [simp]: "fst ` set (ddel k d) = fst ` set d - {k}"
  by (induction d) (auto simp: ddel_def)

lemma distinct_dkeys_ddel [simp]: "distinct (dkeys d) \<Longrightarrow> distinct (dkeys (ddel k d))"
  by (simp add: ddel_def distinct_map_filter)

lemma ddel_vals: "set (map snd (ddel k d)) \<subseteq> set (map snd d)"
  by (auto simp: ddel_def)

lemma dget_Some [simp]: "map_of d k = Some v \<Longrightarrow> dget k dflt d = v"
  by (simp add: dget_def)

lemma dget_None [simp]: "map_of d k = None \<Longrightarrow> dget k dflt d = dflt"
  by (simp add: dget_def)

lemma map_of_filter_neq:
  "k \<noteq> j \<Longrightarrow> map_of (filter (\<lambda>(k', _). k' \<noteq> j) d) k = map_of d k"
  by (induction d) auto

text \<open>Two dictionaries with the same keys in the same order and the same lookups are equal;
  replaying a sequence of assignments changes nothing.\<close>

lemma dsets_simps [simp]:
  "dsets [] d = d"
  "dsets ((k, v) # us) d = dsets us (dset k v d)"
  by (simp_all add: dsets_def)

lemma dict_eqI:
  assumes "distinct (dkeys xs)" "dkeys xs = dkeys ys" "map_of xs = map_of ys"
  shows "xs = ys"
  using assms
proof (induction xs arbitrary: ys)
  case Nil
  then show ?case by simp
next
  case (Cons kv xs)
  obtain k v where kv: "kv = (k, v)" by fastforce
  obtain w ys' where ys: "ys = (k, w) # ys'" "dkeys xs = dkeys ys'"
    using Cons.prems(2) kv by (cases ys) auto
  have "v = w"
    using Cons.prems(3) kv ys by (metis map_of_Cons_code(2) option.inject)
  moreover have "k \<notin> set (dkeys xs)" "k \<notin> set (dkeys ys')"
    using Cons.prems(1) kv ys(2) by auto
  then have "map_of xs k = None" "map_of ys' k = None"
    by (simp_all add: map_of_eq_None_iff)
  then have "map_of xs = map_of ys'"
    using Cons.prems(3) kv ys by (simp add: fun_eq_iff) (metis fun_upd_other)
  ultimately show ?case
    using Cons kv ys by simp
qed

lemma map_of_dsets: "map_of (dsets us d) = map_of d ++ map_of (rev us)"
  by (induction us arbitrary: d) (auto simp: map_add_def fun_eq_iff split: option.split)

lemma set_dkeys_dsets [simp]: "fst ` set (dsets us d) = fst ` set d \<union> fst ` set us"
proof (induction us arbitrary: d)
  case Nil
  then show ?case by simp
next
  case (Cons u us)
  then show ?case
    by (cases u) simp
qed

lemma dkeys_dsets: "fst ` set us \<subseteq> fst ` set d \<Longrightarrow> dkeys (dsets us d) = dkeys d"
proof (induction us arbitrary: d)
  case Nil
  then show ?case by simp
next
  case (Cons u us)
  obtain k v where u: "u = (k, v)" by fastforce
  then have "dkeys (dset k v d) = dkeys d" "fst ` set us \<subseteq> fst ` set (dset k v d)"
    using Cons.prems by (auto simp: dkeys_dset)
  then show ?case
    using Cons.IH [of "dset k v d"] u by simp
qed

lemma distinct_dsets [simp]: "distinct (dkeys d) \<Longrightarrow> distinct (dkeys (dsets us d))"
  by (induction us arbitrary: d) auto

lemma map_add_idem: "(m ++ m') ++ m' = m ++ m'"
  by (simp add: map_add_def fun_eq_iff split: option.split)

lemma dsets_idem: "distinct (dkeys d) \<Longrightarrow> dsets us (dsets us d) = dsets us d"
  by (rule dict_eqI) (simp_all add: dkeys_dsets map_of_dsets map_add_idem)

lemma dsets_append: "dsets (us @ vs) d = dsets vs (dsets us d)"
  by (simp add: dsets_def)

lemma filter_dset: "(\<forall>x. fst x = k \<longrightarrow> P x) \<Longrightarrow> filter P (dset k v d) = dset k v (filter P d)"
  by (induction k v d rule: dset.induct) auto

lemma dset_same: "map_of d k = Some v \<Longrightarrow> dset k v d = d"
  by (induction k v d rule: dset.induct) (auto split: if_splits)

lemma dset_new: "k \<notin> set (dkeys d) \<Longrightarrow> dset k v d = d @ [(k, v)]"
  by (induction d) auto

lemma map_of_inj_vals:
  "distinct (map snd d) \<Longrightarrow> map_of d a = Some l \<Longrightarrow> map_of d b = Some l \<Longrightarrow> a = b"
  by (induction d) (auto split: if_splits simp: image_iff dest!: map_of_SomeD)

lemma dsets_fresh:
  "distinct (dkeys d) \<Longrightarrow> set (dkeys d) \<inter> set (dkeys e) = {} \<Longrightarrow> dsets d e = e @ d"
proof (induction d arbitrary: e)
  case Nil
  then show ?case by simp
next
  case (Cons kv d)
  then show ?case
    by (cases kv) (auto simp: dset_new)
qed

lemma dsets_into_empty: "distinct (dkeys d) \<Longrightarrow> dsets d [] = d"
  using dsets_fresh [of d "[]"] by simp

end
