(* ===== verification/PyValue.thy ===== *)
theory PyValue
  imports Prelude
begin

text \<open>
  The Python values the configuration code stores and inspects, and the exceptions
  it raises. A value is a scalar, a sequence (list, tuple or set: the code never
  looks inside one), a \<open>dict\<close> with string keys (a merge source, or a dictionary
  stored as a leaf), an opaque callable or bound method, or a reference to a
  \<open>Config\<close> object by its address: Config objects live in a heap
  (theory \<open>ConfigNode\<close>), so that identity, sharing and the identity-keyed
  protection registry of \<open>src/veles/config.py\<close> are modelled as they are.
\<close>

datatype pyval =
    PNone
  | PBool bool
  | PInt int
  | PStr string
  | PSeq "pyval list"
  | PDict "pyval dict"
  | PFun string
  | PConfig addr

text \<open>
  Python truth value testing. A \<open>Config\<close> instance is always true: its class
  defines neither \<open>__bool__\<close> nor \<open>__len__\<close>, and special methods are looked up on
  the type, so \<open>Config.__getattr__\<close> is never consulted.
\<close>

fun truthy :: "pyval \<Rightarrow> bool" where
  "truthy PNone = False"
| "truthy (PBool b) = b"
| "truthy (PInt i) = (i \<noteq> 0)"
| "truthy (PStr s) = (s \<noteq> [])"
| "truthy (PSeq xs) = (xs \<noteq> [])"
| "truthy (PDict d) = (d \<noteq> [])"
| "truthy (PFun _) = True"
| "truthy (PConfig _) = True"

text \<open>The Config objects a value refers to, at any depth of nesting.\<close>

fun refs :: "pyval \<Rightarrow> addr set" where
  "refs (PSeq xs) = \<Union> (set (map refs xs))"
| "refs (PDict d) = \<Union> (set (map (\<lambda>(k, v). refs v) d))"
| "refs (PConfig a) = {a}"
| "refs _ = {}"

definition dict_refs :: "pyval dict \<Rightarrow> addr set" where
  "dict_refs d = \<Union> (set (map (\<lambda>(k, v). refs v) d))"

lemma refs_PDict [simp]: "refs (PDict d) = dict_refs d"
  by (simp add: dict_refs_def)

lemma dict_refs_simps [simp]:
  "dict_refs [] = {}"
  "dict_refs ((k, v) # d) = refs v \<union> dict_refs d"
  by (simp_all add: dict_refs_def)

lemma dict_refs_append [simp]: "dict_refs (d @ e) = dict_refs d \<union> dict_refs e"
  by (simp add: dict_refs_def)

lemma dict_refs_dset: "dict_refs (dset k v d) \<subseteq> refs v \<union> dict_refs d"
  by (induction k v d rule: dset.induct) auto

lemma dict_refs_ddel: "dict_refs (ddel k d) \<subseteq> dict_refs d"
  by (induction d) (auto simp: ddel_def)

lemma dict_refs_filter: "dict_refs (filter P d) \<subseteq> dict_refs d"
  by (induction d) auto

lemma dict_refs_map_of: "map_of d k = Some v \<Longrightarrow> refs v \<subseteq> dict_refs d"
  by (induction d) (auto split: if_splits)

text \<open>
  The exceptions of \<open>config.py\<close>. \<open>exc_class\<close> names the Python class each one
  is raised as: every failure of an attribute write or read is an
  \<open>AttributeError\<close>, the two guards of \<open>Config.update\<close> raise \<open>ValueError\<close>.
\<close>

datatype error =
    ProtectedSetting string string \<comment> \<open>\<open>__setattr__\<close>: path and name of a protected child\<close>
  | NoAttribute string \<comment> \<open>an attribute that does not exist, e.g. \<open>__update__\<close> of a leaf\<close>
  | ReadOnlyAttribute string \<comment> \<open>assignment to the read-only property \<open>__content__\<close>\<close>
  | RootUpdatesDisabled \<comment> \<open>\<open>update\<close> called on the global root\<close>
  | NotDictOrConfig \<comment> \<open>\<open>update\<close> called with a value that is neither a dict nor a Config\<close>
  | TypeErr string \<comment> \<open>a library call given a value of the wrong type\<close>
  | ImportErr string \<comment> \<open>raised by an override unit while it is imported or run\<close>
  | RecursionErr \<comment> \<open>\<open>__getattr__\<close> re-entered without end\<close>

fun exc_class :: "error \<Rightarrow> string" where
  "exc_class (ProtectedSetting _ _) = ''AttributeError''"
| "exc_class (NoAttribute _) = ''AttributeError''"
| "exc_class (ReadOnlyAttribute _) = ''AttributeError''"
| "exc_class RootUpdatesDisabled = ''ValueError''"
| "exc_class NotDictOrConfig = ''ValueError''"
| "exc_class (TypeErr _) = ''TypeError''"
| "exc_class (ImportErr _) = ''ImportError''"
| "exc_class RecursionErr = ''RecursionError''"

end
