(* ===== verification/ConfigNode.thy ===== *)
theory ConfigNode
  imports PyValue
begin

text \<open>
  The \<open>Config\<close> class of \<open>src/veles/config.py\<close> (lines 47--149) and the
  protection registry \<open>__protected__\<close>. Config objects live in a heap: \<open>objs\<close>
  holds the instance \<open>__dict__\<close> of the object at each address (with its
  \<open>__path__\<close> entry, as in Python), \<open>prot\<close> is the identity-keyed
  \<open>defaultdict(set)\<close> of protected child names, and \<open>root\<close> is the module global.
  Attribute reads follow Python's lookup order (the class's data descriptors, the
  instance dictionary, the class's methods, then \<open>Config.__getattr__\<close>), and
  attribute writes go through \<open>Config.__setattr__\<close>. Every operation returns its
  outcome (an exception or a value) together with the state it leaves behind, since
  a raised exception does not undo the writes made before it.
\<close>

record state =
  objs :: "pyval dict list"
  prot :: "addr \<Rightarrow> string set"
  root :: "addr option"

type_synonym 'a result = "(error + 'a) \<times> state"

definition empty_state :: state where
  "empty_state = \<lparr>objs = [], prot = (\<lambda>_. {}), root = None\<rparr>"

subsection \<open>Construction, path and content\<close>

text \<open>
  \<open>Config(path)\<close>: a new object at the next address whose dictionary holds
  \<open>__path__\<close> only. The assignment in \<open>__init__\<close> goes through \<open>__setattr__\<close>,
  whose protection check cannot fire on a new object: its registry entry is empty,
  since \<open>__del__\<close> drops the entry of a reclaimed object.
\<close>

definition config_init :: "string \<Rightarrow> state \<Rightarrow> addr \<times> state" where
  "config_init p s = (length (objs s), s\<lparr>objs := objs s @ [[(''__path__'', PStr p)]]\<rparr>)"

definition path_of :: "state \<Rightarrow> addr \<Rightarrow> string" where
  "path_of s a = (case map_of (objs s ! a) ''__path__'' of Some (PStr p) \<Rightarrow> p | _ \<Rightarrow> [])"

text \<open>The property \<open>__content__\<close>: a copy of the instance dictionary without \<open>__path__\<close>.\<close>

definition content :: "state \<Rightarrow> addr \<Rightarrow> pyval dict" where
  "content s a = filter (\<lambda>(k, _). k \<noteq> ''__path__'') (objs s ! a)"

subsection \<open>Class attributes\<close>

text \<open>
  Data descriptors of the class win over the instance dictionary: the property
  \<open>__content__\<close> and the slots every object has. Methods of \<open>Config\<close> and of
  \<open>object\<close> are found after the instance dictionary and before \<open>__getattr__\<close>;
  their values (bound methods, the docstring) are opaque, \<open>PFun name\<close>.
\<close>

definition data_descrs :: "string list" where
  "data_descrs = [''__content__'', ''__dict__'', ''__class__'', ''__weakref__'']"

definition class_attrs :: "string list" where
  "class_attrs =
    [''__init__'', ''__del__'', ''update'', ''protect'', ''print_'', ''__update__'',
     ''__getattr__'', ''__setattr__'', ''__repr__'', ''__getstate__'', ''__setstate__'',
     ''__iter__'', ''__getitem__'', ''__doc__'', ''__module__'',
     ''__delattr__'', ''__dir__'', ''__eq__'', ''__format__'', ''__ge__'',
     ''__getattribute__'', ''__gt__'', ''__hash__'', ''__init_subclass__'', ''__le__'',
     ''__lt__'', ''__ne__'', ''__new__'', ''__reduce__'', ''__reduce_ex__'', ''__sizeof__'',
     ''__str__'', ''__subclasshook__'']"

subsection \<open>Attribute write: \<open>Config.__setattr__\<close>\<close>

text \<open>
  The protection check first (lines 111--114), then \<open>object.__setattr__\<close>: the
  read-only property and slot raise, assigning \<open>__dict__\<close> replaces the whole
  instance dictionary (a dict is required), anything else is stored under its name.
\<close>

definition setattr :: "addr \<Rightarrow> string \<Rightarrow> pyval \<Rightarrow> state \<Rightarrow> unit result" where
  "setattr a name v s =
     (if name \<in> prot s a then (Inl (ProtectedSetting (path_of s a) name), s)
      else if name = ''__content__'' \<or> name = ''__weakref__'' then (Inl (ReadOnlyAttribute name), s)
      else if name = ''__class__'' then (Inl (TypeErr name), s)
      else if name = ''__dict__'' then
        (case v of
           PDict d \<Rightarrow> (Inr (), s\<lparr>objs := (objs s)[a := d]\<rparr>)
         | _ \<Rightarrow> (Inl (TypeErr name), s))
      else (Inr (), s\<lparr>objs := (objs s)[a := dset name v (objs s ! a)]\<rparr>))"

subsection \<open>Attribute read: lookup and \<open>Config.__getattr__\<close>\<close>

text \<open>
  \<open>__getattr__\<close> (lines 101--108) runs only when ordinary lookup fails. Reading an
  undeclared name creates a new \<open>Config\<close> whose path extends the parent's and
  stores it through \<open>setattr\<close>, so the protection check applies to the read.
  The new path is built from \<open>self.__path__\<close>; if an assignment to \<open>__dict__\<close>
  removed it, reading it re-enters \<open>__getattr__\<close> without end. (A \<open>__path__\<close>
  that was overwritten by a non-string is read as the empty string here: Python's
  \<open>str()\<close> of arbitrary values is not modelled.)
\<close>

definition getattr_hook :: "addr \<Rightarrow> string \<Rightarrow> state \<Rightarrow> pyval result" where
  "getattr_hook a name s =
     (if name = ''__copy__'' \<or> name = ''__deepcopy__'' then (Inl (NoAttribute name), s)
      else if name = ''keys'' \<or> name = ''values'' then (Inr (PFun name), s)
      else if map_of (objs s ! a) ''__path__'' = None then (Inl RecursionErr, s)
      else
        (let (b, s1) = config_init (path_of s a @ ''.'' @ name) s in
         case setattr a name (PConfig b) s1 of
           (Inl e, s2) \<Rightarrow> (Inl e, s2)
         | (Inr _, s2) \<Rightarrow> (Inr (PConfig b), s2)))"

definition getattr :: "addr \<Rightarrow> string \<Rightarrow> state \<Rightarrow> pyval result" where
  "getattr a name s =
     (if name = ''__content__'' then (Inr (PDict (content s a)), s)
      else if name = ''__dict__'' then (Inr (PDict (objs s ! a)), s)
      else if name \<in> set data_descrs then (Inr (PFun name), s)
      else case map_of (objs s ! a) name of
        Some v \<Rightarrow> (Inr v, s)
      | None \<Rightarrow> if name \<in> set class_attrs then (Inr (PFun name), s) else getattr_hook a name s)"

text \<open>\<open>__getitem__\<close> (line 144) is attribute read; \<open>__iter__\<close> (line 141) iterates the content's keys.\<close>

definition getitem :: "addr \<Rightarrow> string \<Rightarrow> state \<Rightarrow> pyval result" where
  "getitem a item s = getattr a item s"

definition iter :: "state \<Rightarrow> addr \<Rightarrow> string list" where
  "iter s a = dkeys (content s a)"

text \<open>
  Attribute read on an arbitrary value, and the dotted read \<open>x.n1.n2...\<close> the code
  and its callers use (\<open>root.common.dirs.user\<close>). The leaves of a configuration
  have no attributes a configuration path names, so reading through a leaf raises.
\<close>

definition attr_of :: "pyval \<Rightarrow> string \<Rightarrow> state \<Rightarrow> pyval result" where
  "attr_of v name s = (case v of PConfig a \<Rightarrow> getattr a name s | _ \<Rightarrow> (Inl (NoAttribute name), s))"

fun get_path :: "pyval \<Rightarrow> string list \<Rightarrow> state \<Rightarrow> pyval result" where
  "get_path v [] s = (Inr v, s)"
| "get_path v (n # ns) s =
     (case attr_of v n s of
        (Inl e, s1) \<Rightarrow> (Inl e, s1)
      | (Inr w, s1) \<Rightarrow> get_path w ns s1)"

subsection \<open>Protection: \<open>Config.protect\<close>\<close>

definition protect :: "addr \<Rightarrow> string list \<Rightarrow> state \<Rightarrow> state" where
  "protect a names s = s\<lparr>prot := (prot s)(a := prot s a \<union> set names)\<rparr>"

subsection \<open>Well-formed heaps\<close>

text \<open>
  A Python dictionary has distinct keys, at every level of nesting. A heap is
  well formed when every instance dictionary is such a dictionary and refers only
  to allocated objects, no address beyond the heap is protected (so a new object
  starts unprotected), and the root, once set, is allocated.
\<close>

fun dicts_distinct :: "pyval \<Rightarrow> bool" where
  "dicts_distinct (PSeq xs) = list_all dicts_distinct xs"
| "dicts_distinct (PDict d) = (distinct (dkeys d) \<and> list_all (\<lambda>(k, v). dicts_distinct v) d)"
| "dicts_distinct _ = True"

definition wf_val :: "nat \<Rightarrow> pyval \<Rightarrow> bool" where
  "wf_val n v \<longleftrightarrow> dicts_distinct v \<and> refs v \<subseteq> {..<n}"

definition wf_dict :: "nat \<Rightarrow> pyval dict \<Rightarrow> bool" where
  "wf_dict n d \<longleftrightarrow> wf_val n (PDict d)"

definition wf_state :: "state \<Rightarrow> bool" where
  "wf_state s \<longleftrightarrow>
     list_all (wf_dict (length (objs s))) (objs s)
   \<and> (\<forall>a. length (objs s) \<le> a \<longrightarrow> prot s a = {})
   \<and> (\<forall>r. root s = Some r \<longrightarrow> r < length (objs s))"

definition heap_ext :: "state \<Rightarrow> state \<Rightarrow> bool" where
  "heap_ext s s' \<longleftrightarrow>
     length (objs s) \<le> length (objs s') \<and> root s' = root s \<and> (\<forall>a. prot s a \<subseteq> prot s' a)"

definition ordinary_name :: "string \<Rightarrow> bool" where
  "ordinary_name n \<longleftrightarrow> n \<noteq> ''__path__'' \<and>
     n \<notin> set data_descrs \<and> n \<notin> set class_attrs \<and>
     n \<notin> {''__copy__'', ''__deepcopy__'', ''keys'', ''values''}"

subsection \<open>Well-formedness lemmas\<close>

lemma wf_val_mono: "wf_val n v \<Longrightarrow> n \<le> m \<Longrightarrow> wf_val m v"
  by (auto simp: wf_val_def)

lemma wf_dict_mono: "wf_dict n d \<Longrightarrow> n \<le> m \<Longrightarrow> wf_dict m d"
  by (auto simp: wf_dict_def wf_val_def)

lemma wf_dict_dset: "wf_dict n d \<Longrightarrow> wf_val n v \<Longrightarrow> wf_dict n (dset k v d)"
  unfolding wf_dict_def wf_val_def
  by (induction k v d rule: dset.induct) auto

lemma wf_dict_ddel: "wf_dict n d \<Longrightarrow> wf_dict n (ddel k d)"
  unfolding wf_dict_def wf_val_def
  by (induction d) (auto simp: ddel_def distinct_map_filter)

lemma wf_dict_lookup: "wf_dict n d \<Longrightarrow> map_of d k = Some v \<Longrightarrow> wf_val n v"
  unfolding wf_dict_def wf_val_def
  by (induction d) (auto split: if_splits)

lemma wf_dict_filter: "wf_dict n d \<Longrightarrow> wf_dict n (filter P d)"
  unfolding wf_dict_def wf_val_def
  by (induction d) (auto simp: distinct_map_filter)

lemma wf_val_PDict [simp]: "wf_val n (PDict d) = wf_dict n d"
  by (simp add: wf_dict_def)

lemma wf_val_PConfig [simp]: "wf_val n (PConfig b) = (b < n)"
  by (simp add: wf_val_def)

lemma wf_state_objs: "wf_state s \<Longrightarrow> a < length (objs s) \<Longrightarrow> wf_dict (length (objs s)) (objs s ! a)"
  by (simp add: wf_state_def list_all_length)

lemma wf_state_update_obj:
  assumes "wf_state s" "wf_dict (length (objs s)) d"
  shows "wf_state (s\<lparr>objs := (objs s)[a := d]\<rparr>)"
  using assms by (auto simp: wf_state_def list_all_iff dest: set_update_subset_insert [THEN subsetD])

lemma wf_state_empty: "wf_state empty_state"
  by (simp add: wf_state_def empty_state_def)

lemma heap_ext_refl [simp]: "heap_ext s s"
  by (simp add: heap_ext_def)

lemma heap_ext_trans: "heap_ext s1 s2 \<Longrightarrow> heap_ext s2 s3 \<Longrightarrow> heap_ext s1 s3"
  by (auto simp: heap_ext_def)

lemma heap_ext_wf_val: "heap_ext s s' \<Longrightarrow> wf_val (length (objs s)) v \<Longrightarrow> wf_val (length (objs s')) v"
  by (auto simp: heap_ext_def intro: wf_val_mono)

lemma heap_ext_length: "heap_ext s s' \<Longrightarrow> a < length (objs s) \<Longrightarrow> a < length (objs s')"
  by (auto simp: heap_ext_def)

subsection \<open>Construction\<close>

lemma config_init_fresh:
  assumes "config_init p s = (b, s')"
  shows "b = length (objs s)" "objs s' = objs s @ [[(''__path__'', PStr p)]]"
    "prot s' = prot s" "root s' = root s"
  using assms by (auto simp: config_init_def)

lemma wf_config_init:
  assumes "wf_state s"
  shows "wf_state (snd (config_init p s))"
proof -
  have "list_all (wf_dict (Suc (length (objs s)))) (objs s)"
    using assms by (auto simp: wf_state_def list_all_iff intro: wf_dict_mono)
  moreover have "wf_dict (Suc (length (objs s))) [(''__path__'', PStr p)]"
    by (simp add: wf_dict_def wf_val_def)
  ultimately show ?thesis
    using assms by (auto simp: wf_state_def config_init_def)
qed

lemma heap_ext_config_init: "heap_ext s (snd (config_init p s))"
  by (simp add: heap_ext_def config_init_def)

subsection \<open>Attribute write\<close>

lemma setattr_protected:
  "n \<in> prot s a \<Longrightarrow> setattr a n v s = (Inl (ProtectedSetting (path_of s a) n), s)"
  by (simp add: setattr_def)

lemma setattr_ordinary:
  "n \<notin> prot s a \<Longrightarrow> n \<notin> set data_descrs \<Longrightarrow>
   setattr a n v s = (Inr (), s\<lparr>objs := (objs s)[a := dset n v (objs s ! a)]\<rparr>)"
  by (simp add: setattr_def data_descrs_def)

lemma setattr_frame [frame_simps]:
  "length (objs (snd (setattr a n v s))) = length (objs s)"
  "prot (snd (setattr a n v s)) = prot s"
  "root (snd (setattr a n v s)) = root s"
  "c \<noteq> a \<Longrightarrow> objs (snd (setattr a n v s)) ! c = objs s ! c"
  by (auto simp: setattr_def split: pyval.split)

lemma heap_ext_setattr: "heap_ext s (snd (setattr a n v s))"
  by (simp add: heap_ext_def frame_simps)

lemma wf_setattr:
  assumes "wf_state s" "a < length (objs s)" "wf_val (length (objs s)) v"
  shows "wf_state (snd (setattr a n v s))"
proof -
  have d: "wf_dict (length (objs s)) (objs s ! a)"
    using assms(1,2) by (rule wf_state_objs)
  show ?thesis
    using assms d
    by (auto simp: setattr_def wf_dict_dset intro!: wf_state_update_obj split: pyval.split)
qed

subsection \<open>Attribute read\<close>

lemma getattr_existing:
  "n \<notin> set data_descrs \<Longrightarrow> map_of (objs s ! a) n = Some v \<Longrightarrow> getattr a n s = (Inr v, s)"
  by (auto simp: getattr_def data_descrs_def)

lemma getattr_hook_new:
  assumes "ordinary_name n" "map_of (objs s ! a) ''__path__'' \<noteq> None" "n \<notin> prot s a"
    "a < length (objs s)"
  shows "getattr_hook a n s =
    (Inr (PConfig (length (objs s))),
     s\<lparr>objs := (objs s @ [[(''__path__'', PStr (path_of s a @ ''.'' @ n))]])
              [a := dset n (PConfig (length (objs s))) (objs s ! a)]\<rparr>)"
  using assms by (auto simp: getattr_hook_def config_init_def setattr_def ordinary_name_def
      data_descrs_def nth_append)

lemma getattr_cases:
  "getattr a n s = (r, s') \<Longrightarrow>
     s' = s \<or> s' = snd (setattr a n (PConfig (length (objs s))) (snd (config_init (path_of s a @ ''.'' @ n) s)))"
  by (auto simp: getattr_def getattr_hook_def config_init_def
      split: option.splits if_splits prod.splits sum.splits)

lemma setattr_length_eq: "setattr a n v s = (r, s') \<Longrightarrow> length (objs s') = length (objs s)"
  using setattr_frame(1) [of a n v s] by simp

lemma getattr_length:
  "getattr a n s = (r, s') \<Longrightarrow> length (objs s) \<le> length (objs s') \<and> length (objs s') \<le> Suc (length (objs s))"
  using getattr_cases [of a n s r s'] by (auto simp: frame_simps config_init_def)

lemma getattr_hook_value:
  "getattr_hook a n s = (Inr v, s') \<Longrightarrow>
     v = PFun n \<or> v = PConfig (length (objs s)) \<and> length (objs s') = Suc (length (objs s))"
  unfolding getattr_hook_def
  by (auto simp: Let_def config_init_def dest: setattr_length_eq split: if_splits prod.splits sum.splits)

lemma getattr_value_cases:
  "getattr a n s = (Inr v, s') \<Longrightarrow>
     v = PConfig (length (objs s)) \<and> length (objs s') = Suc (length (objs s))
     \<or> v = PDict (content s a) \<or> v = PDict (objs s ! a)
     \<or> (\<exists>k. v = PFun k) \<or> map_of (objs s ! a) n = Some v"
  unfolding getattr_def
  by (auto dest: getattr_hook_value split: option.splits if_splits)

lemma heap_ext_getattr: "heap_ext s (snd (getattr a n s))"
proof (cases "getattr a n s")
  case (Pair r s')
  then show ?thesis
    using getattr_cases [OF Pair] heap_ext_config_init heap_ext_setattr heap_ext_trans
    by fastforce
qed

lemma wf_getattr_state:
  assumes "wf_state s" "a < length (objs s)"
  shows "wf_state (snd (getattr a n s))"
proof (cases "getattr a n s")
  case (Pair r s')
  let ?s1 = "snd (config_init (path_of s a @ ''.'' @ n) s)"
  have "wf_state ?s1" using assms(1) by (rule wf_config_init)
  moreover have "a < length (objs ?s1)" "wf_val (length (objs ?s1)) (PConfig (length (objs s)))"
    using assms(2) by (simp_all add: config_init_def)
  ultimately have "wf_state (snd (setattr a n (PConfig (length (objs s))) ?s1))"
    by (rule wf_setattr)
  then show ?thesis
    using getattr_cases [OF Pair] Pair assms(1) by auto
qed

lemma wf_getattr_value:
  assumes "wf_state s" "a < length (objs s)" "getattr a n s = (Inr v, s')"
  shows "wf_val (length (objs s')) v"
proof -
  have d: "wf_dict (length (objs s)) (objs s ! a)"
    using assms(1,2) by (rule wf_state_objs)
  have ext: "heap_ext s s'"
    using heap_ext_getattr [of s a n] assms(3) by simp
  consider (new) "v = PConfig (length (objs s))" "length (objs s') = Suc (length (objs s))" | (cont) "v = PDict (content s a)"
    | (dict) "v = PDict (objs s ! a)" | (fn) k where "v = PFun k"
    | (old) "map_of (objs s ! a) n = Some v"
    using getattr_value_cases [OF assms(3)] by blast
  then show ?thesis
  proof cases
    case new
    then show ?thesis by simp
  next
    case cont
    then show ?thesis using d ext heap_ext_wf_val [of s s' "PDict _"] by (simp add: content_def wf_dict_filter)
  next
    case dict
    then show ?thesis using d ext heap_ext_wf_val [of s s' "PDict _"] by simp
  next
    case fn
    then show ?thesis by (simp add: wf_val_def)
  next
    case old
    then show ?thesis using d ext heap_ext_wf_val wf_dict_lookup by blast
  qed
qed

subsection \<open>Protection\<close>

lemma prot_protect [frame_simps]:
  "prot (protect a ns s) b = (if b = a then prot s a \<union> set ns else prot s b)"
  "objs (protect a ns s) = objs s" "root (protect a ns s) = root s"
  by (simp_all add: protect_def)

lemma wf_protect: "wf_state s \<Longrightarrow> a < length (objs s) \<Longrightarrow> wf_state (protect a ns s)"
  by (auto simp: wf_state_def protect_def)

lemma heap_ext_protect: "heap_ext s (protect a ns s)"
  by (auto simp: heap_ext_def protect_def)

lemma path_of_protect [frame_simps]: "path_of (protect a ns s) b = path_of s b"
  by (simp add: protect_def path_of_def)

lemma setattr_other_object:
  "b \<noteq> a \<Longrightarrow> setattr b n v (protect a ns s) = (fst (setattr b n v s), protect a ns (snd (setattr b n v s)))"
  by (auto simp: setattr_def protect_def path_of_def split: pyval.split)

subsection \<open>Reads are stable\<close>

definition created :: "addr \<Rightarrow> string \<Rightarrow> state \<Rightarrow> state" where
  "created a n s = s\<lparr>objs := objs s @ [[(''__path__'', PStr (path_of s a @ ''.'' @ n))]]\<rparr>"

lemma getattr_hook_create:
  assumes "a < length (objs s)" "n \<notin> set data_descrs"
    "n \<noteq> ''__copy__''" "n \<noteq> ''__deepcopy__''" "n \<noteq> ''keys''" "n \<noteq> ''values''"
    "map_of (objs s ! a) ''__path__'' \<noteq> None"
  shows "getattr_hook a n s =
    (if n \<in> prot s a then (Inl (ProtectedSetting (path_of s a) n), created a n s)
     else (Inr (PConfig (length (objs s))),
           (created a n s)\<lparr>objs := (objs (created a n s))[a := dset n (PConfig (length (objs s))) (objs s ! a)]\<rparr>))"
proof -
  have "path_of (created a n s) a = path_of s a" "objs (created a n s) ! a = objs s ! a"
    "prot (created a n s) = prot s"
    using assms(1) by (simp_all add: created_def path_of_def nth_append)
  then show ?thesis
    using assms(2-7)
    by (simp add: getattr_hook_def config_init_def setattr_def data_descrs_def)
       (simp add: created_def)
qed

lemma getattr_hook_other:
  "n = ''__copy__'' \<or> n = ''__deepcopy__'' \<or> n = ''keys'' \<or> n = ''values'' \<or>
     map_of (objs s ! a) ''__path__'' = None \<Longrightarrow> snd (getattr_hook a n s) = s"
  by (auto simp: getattr_hook_def)

lemma getattr_no_hook:
  "n \<in> set data_descrs \<or> map_of (objs s ! a) n \<noteq> None \<or> n \<in> set class_attrs \<Longrightarrow>
   snd (getattr a n s) = s"
  by (auto simp: getattr_def data_descrs_def split: option.split)

lemma getattr_to_hook:
  "n \<notin> set data_descrs \<Longrightarrow> map_of (objs s ! a) n = None \<Longrightarrow> n \<notin> set class_attrs \<Longrightarrow>
   getattr a n s = getattr_hook a n s"
  by (simp add: getattr_def data_descrs_def)

lemma objs_created_nth:
  "c < length (objs s) \<Longrightarrow> objs (created a n s) ! c = objs s ! c"
  by (simp add: created_def nth_append)

lemma getattr_keeps_entry:
  assumes "a < length (objs s)" "c < length (objs s)" "map_of (objs s ! c) k = Some w"
  shows "map_of (objs (snd (getattr a n s)) ! c) k = Some w"
proof (cases "n \<in> set data_descrs \<or> map_of (objs s ! a) n \<noteq> None \<or> n \<in> set class_attrs")
  case True
  then show ?thesis using assms(3) by (simp add: getattr_no_hook)
next
  case False
  then have g: "getattr a n s = getattr_hook a n s" and none: "map_of (objs s ! a) n = None"
    and nd: "n \<notin> set data_descrs"
    by (simp_all add: getattr_to_hook)
  show ?thesis
  proof (cases "n = ''__copy__'' \<or> n = ''__deepcopy__'' \<or> n = ''keys'' \<or> n = ''values'' \<or>
      map_of (objs s ! a) ''__path__'' = None")
    case True
    then show ?thesis using g getattr_hook_other assms(3) by metis
  next
    case False
    then have eq: "getattr a n s =
      (if n \<in> prot s a then (Inl (ProtectedSetting (path_of s a) n), created a n s)
       else (Inr (PConfig (length (objs s))),
             (created a n s)\<lparr>objs := (objs (created a n s))[a := dset n (PConfig (length (objs s))) (objs s ! a)]\<rparr>))"
      using g getattr_hook_create [OF assms(1) nd] by simp
    have k: "c = a \<Longrightarrow> k \<noteq> n" using none assms(3) by auto
    show ?thesis
    proof (cases "c = a")
      case True
      then show ?thesis
        using eq k assms(1,3) objs_created_nth [OF assms(1)] by (simp add: created_def nth_append)
    next
      case False
      then show ?thesis
        using eq assms(3) objs_created_nth [OF assms(2)] by simp
    qed
  qed
qed

lemma getattr_created_entry:
  assumes "a < length (objs s)" "n \<notin> set data_descrs" "map_of (objs s ! a) n = None"
    "n \<notin> set class_attrs"
    "\<not> (n = ''__copy__'' \<or> n = ''__deepcopy__'' \<or> n = ''keys'' \<or> n = ''values'' \<or>
        map_of (objs s ! a) ''__path__'' = None)"
    "getattr a n s = (Inr w, s')"
  shows "map_of (objs s' ! a) n = Some w"
proof -
  have eq: "getattr a n s =
      (if n \<in> prot s a then (Inl (ProtectedSetting (path_of s a) n), created a n s)
       else (Inr (PConfig (length (objs s))),
             (created a n s)\<lparr>objs := (objs (created a n s))[a := dset n (PConfig (length (objs s))) (objs s ! a)]\<rparr>))"
    using getattr_to_hook [OF assms(2,3,4)] getattr_hook_create [OF assms(1,2)] assms(5) by simp
  then show ?thesis
  proof (cases "n \<in> prot s a")
    case True
    with eq assms(6) show ?thesis by simp
  next
    case False
    with eq assms(6) have "w = PConfig (length (objs s))"
      "s' = (created a n s)\<lparr>objs := (objs (created a n s))[a := dset n (PConfig (length (objs s))) (objs s ! a)]\<rparr>"
      by simp_all
    moreover have "a < length (objs (created a n s))"
      using assms(1) by (simp add: created_def)
    ultimately show ?thesis by simp
  qed
qed

lemma getattr_Inr_entry:
  assumes "a < length (objs s)" "n \<notin> set data_descrs" "n \<notin> set class_attrs"
    "n \<noteq> ''keys''" "n \<noteq> ''values''" "getattr a n s = (Inr w, s')"
  shows "map_of (objs s' ! a) n = Some w"
proof (cases "map_of (objs s ! a) n")
  case (Some v)
  then show ?thesis using assms(2,6) by (simp add: getattr_existing)
next
  case None
  have "\<not> (n = ''__copy__'' \<or> n = ''__deepcopy__'' \<or> map_of (objs s ! a) ''__path__'' = None)"
  proof
    assume "n = ''__copy__'' \<or> n = ''__deepcopy__'' \<or> map_of (objs s ! a) ''__path__'' = None"
    then have "\<exists>e. getattr_hook a n s = (Inl e, s)"
      using assms(4,5) by (auto simp: getattr_hook_def)
    then show False
      using assms(6) getattr_to_hook [OF assms(2) None assms(3)] by auto
  qed
  then show ?thesis
    using assms(4,5) by (intro getattr_created_entry [OF assms(1,2) None assms(3) _ assms(6)]) simp
qed

subsection \<open>Properties of the node operations\<close>

definition root_only :: state where
  "root_only = snd (config_init ''root'' empty_state)"

lemma root_only_eq [cfg_simps]:
  "root_only = \<lparr>objs = [[(''__path__'', PStr ''root'')]], prot = (\<lambda>_. {}), root = None\<rparr>"
  by (simp add: root_only_def config_init_def empty_state_def)

lemma ordinary_name_common [cfg_simps]: "ordinary_name ''common''"
  by (simp add: ordinary_name_def data_descrs_def class_attrs_def)

text \<open>
  C1. Lazy materialization: reading a name a node does not have (an ordinary name,
  not protected) creates an empty \<open>Config\<close> at a new address, whose path is the
  parent's path, a dot and the name, stores it in the parent under that name and
  returns it; the registry is unchanged.
\<close>

theorem getattr_creates_placeholder:
  assumes "a < length (objs s)" "ordinary_name n" "map_of (objs s ! a) n = None"
    "map_of (objs s ! a) ''__path__'' \<noteq> None" "n \<notin> prot s a"
  shows "\<exists>s'. getattr a n s = (Inr (PConfig (length (objs s))), s')
     \<and> content s' (length (objs s)) = []
     \<and> path_of s' (length (objs s)) = path_of s a @ ''.'' @ n
     \<and> map_of (objs s' ! a) n = Some (PConfig (length (objs s)))
     \<and> prot s' = prot s"
proof -
  have n: "n \<noteq> ''__content__''" "n \<noteq> ''__dict__''" "n \<notin> set data_descrs" "n \<notin> set class_attrs"
    using assms(2) by (auto simp: ordinary_name_def data_descrs_def)
  have "getattr a n s = getattr_hook a n s"
    using n assms(3) by (simp add: getattr_def)
  also have "\<dots> = (Inr (PConfig (length (objs s))),
     s\<lparr>objs := (objs s @ [[(''__path__'', PStr (path_of s a @ ''.'' @ n))]])
              [a := dset n (PConfig (length (objs s))) (objs s ! a)]\<rparr>)"
    using assms(2,4,5,1) by (rule getattr_hook_new)
  finally show ?thesis
    using assms(1) by (auto simp: content_def path_of_def nth_append)
qed

theorem getattr_creates_placeholder_witness:
  "\<exists>s'. getattr 0 ''common'' root_only = (Inr (PConfig 1), s')
     \<and> content s' 1 = [] \<and> path_of s' 1 = ''root.common''
     \<and> map_of (objs s' ! 0) ''common'' = Some (PConfig 1) \<and> prot s' = prot root_only"
  using getattr_creates_placeholder [of 0 root_only "''common''"]
  by (simp add: cfg_simps path_of_def)

text \<open>
  C2. Reading an unset name that has been protected raises: the placeholder
  \<open>__getattr__\<close> creates is stored through \<open>__setattr__\<close>, which refuses the
  protected name. Lazy materialization therefore fails on protected names
  (\<open>root.common.pickles_compression\<close> after start-up).
\<close>

theorem getattr_protected_absent:
  assumes "a < length (objs s)" "ordinary_name n" "map_of (objs s ! a) n = None"
    "map_of (objs s ! a) ''__path__'' \<noteq> None" "n \<in> prot s a"
  shows "fst (getattr a n s) = Inl (ProtectedSetting (path_of s a) n)"
proof -
  have n: "n \<noteq> ''__content__''" "n \<noteq> ''__dict__''" "n \<notin> set data_descrs" "n \<notin> set class_attrs"
    "n \<noteq> ''__copy__''" "n \<noteq> ''__deepcopy__''" "n \<noteq> ''keys''" "n \<noteq> ''values''"
    using assms(2) by (auto simp: ordinary_name_def data_descrs_def)
  let ?s1 = "snd (config_init (path_of s a @ ''.'' @ n) s)"
  have "prot ?s1 a = prot s a" "path_of ?s1 a = path_of s a"
    using assms(1) by (simp_all add: config_init_def path_of_def nth_append)
  then have "setattr a n (PConfig (length (objs s))) ?s1 = (Inl (ProtectedSetting (path_of s a) n), ?s1)"
    using assms(5) by (simp add: setattr_protected)
  then show ?thesis
    using n assms(3,4) by (simp add: getattr_def getattr_hook_def Let_def config_init_def)
qed

theorem getattr_protected_absent_witness:
  "fst (getattr 0 ''pickles_compression'' (protect 0 [''pickles_compression''] root_only))
     = Inl (ProtectedSetting ''root'' ''pickles_compression'')"
proof -
  have "ordinary_name ''pickles_compression''"
    by (simp add: ordinary_name_def data_descrs_def class_attrs_def)
  then show ?thesis
    using getattr_protected_absent [of 0 "protect 0 [''pickles_compression''] root_only"
        "''pickles_compression''"]
    by (simp add: cfg_simps frame_simps path_of_def)
qed

text \<open>
  C3. \<open>protect\<close> guards exactly the names it is given: after \<open>node.protect(*ns)\<close>
  an assignment to one of them raises \<open>AttributeError\<close> and changes nothing, while
  an assignment to any other ordinary, unprotected name stores the value under
  that name and changes nothing else.
\<close>

theorem protect_guards_named:
  assumes "n \<in> set ns" "m \<notin> set ns" "m \<notin> prot s a" "m \<notin> set data_descrs"
  shows "setattr a n v (protect a ns s) = (Inl (ProtectedSetting (path_of s a) n), protect a ns s)
     \<and> setattr a m w (protect a ns s)
         = (Inr (), protect a ns (s\<lparr>objs := (objs s)[a := dset m w (objs s ! a)]\<rparr>))"
  using assms by (simp add: setattr_def protect_def path_of_def data_descrs_def)

theorem protect_guards_named_witness:
  "setattr 0 ''port'' (PInt 9) (protect 0 [''port''] root_only)
     = (Inl (ProtectedSetting ''root'' ''port''), protect 0 [''port''] root_only)
   \<and> setattr 0 ''other'' (PInt 9) (protect 0 [''port''] root_only)
     = (Inr (), protect 0 [''port''] (root_only\<lparr>objs := [[(''__path__'', PStr ''root''), (''other'', PInt 9)]]\<rparr>))"
  using protect_guards_named [of "''port''" "[''port'']" "''other''" root_only 0 "PInt 9" "PInt 9"]
  by (simp add: cfg_simps path_of_def data_descrs_def)

text \<open>
  C4. Protection is keyed by object identity, not by path: protecting one object
  leaves every write to another object as it was, and an object created later
  starts with no protected names, even when it has the same path as a protected one.
\<close>

theorem protection_by_identity:
  assumes "wf_state s" "b \<noteq> a" "config_init p s = (c, s')"
  shows "fst (setattr b n v (protect a ns s)) = fst (setattr b n v s) \<and> prot s' c = {}"
proof -
  have "prot s' c = prot s (length (objs s))" "c = length (objs s)"
    using assms(3) by (auto simp: config_init_def)
  moreover have "prot s (length (objs s)) = {}"
    using assms(1) by (simp add: wf_state_def)
  ultimately show ?thesis
    using assms(2) by (simp add: setattr_other_object)
qed

theorem protection_by_identity_witness:
  "fst (setattr 1 ''port'' (PInt 1) (protect 0 [''port''] (snd (config_init ''root'' root_only))))
     = Inr ()
   \<and> prot (snd (config_init ''root'' (snd (config_init ''root'' root_only)))) 2 = {}"
proof -
  let ?s = "snd (config_init ''root'' root_only)"
  have "wf_state root_only"
    by (simp add: cfg_simps wf_state_def wf_dict_def wf_val_def)
  then have wf: "wf_state ?s" by (rule wf_config_init)
  have init: "config_init ''root'' ?s = (2, snd (config_init ''root'' ?s))"
    by (simp add: cfg_simps config_init_def)
  have "fst (setattr 1 ''port'' (PInt 1) ?s) = Inr ()"
    by (simp add: cfg_simps config_init_def setattr_def)
  then show ?thesis
    using protection_by_identity [OF wf _ init, of 1 0 "''port''" "PInt 1" "[''port'']"]
    by simp
qed

text \<open>
  C5. The heap invariant: construction, attribute read, attribute write of a
  well-formed value and \<open>protect\<close> keep a well-formed heap well formed, and an
  attribute read returns a value that refers only to allocated objects.
\<close>

theorem node_ops_preserve_wf:
  assumes "wf_state s" "a < length (objs s)" "wf_val (length (objs s)) v"
  shows "wf_state (snd (config_init p s)) \<and> wf_state (snd (getattr a n s))
    \<and> (\<forall>w. fst (getattr a n s) = Inr w \<longrightarrow> wf_val (length (objs (snd (getattr a n s)))) w)
    \<and> wf_state (snd (setattr a n v s)) \<and> wf_state (protect a ns s)"
  using assms wf_config_init wf_getattr_state wf_setattr wf_protect
    wf_getattr_value [of s a n _ "snd (getattr a n s)"]
  by (metis prod.collapse)

theorem node_ops_preserve_wf_witness:
  "wf_state (snd (config_init ''x'' root_only)) \<and> wf_state (snd (getattr 0 ''common'' root_only))
    \<and> wf_val (length (objs (snd (getattr 0 ''common'' root_only)))) (PConfig 1)
    \<and> wf_state (snd (setattr 0 ''common'' PNone root_only)) \<and> wf_state (protect 0 [''a''] root_only)"
proof -
  have "wf_state root_only"
    by (simp add: cfg_simps wf_state_def wf_dict_def wf_val_def)
  moreover have "wf_val (length (objs root_only)) PNone"
    by (simp add: wf_val_def)
  moreover have "(0::nat) < length (objs root_only)"
    by (simp add: cfg_simps)
  moreover have "fst (getattr 0 ''common'' root_only) = Inr (PConfig 1)"
    by (simp add: cfg_simps getattr_def getattr_hook_def data_descrs_def class_attrs_def
        config_init_def setattr_def)
  ultimately show ?thesis
    using node_ops_preserve_wf [of root_only 0 PNone "''x''" "''common''" "[''a'']"] by simp
qed

text \<open>
  C19. A read is stable: reading the same name of the same node again returns the
  same value (the same placeholder object, if the first read created one) and
  changes nothing; lazy creation happens at most once per name.
\<close>

theorem getattr_stable:
  assumes "a < length (objs s)" "getattr a n s = (Inr w, s')"
  shows "getattr a n s' = (Inr w, s')"
proof (cases "s' = s")
  case True
  then show ?thesis using assms(2) by simp
next
  case False
  have "\<not> (n \<in> set data_descrs \<or> map_of (objs s ! a) n \<noteq> None \<or> n \<in> set class_attrs)"
    using getattr_no_hook [of n s a] assms(2) False by (metis snd_conv)
  then have nh: "n \<notin> set data_descrs" "map_of (objs s ! a) n = None" "n \<notin> set class_attrs"
    by simp_all
  then have "\<not> (n = ''__copy__'' \<or> n = ''__deepcopy__'' \<or> n = ''keys'' \<or> n = ''values'' \<or>
      map_of (objs s ! a) ''__path__'' = None)"
  proof -
    have "snd (getattr_hook a n s) = s'"
      using getattr_to_hook [OF nh] assms(2) by (metis snd_conv)
    then show ?thesis
      using getattr_hook_other [of n s a] False by blast
  qed
  then have "map_of (objs s' ! a) n = Some w"
    by (rule getattr_created_entry [OF assms(1) nh(1,2,3) _ assms(2)])
  then show ?thesis
    by (rule getattr_existing [OF nh(1)])
qed

theorem getattr_stable_witness:
  "getattr 0 ''common'' (snd (getattr 0 ''common'' root_only))
     = (Inr (PConfig 1), snd (getattr 0 ''common'' root_only))"
proof -
  have "getattr 0 ''common'' root_only = (Inr (PConfig 1), snd (getattr 0 ''common'' root_only))"
    by (simp add: cfg_simps getattr_def getattr_hook_def data_descrs_def class_attrs_def
        config_init_def setattr_def)
  then show ?thesis
    using getattr_stable [of 0 root_only "''common''" "PConfig 1"] by (simp add: cfg_simps)
qed

text \<open>
  C39. Write then read: after a successful \<open>setattr\<close> of a name that is not a data
  descriptor of the class, reading the name on the same node returns the value
  written, without creating anything (\<open>__getattr__\<close> is not reached).
\<close>

theorem setattr_getattr_roundtrip:
  assumes "setattr a n v s = (Inr (), s')" "n \<notin> set data_descrs" "a < length (objs s)"
  shows "getattr a n s' = (Inr v, s')"
proof -
  have np: "n \<notin> prot s a"
    using assms(1) setattr_protected [of n s a v] by (cases "n \<in> prot s a") simp_all
  then have s': "s' = s\<lparr>objs := (objs s)[a := dset n v (objs s ! a)]\<rparr>"
    using assms(1) setattr_ordinary [OF np assms(2)] by simp
  have "map_of (objs s' ! a) n = Some v"
    using assms(3) by (simp add: s')
  then show ?thesis
    by (rule getattr_existing [OF assms(2)])
qed

theorem setattr_getattr_roundtrip_witness:
  "getattr 0 ''port'' (snd (setattr 0 ''port'' (PInt 8080) root_only))
     = (Inr (PInt 8080), snd (setattr 0 ''port'' (PInt 8080) root_only))"
proof -
  have "setattr 0 ''port'' (PInt 8080) root_only = (Inr (), snd (setattr 0 ''port'' (PInt 8080) root_only))"
    by (simp add: cfg_simps setattr_def)
  moreover have "''port'' \<notin> set data_descrs" "0 < length (objs root_only)"
    by (simp_all add: cfg_simps data_descrs_def)
  ultimately show ?thesis
    using setattr_getattr_roundtrip by blast
qed

end
