(* ===== verification/Merge.thy ===== *)
theory Merge
  imports ConfigNode
begin

text \<open>
  The merge engine of \<open>src/veles/config.py\<close>: \<open>Config.__update__\<close> (lines 92--99)
  walks a source dictionary in its iteration order. A value that is a dict without
  a true \<open>"dict"\<close> marker is merged into the child read with \<open>getattr\<close> (so an
  absent child is created on the way, and a child that is not a Config has no
  \<open>__update__\<close>); any other value, and a marked dict with its marker deleted, is
  written with \<open>setattr\<close>. The first exception ends the walk and keeps every write
  made before it. \<open>Config.update\<close> (lines 70--77) adds the guards on the root and
  on the argument's type and merges a Config argument's shallow \<open>__content__\<close>.
\<close>

subsection \<open>The opaque-dict marker\<close>

text \<open>\<open>v.get("dict", False)\<close>, read as a truth value (line 94).\<close>

definition opaque :: "pyval dict \<Rightarrow> bool" where
  "opaque d \<longleftrightarrow> truthy (dget ''dict'' (PBool False) d)"

text \<open>The sub-tree a source value asks to be merged into, if it is one (line 94).\<close>

definition subtree :: "pyval \<Rightarrow> pyval dict option" where
  "subtree v = (case v of PDict d \<Rightarrow> if opaque d then None else Some d | _ \<Rightarrow> None)"

text \<open>\<open>if isinstance(v, dict) and "dict" in v: del v["dict"]\<close> (lines 97--98).\<close>

definition strip_marker :: "pyval \<Rightarrow> pyval" where
  "strip_marker v =
     (case v of PDict d \<Rightarrow> if ''dict'' \<in> set (dkeys d) then PDict (ddel ''dict'' d) else v | _ \<Rightarrow> v)"

lemma subtree_SomeD: "subtree v = Some d \<Longrightarrow> v = PDict d"
  by (auto simp: subtree_def split: pyval.splits if_splits)

subsection \<open>\<open>Config.__update__\<close>\<close>

text \<open>The calls \<open>getattr(self, k).__update__(v)\<close> (line 95) and \<open>self.__update__(...)\<close>
  (line 75) run the method of the class. A node whose instance dictionary holds a
  setting named \<open>__update__\<close> shadows that method in Python (the call then applies
  that value, normally a \<open>TypeError\<close>); the model does not distinguish this case and
  always runs the method.\<close>

function update_tree :: "addr \<Rightarrow> pyval dict \<Rightarrow> state \<Rightarrow> unit result" where
  "update_tree a [] s = (Inr (), s)"
| "update_tree a ((k, v) # kvs) s =
     (case subtree v of
        Some d \<Rightarrow>
          (case getattr a k s of
             (Inl e, s1) \<Rightarrow> (Inl e, s1)
           | (Inr (PConfig b), s1) \<Rightarrow>
               (case update_tree b d s1 of
                  (Inl e, s2) \<Rightarrow> (Inl e, s2)
                | (Inr _, s2) \<Rightarrow> update_tree a kvs s2)
           | (Inr _, s1) \<Rightarrow> (Inl (NoAttribute ''__update__''), s1))
      | None \<Rightarrow>
          (case setattr a k (strip_marker v) s of
             (Inl e, s1) \<Rightarrow> (Inl e, s1)
           | (Inr _, s1) \<Rightarrow> update_tree a kvs s1))"
  by pat_completeness auto
termination
  by (relation "measure (\<lambda>(a, t, s). size (PDict t))") (auto dest: subtree_SomeD)

subsection \<open>\<open>Config.update\<close>\<close>

text \<open>\<open>self == root\<close> compares identities: \<open>Config\<close> defines no \<open>__eq__\<close>.\<close>

definition update :: "addr \<Rightarrow> pyval \<Rightarrow> state \<Rightarrow> pyval result" where
  "update a value s =
     (if root s = Some a then (Inl RootUpdatesDisabled, s)
      else
        (let merged = (case value of
                         PDict d \<Rightarrow> Some (update_tree a d s)
                       | PConfig b \<Rightarrow> Some (update_tree a (content s b) s)
                       | _ \<Rightarrow> None)
         in case merged of
              None \<Rightarrow> (Inl NotDictOrConfig, s)
            | Some (Inl e, s1) \<Rightarrow> (Inl e, s1)
            | Some (Inr _, s1) \<Rightarrow> (Inr (PConfig a), s1)))"

definition leaves :: "pyval dict \<Rightarrow> bool" where
  "leaves d \<longleftrightarrow> list_all (\<lambda>(k, v). subtree v = None) d"

definition writable :: "state \<Rightarrow> addr \<Rightarrow> pyval dict \<Rightarrow> bool" where
  "writable s a d \<longleftrightarrow> list_all (\<lambda>k. k \<notin> prot s a \<and> k \<notin> set data_descrs) (dkeys d)"

definition stored :: "pyval dict \<Rightarrow> pyval dict" where
  "stored d = map (\<lambda>(k, v). (k, strip_marker v)) d"

text \<open>The number of sub-dictionaries a source merges into child nodes, at any depth:
  each may create one node.\<close>

function subtree_count :: "pyval dict \<Rightarrow> nat" where
  "subtree_count [] = 0"
| "subtree_count ((k, v) # kvs) =
     (case subtree v of Some d \<Rightarrow> Suc (subtree_count d) | None \<Rightarrow> 0) + subtree_count kvs"
  by pat_completeness auto
termination
  by (relation "measure (\<lambda>t. size (PDict t))") (auto dest: subtree_SomeD)

subsection \<open>Sequencing and leaf merges\<close>

lemma update_tree_append:
  "update_tree a (d1 @ d2) s =
     (case update_tree a d1 s of (Inl e, s1) \<Rightarrow> (Inl e, s1) | (Inr _, s1) \<Rightarrow> update_tree a d2 s1)"
proof (induction d1 arbitrary: s)
  case Nil
  then show ?case by simp
next
  case (Cons kv d1)
  obtain k v where kv: "kv = (k, v)" by fastforce
  show ?case
    using Cons.IH
    by (auto simp: kv split: option.split prod.split sum.split pyval.split)
qed

lemma map_of_fold_dset:
  "distinct (dkeys d) \<Longrightarrow>
   map_of (fold (\<lambda>(k, v). dset k (f v)) d base) = map_of base ++ map_of (map (\<lambda>(k, v). (k, f v)) d)"
proof (induction d arbitrary: base)
  case Nil
  then show ?case by simp
next
  case (Cons kv d)
  obtain k v where kv: "kv = (k, v)" by fastforce
  have "k \<notin> dom (map_of (map (\<lambda>(k, v). (k, f v)) d))"
    using Cons.prems by (auto simp: kv dom_map_of_conv_image_fst image_iff)
  let ?M = "map_of (map (\<lambda>(k, v). (k, f v)) d)"
  have "map_of (fold (\<lambda>(k, v). dset k (f v)) (kv # d) base) = map_of (dset k (f v) base) ++ ?M"
    using Cons by (simp add: kv)
  also have "\<dots> = (map_of base ++ ?M)(k \<mapsto> f v)"
    by (simp only: map_of_dset map_add_upd_left [OF \<open>k \<notin> dom ?M\<close>])
  also have "\<dots> = map_of base ++ map_of (map (\<lambda>(k, v). (k, f v)) (kv # d))"
    by (simp add: kv)
  finally show ?case .
qed

lemma update_tree_flat:
  assumes "a < length (objs s)" "leaves d" "writable s a d"
  shows "update_tree a d s =
    (Inr (), s\<lparr>objs := (objs s)[a := fold (\<lambda>(k, v). dset k (strip_marker v)) d (objs s ! a)]\<rparr>)"
  using assms
proof (induction d arbitrary: s)
  case Nil
  then show ?case by simp
next
  case (Cons kv d)
  obtain k v where kv: "kv = (k, v)" by fastforce
  let ?s1 = "s\<lparr>objs := (objs s)[a := dset k (strip_marker v) (objs s ! a)]\<rparr>"
  have v: "subtree v = None" "leaves d" using Cons.prems(2) by (simp_all add: kv leaves_def)
  have k: "k \<notin> prot s a" "k \<notin> set data_descrs" "writable ?s1 a d"
    using Cons.prems(3) by (simp_all add: kv writable_def)
  have "update_tree a d ?s1 =
      (Inr (), ?s1\<lparr>objs := (objs ?s1)[a := fold (\<lambda>(k, v). dset k (strip_marker v)) d (objs ?s1 ! a)]\<rparr>)"
    using Cons.prems(1) v(2) k(3) by (intro Cons.IH) simp_all
  then show ?case
    using Cons.prems(1) v(1) k(1,2) by (simp add: kv setattr_ordinary)
qed

lemma update_tree_flat_map_of:
  assumes "a < length (objs s)" "distinct (dkeys d)" "leaves d" "writable s a d"
  obtains s' where "update_tree a d s = (Inr (), s')"
    "map_of (objs s' ! a) = map_of (objs s ! a) ++ map_of (stored d)"
    "\<And>c. c \<noteq> a \<Longrightarrow> objs s' ! c = objs s ! c" "prot s' = prot s" "root s' = root s"
    "length (objs s') = length (objs s)"
  using update_tree_flat [OF assms(1,3,4)] assms(1,2)
  by (simp add: map_of_fold_dset stored_def)

lemma wf_dict_Cons: "wf_dict n ((k, v) # d) \<longleftrightarrow> wf_val n v \<and> k \<notin> set (dkeys d) \<and> wf_dict n d"
  by (auto simp: wf_dict_def wf_val_def)

lemma heap_ext_wf_dict: "heap_ext s s' \<Longrightarrow> wf_dict (length (objs s)) d \<Longrightarrow> wf_dict (length (objs s')) d"
  using heap_ext_wf_val [of s s' "PDict d"] by simp

lemma wf_val_strip_marker: "wf_val n v \<Longrightarrow> wf_val n (strip_marker v)"
  using wf_dict_ddel [of n _ "''dict''"] by (auto simp: strip_marker_def split: pyval.split)

lemma wf_update_tree:
  "wf_state s \<Longrightarrow> a < length (objs s) \<Longrightarrow> wf_dict (length (objs s)) d \<Longrightarrow>
   wf_state (snd (update_tree a d s)) \<and> heap_ext s (snd (update_tree a d s))"
proof (induction a d s rule: update_tree.induct)
  case (1 a s)
  then show ?case by simp
next
  case (2 a k v kvs s)
  have v: "wf_val (length (objs s)) v" and kvs: "wf_dict (length (objs s)) kvs"
    using "2.prems"(3) by (simp_all add: wf_dict_Cons)
  show ?case
  proof (cases "subtree v")
    case None
    obtain r s1 where st: "setattr a k (strip_marker v) s = (r, s1)" by fastforce
    have s1: "wf_state s1" "heap_ext s s1"
      using wf_setattr [OF "2.prems"(1,2) wf_val_strip_marker [OF v], of k] heap_ext_setattr [of s a k "strip_marker v"]
      by (simp_all add: st)
    show ?thesis
    proof (cases r)
      case (Inl e)
      then show ?thesis using None st s1 by simp
    next
      case (Inr u)
      have "wf_state (snd (update_tree a kvs s1)) \<and> heap_ext s1 (snd (update_tree a kvs s1))"
        using "2.IH"(1) [OF None st [symmetric] Inr] s1 "2.prems"(2) kvs
        by (meson heap_ext_length heap_ext_wf_dict)
      then show ?thesis using None st Inr s1(2) heap_ext_trans by auto
    qed
  next
    case (Some d)
    then have vd: "v = PDict d" by (rule subtree_SomeD)
    obtain r s1 where ga: "getattr a k s = (r, s1)" by fastforce
    have s1: "wf_state s1" "heap_ext s s1"
      using wf_getattr_state [OF "2.prems"(1,2), of k] heap_ext_getattr [of s a k]
      by (simp_all add: ga)
    show ?thesis
    proof (cases r)
      case (Inl e)
      then show ?thesis using Some ga s1 by simp
    next
      case (Inr w)
      show ?thesis
      proof (cases "\<exists>b. w = PConfig b")
        case False
        then show ?thesis using Some ga Inr s1 by (cases w) auto
      next
        case True
        then obtain b where b: "w = PConfig b" by blast
        have blen: "b < length (objs s1)"
          using wf_getattr_value [OF "2.prems"(1,2)] ga Inr b by fastforce
        have dwf: "wf_dict (length (objs s1)) d"
          using v vd s1(2) heap_ext_wf_dict by simp
        obtain r2 s2 where ut: "update_tree b d s1 = (r2, s2)" by fastforce
        have s2: "wf_state s2" "heap_ext s1 s2"
          using "2.IH"(2) [OF Some ga [symmetric] Inr b] s1(1) blen dwf by (simp_all add: ut)
        show ?thesis
        proof (cases r2)
          case (Inl e)
          then show ?thesis using Some ga Inr b ut s1 s2 heap_ext_trans by auto
        next
          case Inr2: (Inr u)
          have ext: "heap_ext s s2" using s1(2) s2(2) by (rule heap_ext_trans)
          have "wf_state (snd (update_tree a kvs s2)) \<and> heap_ext s2 (snd (update_tree a kvs s2))"
            using "2.IH"(3) [OF Some ga [symmetric] Inr b ut [symmetric] Inr2] s2(1)
              heap_ext_length [OF ext "2.prems"(2)] heap_ext_wf_dict [OF ext kvs]
            by blast
          then show ?thesis using Some ga Inr b ut Inr2 ext heap_ext_trans by auto
        qed
      qed
    qed
  qed
qed
lemma update_tree_into_child:
  assumes "map_of (objs s ! a) k = Some (PConfig c)" "k \<notin> set data_descrs" "subtree w = Some d"
  shows "update_tree a ((k, w) # rest) s =
    (case update_tree c d s of (Inl e, s1) \<Rightarrow> (Inl e, s1) | (Inr _, s1) \<Rightarrow> update_tree a rest s1)"
proof -
  have "getattr a k s = (Inr (PConfig c), s)"
    using assms(2,1) by (rule getattr_existing)
  then show ?thesis
    using assms(3) by simp
qed

lemma map_of_stored: "map_of (stored d) k = map_option strip_marker (map_of d k)"
  by (induction d) (auto simp: stored_def)

lemma opaque_marker_present: "opaque d \<Longrightarrow> ''dict'' \<in> fst ` set d"
  by (force simp: opaque_def dget_def split: option.splits dest: map_of_SomeD)

lemma snd_update:
  "root s \<noteq> Some a \<Longrightarrow> snd (update a v s) =
     (case v of PDict d \<Rightarrow> snd (update_tree a d s) | PConfig b \<Rightarrow> snd (update_tree a (content s b) s) | _ \<Rightarrow> s)"
  by (cases v) (auto simp: update_def split: prod.split sum.split)

subsection \<open>Properties of the merge\<close>

definition two_level :: state where
  "two_level =
     \<lparr>objs = [[(''__path__'', PStr ''root''), (''common'', PConfig 1)],
              [(''__path__'', PStr ''root.common''), (''x'', PInt 1)]],
      prot = (\<lambda>_. {}), root = Some 0\<rparr>"

lemmas merge_eval = two_level_def leaves_def writable_def stored_def subtree_def opaque_def
  strip_marker_def data_descrs_def dget_def

text \<open>
  C6. Merging a dictionary of leaves (no unmarked sub-dict among its values) into
  a node whose keys are writable stores every value, with an opaque marker
  removed, over the node's previous entries: the node's dictionary afterwards is
  the old one overridden by the source. No other object and no protection changes.
\<close>

theorem merge_leaves:
  assumes "a < length (objs s)" "distinct (dkeys d)" "leaves d" "writable s a d"
  shows "\<exists>s'. update_tree a d s = (Inr (), s')
     \<and> map_of (objs s' ! a) = map_of (objs s ! a) ++ map_of (stored d)
     \<and> (\<forall>c. c \<noteq> a \<longrightarrow> objs s' ! c = objs s ! c) \<and> prot s' = prot s"
  using update_tree_flat_map_of [OF assms] by metis

theorem merge_leaves_witness:
  "\<exists>s'. update_tree 1 [(''y'', PInt 2), (''x'', PInt 5)] two_level = (Inr (), s')
     \<and> map_of (objs s' ! 1) = map_of (objs two_level ! 1) ++ map_of [(''y'', PInt 2), (''x'', PInt 5)]
     \<and> objs s' ! 0 = objs two_level ! 0 \<and> prot s' = prot two_level"
proof -
  have "\<exists>s'. update_tree 1 [(''y'', PInt 2), (''x'', PInt 5)] two_level = (Inr (), s')
     \<and> map_of (objs s' ! 1) = map_of (objs two_level ! 1) ++ map_of (stored [(''y'', PInt 2), (''x'', PInt 5)])
     \<and> (\<forall>c. c \<noteq> 1 \<longrightarrow> objs s' ! c = objs two_level ! c) \<and> prot s' = prot two_level"
    by (rule merge_leaves) (simp_all add: merge_eval)
  moreover have "stored [(''y'', PInt 2), (''x'', PInt 5)] = [(''y'', PInt 2), (''x'', PInt 5)]"
    by (simp add: stored_def strip_marker_def)
  ultimately show ?thesis
    by (metis zero_neq_one)
qed

text \<open>
  C7. Deep merge: a source value that is an unmarked dict is merged into the
  existing child node, not written over it, so the child's entries the source
  does not mention survive (merging \<open>{a: {y: 2}}\<close> after \<open>{a: {x: 1}}\<close> leaves
  both \<open>x\<close> and \<open>y\<close> under \<open>a\<close>); the parent's own dictionary is unchanged.
\<close>

theorem deep_merge_keeps_siblings:
  assumes "a < length (objs s)" "c < length (objs s)" "c \<noteq> a"
    "map_of (objs s ! a) k = Some (PConfig c)" "k \<notin> set data_descrs"
    "\<not> opaque d" "distinct (dkeys d)" "leaves d" "writable s c d"
  shows "\<exists>s'. update_tree a [(k, PDict d)] s = (Inr (), s')
     \<and> map_of (objs s' ! c) = map_of (objs s ! c) ++ map_of (stored d)
     \<and> objs s' ! a = objs s ! a"
proof -
  obtain s' where s': "update_tree c d s = (Inr (), s')"
    "map_of (objs s' ! c) = map_of (objs s ! c) ++ map_of (stored d)"
    "\<And>b. b \<noteq> c \<Longrightarrow> objs s' ! b = objs s ! b"
    using update_tree_flat_map_of [OF assms(2,7,8,9)] by metis
  have "subtree (PDict d) = Some d"
    using assms(6) by (simp add: subtree_def)
  then have "update_tree a [(k, PDict d)] s = (Inr (), s')"
    using update_tree_into_child [OF assms(4,5)] s'(1) by simp
  then show ?thesis
    using s'(2,3) assms(3) by metis
qed

theorem deep_merge_keeps_siblings_witness:
  "\<exists>s'. update_tree 0 [(''common'', PDict [(''y'', PInt 2)])] two_level = (Inr (), s')
     \<and> map_of (objs s' ! 1) = map_of (objs two_level ! 1) ++ map_of [(''y'', PInt 2)]
     \<and> objs s' ! 0 = objs two_level ! 0"
  using deep_merge_keeps_siblings [of 0 two_level 1 "''common''" "[(''y'', PInt 2)]"]
  by (simp add: merge_eval)

text \<open>
  C8. Merging an unmarked dict under a key that holds a leaf raises
  \<open>AttributeError\<close>: \<open>getattr\<close> returns the leaf, which has no \<open>__update__\<close>.
  The spec leaves this case open; the state is left as it was.
\<close>

theorem merge_dict_into_leaf_fails:
  assumes "map_of (objs s ! a) k = Some v" "k \<notin> set data_descrs" "\<forall>b. v \<noteq> PConfig b"
    "subtree w = Some d"
  shows "update_tree a ((k, w) # rest) s = (Inl (NoAttribute ''__update__''), s)"
proof -
  have "getattr a k s = (Inr v, s)"
    using assms(2,1) by (rule getattr_existing)
  then show ?thesis
    using assms(3,4) by (cases v) auto
qed

theorem merge_dict_into_leaf_fails_witness:
  "update_tree 1 [(''x'', PDict [(''z'', PInt 1)])] two_level
     = (Inl (NoAttribute ''__update__''), two_level)"
  using merge_dict_into_leaf_fails [of two_level 1 "''x''" "PInt 1" "PDict [(''z'', PInt 1)]"
      "[(''z'', PInt 1)]" "[]"]
  by (simp add: merge_eval)

text \<open>
  C9. A protected key aborts the merge at that key: the writes made for the keys
  before it are kept, the keys after it are not applied, and the exception is the
  protected-setting \<open>AttributeError\<close>.
\<close>

theorem protected_write_aborts_merge:
  assumes "update_tree a d1 s = (Inr (), s1)" "k \<in> prot s1 a" "subtree v = None"
  shows "update_tree a (d1 @ (k, v) # d2) s = (Inl (ProtectedSetting (path_of s1 a) k), s1)"
  using assms by (simp add: update_tree_append setattr_protected)

theorem protected_write_aborts_merge_witness:
  "update_tree 1 [(''y'', PInt 2), (''x'', PInt 9), (''z'', PInt 3)] (protect 1 [''x''] two_level)
     = (Inl (ProtectedSetting ''root.common'' ''x''),
        snd (update_tree 1 [(''y'', PInt 2)] (protect 1 [''x''] two_level)))"
proof -
  let ?s = "protect 1 [''x''] two_level"
  obtain s1 where s1: "update_tree 1 [(''y'', PInt 2)] ?s = (Inr (), s1)"
    "prot s1 = prot ?s" "\<And>c. c \<noteq> 1 \<Longrightarrow> objs s1 ! c = objs ?s ! c"
    "map_of (objs s1 ! 1) = map_of (objs ?s ! 1) ++ map_of [(''y'', PInt 2)]"
    using update_tree_flat_map_of [of 1 ?s "[(''y'', PInt 2)]"]
    by (auto simp: merge_eval frame_simps)
  have p: "path_of s1 1 = ''root.common''"
    using s1(4) by (simp add: path_of_def merge_eval frame_simps)
  have "update_tree 1 ([(''y'', PInt 2)] @ (''x'', PInt 9) # [(''z'', PInt 3)]) ?s
      = (Inl (ProtectedSetting (path_of s1 1) ''x''), s1)"
    using s1(1,2) by (intro protected_write_aborts_merge) (simp_all add: merge_eval frame_simps)
  then show ?thesis
    using s1(1) p by simp
qed

text \<open>
  C10. \<open>update\<close> on the global root always raises \<open>ValueError\<close>
  ("Root updates are disabled"), whatever the argument, and changes nothing.
\<close>

theorem update_root_rejected:
  "root s = Some a \<Longrightarrow> update a v s = (Inl RootUpdatesDisabled, s)"
  by (simp add: update_def)

theorem update_root_rejected_witness:
  "update 0 (PDict [(''x'', PInt 1)]) two_level = (Inl RootUpdatesDisabled, two_level)"
  using update_root_rejected [of two_level 0] by (simp add: two_level_def)

text \<open>
  C11. On any other node, \<open>update\<close> with an argument that is neither a dict nor a
  Config raises \<open>ValueError\<close> before anything is written.
\<close>

theorem update_rejects_non_container:
  assumes "root s \<noteq> Some a" "\<forall>d. v \<noteq> PDict d" "\<forall>b. v \<noteq> PConfig b"
  shows "update a v s = (Inl NotDictOrConfig, s)"
  using assms by (cases v) (simp_all add: update_def)

theorem update_rejects_non_container_witness:
  "update 1 (PInt 5) two_level = (Inl NotDictOrConfig, two_level)"
  using update_rejects_non_container [of two_level 1 "PInt 5"] by (simp add: two_level_def)

text \<open>
  C12. Updating a node from another Config merges that Config's shallow
  \<open>__content__\<close>: its Config-valued children are leaves of that dictionary and are
  stored by reference, so after the update both nodes share the same child objects
  (not a deep copy, and not a deep merge into the target's own children).
\<close>

theorem update_from_config_shares_children:
  assumes "root s \<noteq> Some a" "a < length (objs s)" "distinct (dkeys (content s b))"
    "leaves (content s b)" "writable s a (content s b)"
    "map_of (content s b) k = Some (PConfig c)"
  shows "\<exists>s'. update a (PConfig b) s = (Inr (PConfig a), s')
     \<and> map_of (objs s' ! a) k = Some (PConfig c)"
proof -
  obtain s' where s': "update_tree a (content s b) s = (Inr (), s')"
    "map_of (objs s' ! a) = map_of (objs s ! a) ++ map_of (stored (content s b))"
    using update_tree_flat_map_of [OF assms(2-5)] by metis
  have "map_of (stored (content s b)) k = Some (PConfig c)"
    using assms(6) by (simp add: map_of_stored strip_marker_def)
  then show ?thesis
    using s' assms(1) by (simp add: update_def)
qed

theorem update_from_config_shares_children_witness:
  "\<exists>s'. update 1 (PConfig 0) two_level = (Inr (PConfig 1), s')
     \<and> map_of (objs s' ! 1) ''common'' = Some (PConfig 1)"
  using update_from_config_shares_children [of two_level 1 0 "''common''" 1]
  by (simp add: merge_eval content_def)

text \<open>
  C13. A dict carrying a true \<open>"dict"\<close> marker is not merged into: it is written
  as a single leaf, replacing whatever the key held, with the marker key deleted.
\<close>

theorem opaque_dict_stored_as_leaf:
  assumes "a < length (objs s)" "opaque d" "k \<notin> prot s a" "k \<notin> set data_descrs"
  shows "\<exists>s'. update_tree a [(k, PDict d)] s = (Inr (), s')
     \<and> map_of (objs s' ! a) k = Some (PDict (ddel ''dict'' d))"
proof -
  have "leaves [(k, PDict d)]" "writable s a [(k, PDict d)]" "distinct (dkeys [(k, PDict d)])"
    using assms(2-4) by (simp_all add: leaves_def writable_def subtree_def)
  then obtain s' where "update_tree a [(k, PDict d)] s = (Inr (), s')"
    "map_of (objs s' ! a) = map_of (objs s ! a) ++ map_of (stored [(k, PDict d)])"
    using update_tree_flat_map_of [OF assms(1)] by metis
  then show ?thesis
    using opaque_marker_present [OF assms(2)] by (simp add: stored_def strip_marker_def)
qed

theorem opaque_dict_stored_as_leaf_witness:
  "\<exists>s'. update_tree 1 [(''ifaces'', PDict [(''dict'', PBool True), (''eth0'', PBool True)])] two_level
       = (Inr (), s')
     \<and> map_of (objs s' ! 1) ''ifaces'' = Some (PDict [(''eth0'', PBool True)])"
  using opaque_dict_stored_as_leaf [of 1 two_level "[(''dict'', PBool True), (''eth0'', PBool True)]"
      "''ifaces''"]
  by (simp add: merge_eval ddel_def)

text \<open>
  C14. A \<open>"dict"\<close> marker that is present but false does not make the dict opaque:
  the dict is merged into the child node, and the marker itself becomes a setting
  named \<open>dict\<close> of that node.
\<close>

theorem false_marker_becomes_child:
  assumes "c < length (objs s)" "map_of (objs s ! a) k = Some (PConfig c)" "k \<notin> set data_descrs"
    "\<not> truthy m" "subtree m = None" "''dict'' \<notin> prot s c"
  shows "\<exists>s'. update_tree a [(k, PDict [(''dict'', m)])] s = (Inr (), s')
     \<and> map_of (objs s' ! c) ''dict'' = Some (strip_marker m)"
proof -
  have sub: "subtree (PDict [(''dict'', m)]) = Some [(''dict'', m)]"
    using assms(4) by (simp add: subtree_def opaque_def)
  have "leaves [(''dict'', m)]" "writable s c [(''dict'', m)]" "distinct (dkeys [(''dict'', m)])"
    using assms(5,6) by (simp_all add: leaves_def writable_def data_descrs_def)
  then obtain s' where s': "update_tree c [(''dict'', m)] s = (Inr (), s')"
    "map_of (objs s' ! c) = map_of (objs s ! c) ++ map_of (stored [(''dict'', m)])"
    using update_tree_flat_map_of [OF assms(1)] by metis
  then show ?thesis
    using update_tree_into_child [OF assms(2,3) sub] by (simp add: stored_def)
qed

theorem false_marker_becomes_child_witness:
  "\<exists>s'. update_tree 0 [(''common'', PDict [(''dict'', PBool False)])] two_level = (Inr (), s')
     \<and> map_of (objs s' ! 1) ''dict'' = Some (PBool False)"
  using false_marker_becomes_child [of 1 two_level 0 "''common''" "PBool False"]
  by (simp add: merge_eval)

text \<open>
  C15. The heap invariant survives \<open>update\<close>: merging a well-formed dict or Config
  into an allocated node of a well-formed heap, successful or not, leaves a
  well-formed heap that extends the old one.
\<close>

theorem update_preserves_wf:
  assumes "wf_state s" "a < length (objs s)" "wf_val (length (objs s)) v"
  shows "wf_state (snd (update a v s)) \<and> heap_ext s (snd (update a v s))"
proof (cases "root s = Some a")
  case True
  then show ?thesis using assms(1) by (simp add: update_def)
next
  case False
  have src: "wf_dict (length (objs s)) d" if "v = PDict d" for d
    using assms(3) that by simp
  have cont: "wf_dict (length (objs s)) (content s b)" if "v = PConfig b" for b
    using assms(3) that wf_state_objs [OF assms(1), of b] wf_dict_filter by (simp add: content_def)
  show ?thesis
    using assms(1,2) src cont wf_update_tree by (cases v) (simp_all add: snd_update [OF False])
qed

theorem update_preserves_wf_witness:
  "wf_state (snd (update 1 (PDict [(''x'', PInt 2)]) two_level))
   \<and> heap_ext two_level (snd (update 1 (PDict [(''x'', PInt 2)]) two_level))"
proof -
  have "wf_state two_level"
    by (simp add: two_level_def wf_state_def wf_dict_def wf_val_def)
  moreover have "wf_val (length (objs two_level)) (PDict [(''x'', PInt 2)])"
    by (simp add: two_level_def wf_dict_def wf_val_def)
  ultimately show ?thesis
    using update_preserves_wf [of two_level 1] by (simp add: two_level_def)
qed

text \<open>
  C40. Allocation bound of a merge: \<open>__update__\<close> never frees a node and creates
  at most one node per sub-dictionary of the source (the child read through
  \<open>__getattr__\<close> when it is missing), whether it succeeds or stops on an error.
\<close>

theorem update_tree_alloc_bound:
  "update_tree a t s = (r, s') \<Longrightarrow>
     length (objs s) \<le> length (objs s') \<and> length (objs s') \<le> length (objs s) + subtree_count t"
proof (induction a t s arbitrary: r s' rule: update_tree.induct)
  case (1 a s)
  then show ?case by simp
next
  case (2 a k v kvs s)
  show ?case
  proof (cases "subtree v")
    case None
    obtain r1 s1 where st: "setattr a k (strip_marker v) s = (r1, s1)"
      by fastforce
    have l: "length (objs s1) = length (objs s)"
      using setattr_length_eq st by blast
    show ?thesis
    proof (cases r1)
      case (Inl e)
      then show ?thesis using "2.prems" None st l by simp
    next
      case (Inr u)
      then have "update_tree a kvs s1 = (r, s')"
        using "2.prems" None st by simp
      then show ?thesis
        using "2.IH"(1) [OF None st [symmetric] Inr] l None by simp
    qed
  next
    case (Some d)
    obtain r1 s1 where g: "getattr a k s = (r1, s1)"
      by fastforce
    have l1: "length (objs s) \<le> length (objs s1)" "length (objs s1) \<le> Suc (length (objs s))"
      using getattr_length [OF g] by simp_all
    show ?thesis
    proof (cases "\<exists>b. r1 = Inr (PConfig b)")
      case True
      then obtain b where b: "r1 = Inr (PConfig b)" by blast
      obtain r2 s2 where u: "update_tree b d s1 = (r2, s2)"
        by fastforce
      have l2: "length (objs s1) \<le> length (objs s2)" "length (objs s2) \<le> length (objs s1) + subtree_count d"
        using "2.IH"(2) [OF Some g [symmetric] b refl] u by simp_all
      show ?thesis
      proof (cases r2)
        case (Inl e)
        then show ?thesis using "2.prems" Some g b u l1 l2 by simp
      next
        case (Inr u2)
        then have "update_tree a kvs s2 = (r, s')"
          using "2.prems" Some g b u by simp
        then have "length (objs s2) \<le> length (objs s') \<and> length (objs s') \<le> length (objs s2) + subtree_count kvs"
          using "2.IH"(3) [OF Some g [symmetric] b refl u [symmetric] Inr] by blast
        then show ?thesis
          using l1 l2 Some by simp
      qed
    next
      case False
      then have "s' = s1"
        using "2.prems" Some g by (auto split: sum.splits pyval.splits)
      then show ?thesis
        using l1 Some by simp
    qed
  qed
qed

theorem update_tree_alloc_bound_witness:
  "length (objs two_level)
     \<le> length (objs (snd (update_tree 0 [(''common'', PDict [(''web'', PDict [(''port'', PInt 80)])])] two_level)))
   \<and> length (objs (snd (update_tree 0 [(''common'', PDict [(''web'', PDict [(''port'', PInt 80)])])] two_level)))
     \<le> length (objs two_level) + subtree_count [(''common'', PDict [(''web'', PDict [(''port'', PInt 80)])])]"
  using update_tree_alloc_bound [of 0 "[(''common'', PDict [(''web'', PDict [(''port'', PInt 80)])])]" two_level
      "fst (update_tree 0 [(''common'', PDict [(''web'', PDict [(''port'', PInt 80)])])] two_level)"
      "snd (update_tree 0 [(''common'', PDict [(''web'', PDict [(''port'', PInt 80)])])] two_level)"]
  by simp

end
