(* ===== verification/MergeRefine.thy ===== *)
theory MergeRefine
  imports Merge
begin

text \<open>
  What \<open>Config.update\<close> promises, as a specification on trees, and the proof that
  the heap model of \<open>Config.__update__\<close> (theory \<open>Merge\<close>) implements it. The
  abstract configuration is a tree (\<open>ctree\<close>): a node is the dictionary of its
  settings, a child node is \<open>Node\<close>, any other value a \<open>Leaf\<close>. \<open>tmerge\<close> merges a
  source dictionary into such a tree the way the docstring of \<open>update\<close> reads:
  a nested unmarked dict is merged into the child of the same name (an empty one
  when there is none, and an error when the name holds a leaf), every other value
  replaces the setting. The abstraction \<open>tree_abs n s a\<close> reads node \<open>a\<close> of heap
  \<open>s\<close> as a tree of depth at most \<open>n\<close> (its \<open>__content__\<close>, each \<open>Config\<close> value
  read recursively), together with the list of the heap nodes it visited. The
  heap is tree-shaped at \<open>a\<close> when that list has no repetition (\<open>nodes_ok\<close>, which
  also asks each node to carry its \<open>__path__\<close>): no node is shared between two
  places of the tree and none holds an ancestor. \<open>sim_post\<close> is the simulation:
  the merge fails exactly when \<open>tmerge\<close> does, and otherwise the merged heap reads
  as the merged tree, is still tree-shaped, and no node outside the tree changed.
\<close>

datatype ctree = Leaf pyval | Node "ctree dict"

text \<open>The abstract tree and the specification of the merge.\<close>

definition child_of :: "ctree dict \<Rightarrow> string \<Rightarrow> ctree dict option" where
  "child_of t k = (case map_of t k of None \<Rightarrow> Some [] | Some (Node c) \<Rightarrow> Some c | Some (Leaf _) \<Rightarrow> None)"

function tmerge :: "ctree dict \<Rightarrow> pyval dict \<Rightarrow> ctree dict option" where
  "tmerge t [] = Some t"
| "tmerge t ((k, v) # kvs) =
     (case subtree v of
        Some d \<Rightarrow>
          (case child_of t k of
             None \<Rightarrow> None
           | Some c \<Rightarrow>
               (case tmerge c d of
                  None \<Rightarrow> None
                | Some c' \<Rightarrow> tmerge (dset k (Node c') t) kvs))
      | None \<Rightarrow> tmerge (dset k (Leaf (strip_marker v)) t) kvs)"
  by pat_completeness auto
termination
  by (relation "measure (\<lambda>(t, d). size (PDict d))") (auto dest: subtree_SomeD)

text \<open>The abstraction: one entry of a node's content, the content, and a node read to
  depth \<open>n\<close>, each with the heap nodes it visits.\<close>

definition ent :: "(addr \<Rightarrow> (ctree dict \<times> addr list) option) \<Rightarrow> string \<times> pyval \<Rightarrow>
    ((string \<times> ctree) \<times> addr list) option" where
  "ent f kv =
     (case snd kv of
        PConfig b \<Rightarrow> map_option (\<lambda>(t, ns). ((fst kv, Node t), ns)) (f b)
      | v \<Rightarrow> Some ((fst kv, Leaf v), []))"

fun ents :: "(addr \<Rightarrow> (ctree dict \<times> addr list) option) \<Rightarrow> pyval dict \<Rightarrow>
    (ctree dict \<times> addr list) option" where
  "ents f [] = Some ([], [])"
| "ents f (kv # d) =
     (case ent f kv of
        None \<Rightarrow> None
      | Some (e, ns) \<Rightarrow> (case ents f d of None \<Rightarrow> None | Some (ts, ms) \<Rightarrow> Some (e # ts, ns @ ms)))"

primrec tree_abs :: "nat \<Rightarrow> state \<Rightarrow> addr \<Rightarrow> (ctree dict \<times> addr list) option" where
  "tree_abs 0 s a = None"
| "tree_abs (Suc n) s a =
     (case ents (tree_abs n s) (content s a) of None \<Rightarrow> None | Some (t, ms) \<Rightarrow> Some (t, a # ms))"

definition old_nodes :: "(addr \<Rightarrow> (ctree dict \<times> addr list) option) \<Rightarrow> pyval dict \<Rightarrow> string \<Rightarrow> addr list" where
  "old_nodes f d k =
     (case map_of d k of
        None \<Rightarrow> []
      | Some v \<Rightarrow> (case ent f (k, v) of None \<Rightarrow> [] | Some (_, ns) \<Rightarrow> ns))"

text \<open>A merge source whose nested dicts have ordinary attribute names (\<open>ordinary_name\<close>:
  not \<open>__path__\<close>, a class attribute or a name \<open>__getattr__\<close> answers itself).\<close>

function src_names :: "pyval dict \<Rightarrow> bool" where
  "src_names [] = True"
| "src_names ((k, v) # kvs) =
     (ordinary_name k \<and> (case subtree v of Some d \<Rightarrow> src_names d | None \<Rightarrow> True) \<and> src_names kvs)"
  by pat_completeness auto
termination
  by (relation "measure (\<lambda>t. size (PDict t))") (auto dest: subtree_SomeD)

text \<open>Tree shape at a node, and the simulation relation of one merge.\<close>

definition nodes_ok :: "state \<Rightarrow> addr list \<Rightarrow> bool" where
  "nodes_ok s ns = (distinct ns \<and>
     list_all (\<lambda>c. c < length (objs s) \<and> map_of (objs s ! c) ''__path__'' \<noteq> None) ns)"

definition sim_post :: "state \<Rightarrow> addr list \<Rightarrow> addr \<Rightarrow> ctree dict option \<Rightarrow> error + unit \<Rightarrow> state \<Rightarrow> bool" where
  "sim_post s ns a mt r s' \<longleftrightarrow>
     length (objs s) \<le> length (objs s') \<and> prot s' = prot s \<and>
     (\<forall>c<length (objs s). c \<notin> set ns \<longrightarrow> objs s' ! c = objs s ! c) \<and>
     (case mt of
        None \<Rightarrow> isl r
      | Some t' \<Rightarrow> r = Inr () \<and>
          (\<exists>n' ns'. tree_abs n' s' a = Some (t', ns') \<and> nodes_ok s' ns' \<and>
             (\<forall>c\<in>set ns'. c \<in> set ns \<or> length (objs s) \<le> c)))"

subsection \<open>The abstraction, entry by entry\<close>

lemma ent_Some:
  "ent f (k, v) = Some (e, ns) \<Longrightarrow> fst e = k"
  by (auto simp: ent_def split: pyval.splits)

lemma ents_Cons_Some:
  "ents f (kv # d) = Some (ts, ms) \<longleftrightarrow>
     (\<exists>e ns ts' ms'. ent f kv = Some (e, ns) \<and> ents f d = Some (ts', ms') \<and> ts = e # ts' \<and> ms = ns @ ms')"
  by (auto split: option.splits)

lemma ents_cong:
  assumes "ents f d = Some (ts, ms)"
    "\<forall>b t ns. f b = Some (t, ns) \<longrightarrow> set ns \<subseteq> set ms \<longrightarrow> g b = Some (t, ns)"
  shows "ents g d = Some (ts, ms)"
  using assms
proof (induction d arbitrary: ts ms)
  case Nil
  then show ?case by simp
next
  case (Cons kv d)
  obtain e ns ts' ms' where h: "ent f kv = Some (e, ns)" "ents f d = Some (ts', ms')"
    "ts = e # ts'" "ms = ns @ ms'"
    using Cons.prems(1) ents_Cons_Some [of f kv d] by blast
  have "ent g kv = Some (e, ns)"
    using h(1,4) Cons.prems(2) by (auto simp: ent_def split: pyval.splits)
  moreover have "\<forall>b t nsa. f b = Some (t, nsa) \<longrightarrow> set nsa \<subseteq> set ms' \<longrightarrow> g b = Some (t, nsa)"
    using Cons.prems(2) h(4) by auto
  then have "ents g d = Some (ts', ms')"
    by (rule Cons.IH [OF h(2)])
  ultimately show ?case using h(3,4) by simp
qed

lemma ents_keys: "ents f d = Some (ts, ms) \<Longrightarrow> dkeys ts = dkeys d"
proof (induction d arbitrary: ts ms)
  case Nil
  then show ?case by simp
next
  case (Cons kv d)
  obtain e ns ts' ms' where h: "ent f kv = Some (e, ns)" "ents f d = Some (ts', ms')"
    "ts = e # ts'" "ms = ns @ ms'"
    using Cons.prems(1) ents_Cons_Some [of f kv d] by blast
  have "fst e = fst kv"
    using h(1) ent_Some [of f "fst kv" "snd kv" e ns] by simp
  then show ?case
    using Cons.IH [OF h(2)] h(3) by simp
qed

lemma ents_lookup:
  assumes "ents f d = Some (ts, ms)" "map_of d k = Some v"
  shows "\<exists>e ns xs ys. ent f (k, v) = Some ((k, e), ns) \<and> map_of ts k = Some e \<and> ms = xs @ ns @ ys"
  using assms
proof (induction d arbitrary: ts ms)
  case Nil
  then show ?case by simp
next
  case (Cons kv d)
  obtain e ns ts' ms' where h: "ent f kv = Some (e, ns)" "ents f d = Some (ts', ms')"
    "ts = e # ts'" "ms = ns @ ms'"
    using Cons.prems(1) ents_Cons_Some [of f kv d] by blast
  show ?case
  proof (cases "fst kv = k")
    case True
    then show ?thesis
      using h Cons.prems(2) ent_Some [of f k "snd kv" e ns] by (cases kv; cases e) fastforce
  next
    case False
    then obtain e0 ns0 xs ys where "ent f (k, v) = Some ((k, e0), ns0)" "map_of ts' k = Some e0"
        "ms' = xs @ ns0 @ ys"
      using Cons.prems(2) Cons.IH [OF h(2)] by (cases kv) auto
    moreover have "fst e \<noteq> k"
      using False h(1) ent_Some [of f "fst kv" "snd kv" e ns] by simp
    ultimately show ?thesis
      using h(3,4) by (intro exI [of _ e0] exI [of _ ns0] exI [of _ "ns @ xs"] exI [of _ ys]) (cases e; simp)
  qed
qed

lemma old_nodes_Cons:
  "old_nodes f ((k', v') # d) k = (if k' = k then (case ent f (k, v') of None \<Rightarrow> [] | Some (_, ns) \<Rightarrow> ns)
     else old_nodes f d k)"
  by (simp add: old_nodes_def)

lemma old_nodes_subset:
  assumes "ents f d = Some (ts, ms)"
  shows "set (old_nodes f d k) \<subseteq> set ms"
proof (cases "map_of d k")
  case None
  then show ?thesis by (simp add: old_nodes_def)
next
  case (Some v)
  then obtain e ns xs ys where "ent f (k, v) = Some ((k, e), ns)" "ms = xs @ ns @ ys"
    using ents_lookup [OF assms] by blast
  then show ?thesis using Some by (auto simp: old_nodes_def)
qed

lemma ents_dset:
  assumes "ents f d = Some (ts, ms)" "distinct ms"
    "ent g (k, v) = Some ((k, e), nsv)" "distinct nsv"
    "set nsv \<inter> (set ms - set (old_nodes f d k)) = {}"
    "\<forall>b t ns. f b = Some (t, ns) \<longrightarrow> set ns \<subseteq> set ms - set (old_nodes f d k) \<longrightarrow> g b = Some (t, ns)"
  shows "\<exists>ms'. ents g (dset k v d) = Some (dset k e ts, ms') \<and> distinct ms' \<and>
           set ms' = (set ms - set (old_nodes f d k)) \<union> set nsv"
  using assms
proof (induction d arbitrary: ts ms)
  case Nil
  then show ?case by (simp add: old_nodes_def)
next
  case (Cons kv d)
  obtain k' v' where kv: "kv = (k', v')" by fastforce
  obtain e' ns ts' ms' where h: "ent f (k', v') = Some (e', ns)" "ents f d = Some (ts', ms')"
    "ts = e' # ts'" "ms = ns @ ms'"
    using Cons.prems(1) ents_Cons_Some [of f kv d] kv by blast
  obtain c' where e': "e' = (k', c')"
    using ent_Some [OF h(1)] by (cases e') auto
  show ?case
  proof (cases "k' = k")
    case True
    have X: "old_nodes f (kv # d) k = ns"
      using True h(1) kv by (simp add: old_nodes_Cons)
    have "set ms' \<subseteq> set ms - set ns"
      using Cons.prems(2) h(4) by auto
    then have "ents g d = Some (ts', ms')"
      using ents_cong [OF h(2), of g] Cons.prems(6) X by blast
    then show ?thesis
      using True kv h e' X Cons.prems(2-5) by auto
  next
    case False
    have X: "old_nodes f (kv # d) k = old_nodes f d k"
      using False kv by (simp add: old_nodes_Cons)
    have sub: "set (old_nodes f d k) \<subseteq> set ms'"
      by (rule old_nodes_subset [OF h(2)])
    have "set ns \<subseteq> set ms - set (old_nodes f (kv # d) k)"
      using h(4) Cons.prems(2) X sub by auto
    then have "ent g (k', v') = Some (e', ns)"
      using h(1) Cons.prems(6) by (cases v') (auto simp: ent_def)
    moreover obtain ms'' where ih: "ents g (dset k v d) = Some (dset k e ts', ms'')" "distinct ms''"
        "set ms'' = (set ms' - set (old_nodes f d k)) \<union> set nsv"
    proof -
      have "distinct ms'" using Cons.prems(2) h(4) by simp
      moreover have "set nsv \<inter> (set ms' - set (old_nodes f d k)) = {}"
        using Cons.prems(5) X h(4) by auto
      moreover have "\<forall>b t nsb. f b = Some (t, nsb) \<longrightarrow> set nsb \<subseteq> set ms' - set (old_nodes f d k) \<longrightarrow>
          g b = Some (t, nsb)"
        using Cons.prems(6) X h(4) by auto
      ultimately show ?thesis
        using Cons.IH [OF h(2) _ Cons.prems(3,4)] that by blast
    qed
    moreover have "set ns \<inter> set nsv = {}"
      using Cons.prems(2,5) X h(4) sub by auto
    ultimately show ?thesis
      using False kv h e' X Cons.prems(2) sub by auto
  qed
qed

lemma tree_abs_transfer:
  assumes "tree_abs n s a = Some (t, ns)" "n \<le> m" "\<forall>c\<in>set ns. objs s' ! c = objs s ! c"
  shows "tree_abs m s' a = Some (t, ns)"
  using assms
proof (induction n arbitrary: m a t ns)
  case 0
  then show ?case by simp
next
  case (Suc n)
  obtain m' where m: "m = Suc m'" "n \<le> m'"
    using Suc.prems(2) by (cases m) auto
  obtain ms where e: "ents (tree_abs n s) (content s a) = Some (t, ms)" "ns = a # ms"
    using Suc.prems(1) by (auto split: option.splits)
  have "content s' a = content s a"
    using Suc.prems(3) e(2) by (simp add: content_def)
  moreover have "\<forall>b t' nsb. tree_abs n s b = Some (t', nsb) \<longrightarrow> set nsb \<subseteq> set ms \<longrightarrow>
      tree_abs m' s' b = Some (t', nsb)"
  proof (intro allI impI)
    fix b t' nsb
    assume b: "tree_abs n s b = Some (t', nsb)" "set nsb \<subseteq> set ms"
    then have "\<forall>c\<in>set nsb. objs s' ! c = objs s ! c"
      using Suc.prems(3) e(2) by auto
    then show "tree_abs m' s' b = Some (t', nsb)"
      by (rule Suc.IH [OF b(1) m(2)])
  qed
  then have "ents (tree_abs m' s') (content s a) = Some (t, ms)"
    by (rule ents_cong [OF e(1)])
  ultimately show ?case
    using m(1) e(2) by simp
qed

lemma content_dset:
  "k \<noteq> ''__path__'' \<Longrightarrow> a < length (objs s) \<Longrightarrow>
   content (s\<lparr>objs := (objs s)[a := dset k v (objs s ! a)]\<rparr>) a = dset k v (content s a)"
  by (simp add: content_def filter_dset)

lemma ent_transfer:
  assumes "ent (tree_abs n s) kv = Some (e, ns)" "n \<le> m" "\<forall>c\<in>set ns. objs s' ! c = objs s ! c"
  shows "ent (tree_abs m s') kv = Some (e, ns)"
  using assms tree_abs_transfer [of n s _ _ ns m s'] by (auto simp: ent_def split: pyval.splits)

lemma tree_abs_replace:
  assumes "ents (tree_abs n s) (content s a) = Some (t, ms)" "distinct (a # ms)"
    "content s2 a = dset k v (content s a)"
    "ent (tree_abs n2 s2) (k, v) = Some ((k, e), nsv)" "distinct nsv" "a \<notin> set nsv"
    "set nsv \<inter> (set ms - set (old_nodes (tree_abs n s) (content s a) k)) = {}"
    "\<forall>c\<in>set ms - set (old_nodes (tree_abs n s) (content s a) k). objs s2 ! c = objs s ! c"
  shows "\<exists>ms'. tree_abs (Suc (max n n2)) s2 a = Some (dset k e t, a # ms') \<and> distinct (a # ms') \<and>
           set ms' = (set ms - set (old_nodes (tree_abs n s) (content s a) k)) \<union> set nsv"
proof -
  let ?X = "set (old_nodes (tree_abs n s) (content s a) k)"
  have g: "ent (tree_abs (max n n2) s2) (k, v) = Some ((k, e), nsv)"
    by (rule ent_transfer [OF assms(4)]) simp_all
  have agree: "\<forall>b t' nsb. tree_abs n s b = Some (t', nsb) \<longrightarrow> set nsb \<subseteq> set ms - ?X \<longrightarrow>
      tree_abs (max n n2) s2 b = Some (t', nsb)"
  proof (intro allI impI)
    fix b t' nsb
    assume "tree_abs n s b = Some (t', nsb)" "set nsb \<subseteq> set ms - ?X"
    then show "tree_abs (max n n2) s2 b = Some (t', nsb)"
      using assms(8) tree_abs_transfer [of n s b t' nsb "max n n2" s2] by auto
  qed
  obtain ms' where ms': "ents (tree_abs (max n n2) s2) (dset k v (content s a)) = Some (dset k e t, ms')"
      "distinct ms'" "set ms' = (set ms - ?X) \<union> set nsv"
    using ents_dset [OF assms(1) _ g assms(5,7) agree] assms(2) by auto
  moreover have "a \<notin> set ms'"
    using ms'(3) assms(2,6) by auto
  ultimately show ?thesis
    using assms(3) by simp
qed

lemma tree_abs_SomeE:
  assumes "tree_abs n s a = Some (t, ns)"
  obtains n0 ms where "n = Suc n0" "ns = a # ms" "ents (tree_abs n0 s) (content s a) = Some (t, ms)"
  using assms by (cases n) (auto split: option.splits)

lemma reassemble:
  assumes "tree_abs n s a = Some (t, ns)" "nodes_ok s ns"
    "content s2 a = dset k v (content s a)"
    "map_of (objs s2 ! a) ''__path__'' = map_of (objs s ! a) ''__path__''"
    "ent (tree_abs n2 s2) (k, v) = Some ((k, e), nsv)" "nodes_ok s2 nsv"
    "\<forall>c\<in>set nsv. c \<in> set (old_nodes (tree_abs (n - 1) s) (content s a) k) \<or> length (objs s) \<le> c"
    "\<forall>c\<in>set ns. c \<notin> set (old_nodes (tree_abs (n - 1) s) (content s a) k) \<longrightarrow> c \<noteq> a \<longrightarrow>
       objs s2 ! c = objs s ! c"
    "length (objs s) \<le> length (objs s2)"
  shows "\<exists>n' ns'. tree_abs n' s2 a = Some (dset k e t, ns') \<and> nodes_ok s2 ns' \<and>
           (\<forall>c\<in>set ns'. c \<in> set ns \<or> length (objs s) \<le> c)"
proof -
  obtain n0 ms where n: "n = Suc n0" "ns = a # ms" and e: "ents (tree_abs n0 s) (content s a) = Some (t, ms)"
    using assms(1) by (rule tree_abs_SomeE)
  let ?X = "set (old_nodes (tree_abs n0 s) (content s a) k)"
  have X: "?X \<subseteq> set ms"
    by (rule old_nodes_subset [OF e])
  have ok: "distinct (a # ms)" "\<forall>c\<in>set (a # ms). c < length (objs s) \<and> map_of (objs s ! c) ''__path__'' \<noteq> None"
    using assms(2) n(2) by (simp_all add: nodes_ok_def list_all_iff)
  have nsv: "distinct nsv" "\<forall>c\<in>set nsv. c < length (objs s2) \<and> map_of (objs s2 ! c) ''__path__'' \<noteq> None"
    using assms(6) by (simp_all add: nodes_ok_def list_all_iff)
  have new: "\<forall>c\<in>set nsv. c \<in> ?X \<or> length (objs s) \<le> c"
    using assms(7) n(1) by simp
  have "a \<notin> set nsv" "set nsv \<inter> (set ms - ?X) = {}"
    using new X ok by fastforce+
  moreover have frame: "\<forall>c\<in>set ms - ?X. objs s2 ! c = objs s ! c"
    using assms(8) n ok(1) by auto
  ultimately obtain ms' where ms': "tree_abs (Suc (max n0 n2)) s2 a = Some (dset k e t, a # ms')"
      "distinct (a # ms')" "set ms' = (set ms - ?X) \<union> set nsv"
    using tree_abs_replace [OF e ok(1) assms(3,5) nsv(1)] by blast
  have "\<forall>c\<in>set (a # ms'). c < length (objs s2) \<and> map_of (objs s2 ! c) ''__path__'' \<noteq> None"
    using ms'(3) nsv(2) ok(2) frame assms(4,9) by fastforce
  then have "nodes_ok s2 (a # ms')"
    using ms'(2) by (simp add: nodes_ok_def list_all_iff)
  moreover have "\<forall>c\<in>set (a # ms'). c \<in> set ns \<or> length (objs s) \<le> c"
    using ms'(3) new n(2) X by auto
  ultimately show ?thesis
    using ms'(1) by blast
qed

lemma sim_post_seq:
  assumes "sim_post s ns a (Some t2) (Inr ()) s2"
    "\<And>n2 ns2. tree_abs n2 s2 a = Some (t2, ns2) \<Longrightarrow> nodes_ok s2 ns2 \<Longrightarrow> sim_post s2 ns2 a mt r s'"
  shows "sim_post s ns a mt r s'"
proof -
  obtain n2 ns2 where t2: "tree_abs n2 s2 a = Some (t2, ns2)" "nodes_ok s2 ns2"
      "\<forall>c\<in>set ns2. c \<in> set ns \<or> length (objs s) \<le> c"
    using assms(1) by (auto simp: sim_post_def)
  have step: "length (objs s) \<le> length (objs s2)" "prot s2 = prot s"
      "\<forall>c<length (objs s). c \<notin> set ns \<longrightarrow> objs s2 ! c = objs s ! c"
    using assms(1) by (simp_all add: sim_post_def)
  have rest: "sim_post s2 ns2 a mt r s'"
    by (rule assms(2) [OF t2(1,2)])
  have "\<forall>c<length (objs s). c \<notin> set ns \<longrightarrow> c \<notin> set ns2"
    using t2(3) by force
  then show ?thesis
    using rest step t2(3) by (fastforce simp: sim_post_def split: option.splits)
qed

lemma sim_post_abort:
  "sim_post s1 ns1 b None r s' \<Longrightarrow> length (objs s) \<le> length (objs s1) \<Longrightarrow> prot s1 = prot s \<Longrightarrow>
   \<forall>c<length (objs s). c \<notin> set ns \<longrightarrow> c \<notin> set ns1 \<and> objs s1 ! c = objs s ! c \<Longrightarrow>
   sim_post s ns a None r s'"
  by (auto simp: sim_post_def)

lemma nodes_ok_head: "nodes_ok s (a # ms) \<Longrightarrow> a < length (objs s) \<and> a \<notin> set ms"
  by (simp add: nodes_ok_def)

lemma leaf_step:
  assumes "prot s = (\<lambda>_. {})" "ordinary_name k" "\<forall>b. w \<noteq> PConfig b"
    "tree_abs n s a = Some (t, ns)" "nodes_ok s ns"
  shows "\<exists>s1. setattr a k w s = (Inr (), s1) \<and> sim_post s ns a (Some (dset k (Leaf w) t)) (Inr ()) s1"
proof -
  obtain n0 ms where n: "n = Suc n0" "ns = a # ms"
    using assms(4) by (rule tree_abs_SomeE)
  have a: "a < length (objs s)"
    using assms(5) n(2) nodes_ok_head by blast
  have k: "k \<noteq> ''__path__''" "k \<notin> set data_descrs"
    using assms(2) by (simp_all add: ordinary_name_def)
  define s1 where "s1 = s\<lparr>objs := (objs s)[a := dset k w (objs s ! a)]\<rparr>"
  have set: "setattr a k w s = (Inr (), s1)"
    unfolding s1_def using assms(1) k(2) by (simp add: setattr_ordinary)
  have "ent (tree_abs n s1) (k, w) = Some ((k, Leaf w), [])"
    using assms(3) by (cases w) (simp_all add: ent_def)
  moreover have "nodes_ok s1 []"
    by (simp add: nodes_ok_def)
  ultimately obtain n' ns' where "tree_abs n' s1 a = Some (dset k (Leaf w) t, ns')" "nodes_ok s1 ns'"
      "\<forall>c\<in>set ns'. c \<in> set ns \<or> length (objs s) \<le> c"
    using reassemble [OF assms(4,5), of s1 k w n] a k(1)
    by (fastforce simp: s1_def content_dset)
  then show ?thesis
    using set a n(2) by (auto simp: sim_post_def s1_def)
qed

lemma new_child_step:
  assumes "prot s = (\<lambda>_. {})" "ordinary_name k" "a < length (objs s)"
    "map_of (objs s ! a) ''__path__'' \<noteq> None" "map_of (objs s ! a) k = None"
  shows "\<exists>s1. getattr a k s = (Inr (PConfig (length (objs s))), s1) \<and>
     length (objs s1) = Suc (length (objs s)) \<and> prot s1 = prot s \<and>
     (\<forall>c<length (objs s). c \<noteq> a \<longrightarrow> objs s1 ! c = objs s ! c) \<and>
     content s1 a = dset k (PConfig (length (objs s))) (content s a) \<and>
     map_of (objs s1 ! a) ''__path__'' = map_of (objs s ! a) ''__path__'' \<and>
     tree_abs 1 s1 (length (objs s)) = Some ([], [length (objs s)]) \<and> nodes_ok s1 [length (objs s)]"
proof -
  have k: "k \<noteq> ''__path__''" "k \<notin> set data_descrs" "k \<notin> set class_attrs"
    using assms(2) by (simp_all add: ordinary_name_def)
  have "getattr a k s = getattr_hook a k s"
    by (rule getattr_to_hook [OF k(2) assms(5) k(3)])
  also have "\<dots> = (Inr (PConfig (length (objs s))),
     s\<lparr>objs := (objs s @ [[(''__path__'', PStr (path_of s a @ ''.'' @ k))]])
              [a := dset k (PConfig (length (objs s))) (objs s ! a)]\<rparr>)"
    using assms by (simp add: getattr_hook_new)
  finally show ?thesis
    using assms(3) k(1)
    by (auto simp: nth_append content_def filter_dset nodes_ok_def)
qed

lemma child_merge_step:
  assumes "tree_abs n s a = Some (t, ns)" "nodes_ok s ns"
    "content s1 a = dset k (PConfig b) (content s a)"
    "map_of (objs s1 ! a) ''__path__'' = map_of (objs s ! a) ''__path__''"
    "length (objs s) \<le> length (objs s1)" "prot s1 = prot s"
    "\<forall>c<length (objs s). c \<noteq> a \<longrightarrow> objs s1 ! c = objs s ! c"
    "\<forall>c\<in>set nsb. c \<in> set (old_nodes (tree_abs (n - 1) s) (content s a) k) \<or> length (objs s) \<le> c"
    "sim_post s1 nsb b mt r2 s2"
  shows "sim_post s ns a (map_option (\<lambda>tb'. dset k (Node tb') t) mt) r2 s2"
proof -
  obtain n0 ms where n: "n = Suc n0" "ns = a # ms" and e: "ents (tree_abs n0 s) (content s a) = Some (t, ms)"
    using assms(1) by (rule tree_abs_SomeE)
  let ?X = "set (old_nodes (tree_abs n0 s) (content s a) k)"
  have X: "?X \<subseteq> set ms"
    by (rule old_nodes_subset [OF e])
  have a: "a < length (objs s)" "a \<notin> set ms"
    using assms(2) n(2) nodes_ok_head by blast+
  have in_ns: "c < length (objs s)" if "c \<in> set ns" for c
    using assms(2) that by (simp add: nodes_ok_def list_all_iff)
  have nsb: "c \<in> ?X \<or> length (objs s) \<le> c" if "c \<in> set nsb" for c
    using assms(8) n(1) that by simp
  have child: "length (objs s1) \<le> length (objs s2)" "prot s2 = prot s1"
      "\<forall>c<length (objs s1). c \<notin> set nsb \<longrightarrow> objs s2 ! c = objs s1 ! c"
    using assms(9) by (simp_all add: sim_post_def)
  have out: "\<forall>c<length (objs s). c \<notin> set ns \<longrightarrow> c \<notin> set nsb \<and> objs s1 ! c = objs s ! c"
    using assms(7) nsb X n(2) by fastforce
  show ?thesis
  proof (cases mt)
    case None
    then show ?thesis
      using sim_post_abort [of s1 nsb b r2 s2 s ns a] assms(5,6,9) out by simp
  next
    case (Some tb')
    obtain n2 nsb' where r2: "r2 = Inr ()" and tb': "tree_abs n2 s2 b = Some (tb', nsb')" "nodes_ok s2 nsb'"
        "\<forall>c\<in>set nsb'. c \<in> set nsb \<or> length (objs s1) \<le> c"
      using assms(9) Some by (auto simp: sim_post_def)
    have anb: "a \<notin> set nsb"
      using nsb X a by fastforce
    have "objs s2 ! a = objs s1 ! a"
      using child(3) anb a(1) assms(5) by simp
    then have "content s2 a = dset k (PConfig b) (content s a)"
        "map_of (objs s2 ! a) ''__path__'' = map_of (objs s ! a) ''__path__''"
      using assms(3,4) by (simp_all add: content_def)
    moreover have "ent (tree_abs n2 s2) (k, PConfig b) = Some ((k, Node tb'), nsb')"
      using tb'(1) by (simp add: ent_def)
    moreover have "\<forall>c\<in>set nsb'. c \<in> set (old_nodes (tree_abs (n - 1) s) (content s a) k) \<or> length (objs s) \<le> c"
      using tb'(3) nsb assms(5) n(1) by fastforce
    moreover have "\<forall>c\<in>set ns. c \<notin> set (old_nodes (tree_abs (n - 1) s) (content s a) k) \<longrightarrow> c \<noteq> a \<longrightarrow>
        objs s2 ! c = objs s ! c"
    proof (intro ballI impI)
      fix c
      assume c: "c \<in> set ns" "c \<notin> set (old_nodes (tree_abs (n - 1) s) (content s a) k)" "c \<noteq> a"
      have cl: "c < length (objs s)" using in_ns [OF c(1)] .
      then have "c \<notin> set nsb" using nsb c(2) n(1) by fastforce
      then have "objs s2 ! c = objs s1 ! c" using child(3) cl assms(5) by simp
      then show "objs s2 ! c = objs s ! c" using assms(7) cl c(3) by simp
    qed
    ultimately obtain n' ns' where "tree_abs n' s2 a = Some (dset k (Node tb') t, ns')" "nodes_ok s2 ns'"
        "\<forall>c\<in>set ns'. c \<in> set ns \<or> length (objs s) \<le> c"
      using reassemble [OF assms(1,2), of s2 k "PConfig b" n2 "Node tb'" nsb'] tb'(2) assms(5) child(1)
      by fastforce
    then show ?thesis
      using Some r2 out child assms(5,6) by (fastforce simp: sim_post_def)
  qed
qed

subsection \<open>Simulation\<close>

lemma nodes_ok_infix: "nodes_ok s (xs @ ys @ zs) \<Longrightarrow> nodes_ok s ys"
  by (simp add: nodes_ok_def)

lemma sim_post_child_rest:
  assumes "sim_post s ns a (map_option (\<lambda>tb'. dset k (Node tb') t) mt) r2 s2"
    "(r, s') = (case r2 of Inl e \<Rightarrow> (Inl e, s2) | Inr _ \<Rightarrow> update_tree a kvs s2)"
    "\<And>tb' n2 ns2. mt = Some tb' \<Longrightarrow> r2 = Inr () \<Longrightarrow> tree_abs n2 s2 a = Some (dset k (Node tb') t, ns2) \<Longrightarrow>
       nodes_ok s2 ns2 \<Longrightarrow> update_tree a kvs s2 = (r, s') \<Longrightarrow>
       sim_post s2 ns2 a (tmerge (dset k (Node tb') t) kvs) r s'"
  shows "sim_post s ns a (case mt of None \<Rightarrow> None | Some tb' \<Rightarrow> tmerge (dset k (Node tb') t) kvs) r s'"
proof (cases mt)
  case None
  then obtain e where "r2 = Inl e"
    using assms(1) by (cases r2) (auto simp: sim_post_def)
  then show ?thesis
    using assms(1,2) None by simp
next
  case (Some tb')
  then have r2: "r2 = Inr ()"
    using assms(1) by (simp add: sim_post_def)
  then have "update_tree a kvs s2 = (r, s')"
    using assms(2) by simp
  then show ?thesis
    using sim_post_seq [of s ns a "dset k (Node tb') t" s2] assms(1,3) Some r2 by simp
qed

lemma update_tree_sim:
  "prot s = (\<lambda>_. {}) \<Longrightarrow> src_names d \<Longrightarrow> dict_refs d = {} \<Longrightarrow> tree_abs n s a = Some (t, ns) \<Longrightarrow>
   nodes_ok s ns \<Longrightarrow> update_tree a d s = (r, s') \<Longrightarrow> sim_post s ns a (tmerge t d) r s'"
proof (induction a d s arbitrary: n t ns r s' rule: update_tree.induct)
  case (1 a s)
  then show ?case by (fastforce simp: sim_post_def)
next
  case (2 a k v kvs s)
  have k: "ordinary_name k" and rest: "src_names kvs" "dict_refs kvs = {}" and rv: "refs v = {}"
    using "2.prems"(2,3) by auto
  obtain n0 ms where n: "n = Suc n0" "ns = a # ms" and e: "ents (tree_abs n0 s) (content s a) = Some (t, ms)"
    using "2.prems"(4) by (rule tree_abs_SomeE)
  have a: "a < length (objs s)" "map_of (objs s ! a) ''__path__'' \<noteq> None"
    using "2.prems"(5) n(2) by (simp_all add: nodes_ok_def)
  show ?case
  proof (cases "subtree v")
    case None
    have w: "\<forall>b. strip_marker v \<noteq> PConfig b"
      using rv by (cases v) (auto simp: strip_marker_def)
    obtain s1 where s1: "setattr a k (strip_marker v) s = (Inr (), s1)"
        "sim_post s ns a (Some (dset k (Leaf (strip_marker v)) t)) (Inr ()) s1"
      using leaf_step [OF "2.prems"(1) k w "2.prems"(4,5)] by blast
    have ut: "update_tree a kvs s1 = (r, s')"
      using "2.prems"(6) None s1(1) by simp
    have p1: "prot s1 = (\<lambda>_. {})"
      using s1(2) "2.prems"(1) by (simp add: sim_post_def)
    show ?thesis
      using sim_post_seq [OF s1(2)] "2.IH"(1) [OF None s1(1) [symmetric] refl p1 rest _ _ ut] None by simp
  next
    case Some': (Some d')
    have d': "src_names d'" "dict_refs d' = {}"
      using "2.prems"(2,3) Some' subtree_SomeD [OF Some'] by (auto simp: dict_refs_def)
    have kp: "k \<noteq> ''__path__''" "k \<notin> set data_descrs"
      using k by (simp_all add: ordinary_name_def)
    show ?thesis
    proof (cases "map_of (objs s ! a) k")
      case None
      let ?b = "length (objs s)"
      obtain s1 where s1: "getattr a k s = (Inr (PConfig ?b), s1)"
          "length (objs s1) = Suc ?b" "prot s1 = prot s"
          "\<forall>c<?b. c \<noteq> a \<longrightarrow> objs s1 ! c = objs s ! c"
          "content s1 a = dset k (PConfig ?b) (content s a)"
          "map_of (objs s1 ! a) ''__path__'' = map_of (objs s ! a) ''__path__''"
          "tree_abs 1 s1 ?b = Some ([], [?b])" "nodes_ok s1 [?b]"
        using new_child_step [OF "2.prems"(1) k a None] by blast
      have mc: "map_of (content s a) k = None"
        using None kp(1) by (simp add: content_def map_of_filter_neq)
      then have "map_of t k = None"
        using ents_keys [OF e] by (metis map_of_eq_None_iff set_map)
      then have ch: "child_of t k = Some []"
        by (simp add: child_of_def)
      obtain r2 s2 where u: "update_tree ?b d' s1 = (r2, s2)" by fastforce
      have p1: "prot s1 = (\<lambda>_. {})"
        using s1(3) "2.prems"(1) by simp
      have cs: "sim_post s1 [?b] ?b (tmerge [] d') r2 s2"
        using "2.IH"(2) [OF Some' s1(1) [symmetric] refl refl p1 d' s1(7,8) u] .
      have step: "sim_post s ns a (map_option (\<lambda>tb'. dset k (Node tb') t) (tmerge [] d')) r2 s2"
        using child_merge_step [OF "2.prems"(4,5) s1(5,6) _ s1(3,4) _ cs] s1(2) by simp
      have "(r, s') = (case r2 of Inl e \<Rightarrow> (Inl e, s2) | Inr _ \<Rightarrow> update_tree a kvs s2)"
        using "2.prems"(6) Some' s1(1) u by (simp split: sum.split)
      moreover have "sim_post s2 ns2 a (tmerge tb kvs) r s'"
        if "r2 = Inr ()" "tree_abs n2 s2 a = Some (tb, ns2)" "nodes_ok s2 ns2" "update_tree a kvs s2 = (r, s')"
        for tb n2 ns2
      proof -
        have "prot s2 = (\<lambda>_. {})" using cs p1 by (simp add: sim_post_def)
        then show ?thesis
          using "2.IH"(3) [OF Some' s1(1) [symmetric] refl refl u [symmetric] that(1) _ rest that(2,3,4)] by simp
      qed
      ultimately show ?thesis
        using sim_post_child_rest [OF step] Some' ch by (simp split: option.split)
    next
      case (Some v0)
      have g: "getattr a k s = (Inr v0, s)"
        by (rule getattr_existing [OF kp(2) Some])
      have mc: "map_of (content s a) k = Some v0"
        using Some kp(1) by (simp add: content_def map_of_filter_neq)
      obtain e0 ns0 xs ys where l: "ent (tree_abs n0 s) (k, v0) = Some ((k, e0), ns0)" "map_of t k = Some e0"
          "ms = xs @ ns0 @ ys"
        using ents_lookup [OF e mc] by blast
      show ?thesis
      proof (cases "\<exists>b. v0 = PConfig b")
        case True
        then obtain b0 where b0: "v0 = PConfig b0" by blast
        then obtain t0 where t0: "tree_abs n0 s b0 = Some (t0, ns0)" "e0 = Node t0"
          using l(1) by (auto simp: ent_def)
        have ch: "child_of t k = Some t0"
          using l(2) t0(2) by (simp add: child_of_def)
        have ok0: "nodes_ok s ns0"
          using "2.prems"(5) n(2) l(3) nodes_ok_infix [of s "a # xs" ns0 ys] by simp
        have old: "old_nodes (tree_abs (n - 1) s) (content s a) k = ns0"
          using mc l(1) n(1) by (simp add: old_nodes_def)
        obtain r2 s2 where u: "update_tree b0 d' s = (r2, s2)" by fastforce
        have cs: "sim_post s ns0 b0 (tmerge t0 d') r2 s2"
          using "2.IH"(2) [OF Some' g [unfolded b0, symmetric] refl refl "2.prems"(1) d' t0(1) ok0 u] .
        have step: "sim_post s ns a (map_option (\<lambda>tb'. dset k (Node tb') t) (tmerge t0 d')) r2 s2"
          using child_merge_step [OF "2.prems"(4,5) _ refl order_refl refl _ _ cs] old mc b0
          by (simp add: dset_same)
        have "(r, s') = (case r2 of Inl e \<Rightarrow> (Inl e, s2) | Inr _ \<Rightarrow> update_tree a kvs s2)"
          using "2.prems"(6) Some' g b0 u by (simp split: sum.split)
        moreover have "sim_post s2 ns2 a (tmerge tb kvs) r s'"
          if "r2 = Inr ()" "tree_abs n2 s2 a = Some (tb, ns2)" "nodes_ok s2 ns2" "update_tree a kvs s2 = (r, s')"
          for tb n2 ns2
        proof -
          have "prot s2 = (\<lambda>_. {})" using cs "2.prems"(1) by (simp add: sim_post_def)
          then show ?thesis
            using "2.IH"(3) [OF Some' g [unfolded b0, symmetric] refl refl u [symmetric] that(1) _ rest that(2,3,4)]
            by simp
        qed
        ultimately show ?thesis
          using sim_post_child_rest [OF step] Some' ch by (simp split: option.split)
      next
        case False
        then have "update_tree a ((k, v) # kvs) s = (Inl (NoAttribute ''__update__''), s)"
          using Some' g by (cases v0) simp_all
        moreover have "child_of t k = None"
          using l(1,2) False by (cases v0) (auto simp: ent_def child_of_def)
        ultimately show ?thesis
          using "2.prems"(6) Some' by (auto simp: sim_post_def)
      qed
    qed
  qed
qed

subsection \<open>Refinement\<close>

text \<open>
  C38. \<open>Config.update\<close> implements the merge of trees. On a node that is not
  \<open>root\<close>, of a heap that is tree-shaped below it and has no protected names, a
  source dict with ordinary nested names and no \<open>Config\<close> values: the merge
  raises exactly when the tree merge fails (a nested dict meets a leaf); otherwise
  it returns the node, the node then reads as the merged tree, and every node
  outside the old tree is unchanged.
\<close>

theorem update_refines_tmerge:
  assumes "root s \<noteq> Some a" "prot s = (\<lambda>_. {})" "src_names d" "dict_refs d = {}"
    "tree_abs n s a = Some (t, ns)" "nodes_ok s ns"
  shows "case tmerge t d of
           None \<Rightarrow> isl (fst (update a (PDict d) s))
         | Some t' \<Rightarrow> fst (update a (PDict d) s) = Inr (PConfig a) \<and>
             (\<exists>n' ns'. tree_abs n' (snd (update a (PDict d) s)) a = Some (t', ns') \<and>
                nodes_ok (snd (update a (PDict d) s)) ns') \<and>
             (\<forall>c<length (objs s). c \<notin> set ns \<longrightarrow> objs (snd (update a (PDict d) s)) ! c = objs s ! c)"
proof -
  obtain r s' where u: "update_tree a d s = (r, s')" by fastforce
  have sim: "sim_post s ns a (tmerge t d) r s'"
    by (rule update_tree_sim [OF assms(2-6) u])
  have up: "update a (PDict d) s = (case r of Inl e \<Rightarrow> (Inl e, s') | Inr _ \<Rightarrow> (Inr (PConfig a), s'))"
    using assms(1) u by (simp add: update_def split: sum.split)
  show ?thesis
  proof (cases "tmerge t d")
    case None
    then show ?thesis
      using sim up by (cases r) (simp_all add: sim_post_def)
  next
    case (Some t')
    then have "r = Inr ()" "\<exists>n' ns'. tree_abs n' s' a = Some (t', ns') \<and> nodes_ok s' ns'"
        "\<forall>c<length (objs s). c \<notin> set ns \<longrightarrow> objs s' ! c = objs s ! c"
      using sim by (auto simp: sim_post_def)
    then show ?thesis
      using Some up by simp
  qed
qed

theorem update_refines_tmerge_witness:
  "fst (update 1 (PDict [(''y'', PDict [(''z'', PInt 2)]), (''x'', PInt 5)]) two_level) = Inr (PConfig 1)
   \<and> (\<exists>n' ns'. tree_abs n' (snd (update 1 (PDict [(''y'', PDict [(''z'', PInt 2)]), (''x'', PInt 5)]) two_level)) 1
         = Some ([(''x'', Leaf (PInt 5)), (''y'', Node [(''z'', Leaf (PInt 2))])], ns')
       \<and> nodes_ok (snd (update 1 (PDict [(''y'', PDict [(''z'', PInt 2)]), (''x'', PInt 5)]) two_level)) ns')
   \<and> objs (snd (update 1 (PDict [(''y'', PDict [(''z'', PInt 2)]), (''x'', PInt 5)]) two_level)) ! 0 = objs two_level ! 0"
proof -
  have "tree_abs 2 two_level 1 = Some ([(''x'', Leaf (PInt 1))], [1])"
    by (simp add: two_level_def content_def ent_def numeral_2_eq_2)
  moreover have "nodes_ok two_level [1]"
    by (simp add: two_level_def nodes_ok_def)
  moreover have "src_names [(''y'', PDict [(''z'', PInt 2)]), (''x'', PInt 5)]"
    by (simp add: subtree_def opaque_def ordinary_name_def data_descrs_def class_attrs_def)
  moreover have "tmerge [(''x'', Leaf (PInt 1))] [(''y'', PDict [(''z'', PInt 2)]), (''x'', PInt 5)]
      = Some [(''x'', Leaf (PInt 5)), (''y'', Node [(''z'', Leaf (PInt 2))])]"
    by (simp add: subtree_def opaque_def child_of_def strip_marker_def)
  ultimately show ?thesis
    using update_refines_tmerge [of two_level 1 "[(''y'', PDict [(''z'', PInt 2)]), (''x'', PInt 5)]" 2
        "[(''x'', Leaf (PInt 1))]" "[1]"]
    by (simp add: two_level_def)
qed

end
