(* ===== verification/ConfigCopy.thy ===== *)
theory ConfigCopy
  imports ConfigNode
begin

text \<open>
  The pickling hooks of \<open>Config\<close> (\<open>src/veles/config.py\<close>, lines 127--139) and the
  library protocol that uses them, \<open>copy.copy\<close>: \<open>__reduce_ex__(4)\<close> (an instance
  lookup that finds the method of \<open>object\<close>, so \<open>__getattr__\<close> is not reached)
  returns the class and the state \<open>__getstate__()\<close>; \<open>copy._reconstruct\<close> creates
  the object with \<open>Config.__new__\<close> (no \<open>__init__\<close>: an empty instance dictionary,
  no \<open>__path__\<close>) and calls its \<open>__setstate__(state)\<close>, which updates the new
  instance dictionary from the state. The state is the original's \<open>__dict__\<close>;
  the heap model reads it as a value (the copy never mutates it). \<open>__setstate__\<close>
  of a state that is not a dict raises \<open>TypeError\<close> (\<open>dict.update\<close> of a sequence of
  pairs is not modelled; the protocol always passes a dict). The registry
  \<open>__protected__\<close> is keyed by the original object and is not part of its state.
\<close>

definition getstate :: "addr \<Rightarrow> state \<Rightarrow> pyval" where
  "getstate a s = PDict (objs s ! a)"

definition setstate :: "addr \<Rightarrow> pyval \<Rightarrow> state \<Rightarrow> unit result" where
  "setstate a st s =
     (case st of
        PDict d \<Rightarrow> (Inr (), s\<lparr>objs := (objs s)[a := dsets d (objs s ! a)]\<rparr>)
      | _ \<Rightarrow> (Inl (TypeErr ''__setstate__''), s))"

text \<open>\<open>Config.__new__(Config)\<close>: a fresh object with an empty instance dictionary.\<close>

definition config_new :: "state \<Rightarrow> addr \<times> state" where
  "config_new s = (length (objs s), s\<lparr>objs := objs s @ [[]]\<rparr>)"

definition copy_config :: "addr \<Rightarrow> state \<Rightarrow> pyval result" where
  "copy_config a s =
     (let state = getstate a s;
          (b, s1) = config_new s
      in case setstate b state s1 of
           (Inl e, s2) \<Rightarrow> (Inl e, s2)
         | (Inr _, s2) \<Rightarrow> (Inr (PConfig b), s2))"

text \<open>A protected node used to evaluate the property: \<open>root\<close> with \<open>port\<close> set and
  protected.\<close>

definition guarded_root :: state where
  "guarded_root = protect 0 [''port''] (snd (setattr 0 ''port'' (PInt 8080) root_only))"

subsection \<open>Lemmas\<close>

lemma copy_config_eq:
  "copy_config a s = (Inr (PConfig (length (objs s))),
     s\<lparr>objs := objs s @ [dsets (objs s ! a) []]\<rparr>)"
  by (simp add: copy_config_def getstate_def config_new_def setstate_def)

lemma copy_config_state:
  assumes "wf_state s" "a < length (objs s)"
  shows "snd (copy_config a s) = s\<lparr>objs := objs s @ [objs s ! a]\<rparr>"
proof -
  have "distinct (dkeys (objs s ! a))"
    using wf_state_objs [OF assms] by (simp add: wf_dict_def wf_val_def)
  then show ?thesis
    by (simp add: copy_config_eq dsets_into_empty)
qed

text \<open>Why the class defines \<open>__setstate__\<close> (its docstring): on the object
  \<open>Config.__new__\<close> returns, before its state is set, an attribute lookup that reaches
  \<open>__getattr__\<close> reads the missing \<open>__path__\<close>, which reaches \<open>__getattr__\<close> again
  without end.\<close>

lemma config_new_lookup_recurses:
  "n \<notin> set data_descrs \<Longrightarrow> n \<notin> set class_attrs \<Longrightarrow>
   n \<notin> {''__copy__'', ''__deepcopy__'', ''keys'', ''values''} \<Longrightarrow>
   getattr (fst (config_new s)) n (snd (config_new s)) = (Inl RecursionErr, snd (config_new s))"
  by (simp add: config_new_def getattr_def getattr_hook_def data_descrs_def)

subsection \<open>Properties of \<open>copy.copy\<close>\<close>

text \<open>
  C16. \<open>copy.copy\<close> of a node of a well-formed heap returns a new node whose
  instance dictionary equals the original's (the same settings, \<open>__path__\<close>
  included, with the same \<open>Config\<close> children shared), and changes nothing else;
  but the new node is not protected, so every name that is not a data descriptor
  of the class, the original's protected ones included, can be written on the
  copy.
\<close>

theorem copy_drops_protection:
  assumes "wf_state s" "a < length (objs s)"
  shows "copy_config a s = (Inr (PConfig (length (objs s))), s\<lparr>objs := objs s @ [objs s ! a]\<rparr>)
    \<and> content (snd (copy_config a s)) (length (objs s)) = content s a
    \<and> path_of (snd (copy_config a s)) (length (objs s)) = path_of s a
    \<and> prot (snd (copy_config a s)) (length (objs s)) = {}
    \<and> (\<forall>n v. n \<notin> set data_descrs \<longrightarrow>
         fst (setattr (length (objs s)) n v (snd (copy_config a s))) = Inr ())"
proof -
  have eq: "copy_config a s = (Inr (PConfig (length (objs s))), s\<lparr>objs := objs s @ [objs s ! a]\<rparr>)"
    using copy_config_state [OF assms] copy_config_eq [of a s] by simp
  have fresh: "prot s (length (objs s)) = {}"
    using assms(1) by (simp add: wf_state_def)
  show ?thesis
    using eq fresh by (simp add: content_def path_of_def setattr_def data_descrs_def)
qed

theorem copy_drops_protection_witness:
  "copy_config 0 guarded_root = (Inr (PConfig 1), guarded_root\<lparr>objs := objs guarded_root @ [objs guarded_root ! 0]\<rparr>)
   \<and> fst (setattr 1 ''port'' (PInt 1) (snd (copy_config 0 guarded_root))) = Inr ()
   \<and> fst (setattr 0 ''port'' (PInt 1) guarded_root) \<noteq> Inr ()"
proof -
  have r: "wf_state root_only" "0 < length (objs root_only)"
    by (simp_all add: cfg_simps wf_state_def wf_dict_def wf_val_def)
  have "wf_state (snd (setattr 0 ''port'' (PInt 8080) root_only))"
    by (rule wf_setattr [OF r]) (simp add: wf_val_def)
  then have wf: "wf_state guarded_root"
    unfolding guarded_root_def using r(2) by (simp add: wf_protect frame_simps)
  have len: "length (objs guarded_root) = 1"
    by (simp add: guarded_root_def frame_simps cfg_simps)
  have np: "''port'' \<notin> set data_descrs"
    by (simp add: data_descrs_def)
  have neg: "fst (setattr 0 ''port'' (PInt 1) guarded_root) \<noteq> Inr ()"
    by (simp add: guarded_root_def setattr_def frame_simps)
  note t = copy_drops_protection [OF wf, of 0, unfolded len, OF zero_less_one]
  have c1: "copy_config 0 guarded_root = (Inr (PConfig 1), guarded_root\<lparr>objs := objs guarded_root @ [objs guarded_root ! 0]\<rparr>)"
    using t by (elim conjE)
  have c5: "\<forall>n v. n \<notin> set data_descrs \<longrightarrow> fst (setattr 1 n v (snd (copy_config 0 guarded_root))) = Inr ()"
    using t by (elim conjE)
  show ?thesis
    using c1 c5 np neg by blast
qed

end
