(* ===== verification/Validation.thy ===== *)
theory Validation
  imports ConfigNode
begin

text \<open>
  The validation helpers of \<open>src/veles/config.py\<close>: \<open>get\<close> (lines 157--162)
  replaces a placeholder \<open>Config\<close> by a default, and \<open>validate_kwargs\<close>
  (lines 165--176) warns about every keyword argument that is an empty \<open>Config\<close>.
  The warnings go to \<open>caller.warning\<close>; they are modelled as the list of warnings
  emitted, in order. Each warning is followed by a read of
  \<open>root.common.trace.undefined_configs\<close>, an ordinary attribute chain that can
  create nodes and can raise; when the flag is true two more warnings follow
  (the keyword arguments and the stack trace, whose text is not modelled).
\<close>

definition get :: "pyval \<Rightarrow> pyval \<Rightarrow> pyval" where
  "get value default_value = (case value of PConfig _ \<Rightarrow> default_value | _ \<Rightarrow> value)"

datatype warning =
    UndefinedArg string string \<comment> \<open>argument name and the path of the empty Config\<close>
  | KwargsDump "pyval dict"
  | StackTrace

definition trace_flag :: "state \<Rightarrow> pyval result" where
  "trace_flag s =
     (case root s of
        None \<Rightarrow> (Inl (NoAttribute ''common''), s)
      | Some r \<Rightarrow> get_path (PConfig r) [''common'', ''trace'', ''undefined_configs''] s)"

fun validate_loop :: "pyval dict \<Rightarrow> pyval dict \<Rightarrow> state \<Rightarrow> warning list \<times> unit result" where
  "validate_loop kw [] s = ([], Inr (), s)"
| "validate_loop kw ((k, v) # rest) s =
     (case v of
        PConfig b \<Rightarrow>
          if content s b = [] then
            (let w = UndefinedArg k (path_of s b) in
             case trace_flag s of
               (Inl e, s1) \<Rightarrow> ([w], Inl e, s1)
             | (Inr f, s1) \<Rightarrow>
                 (let ws = (if truthy f then [w, KwargsDump kw, StackTrace] else [w]);
                      (ws', r) = validate_loop kw rest s1
                  in (ws @ ws', r)))
          else validate_loop kw rest s
      | _ \<Rightarrow> validate_loop kw rest s)"

definition validate_kwargs :: "pyval dict \<Rightarrow> state \<Rightarrow> warning list \<times> unit result" where
  "validate_kwargs kwargs s = validate_loop kwargs kwargs s"

text \<open>The warnings \<open>validate_kwargs\<close> emits for one argument, given the flag's value.\<close>

definition warnings_for :: "state \<Rightarrow> pyval dict \<Rightarrow> pyval \<Rightarrow> string \<times> pyval \<Rightarrow> warning list" where
  "warnings_for s kw f kv =
     (case kv of (k, PConfig b) \<Rightarrow>
        if content s b = [] then UndefinedArg k (path_of s b) # (if truthy f then [KwargsDump kw, StackTrace] else [])
        else []
      | _ \<Rightarrow> [])"

definition dotted :: "string list \<Rightarrow> string" where
  "dotted ns = concat (map (\<lambda>n. ''.'' @ n) ns)"

subsection \<open>Reading an unset path\<close>

lemma getattr_new_child:
  assumes "a < length (objs s)" "ordinary_name n" "map_of (objs s ! a) n = None"
    "map_of (objs s ! a) ''__path__'' \<noteq> None" "n \<notin> prot s a"
  obtains s1 where "getattr a n s = (Inr (PConfig (length (objs s))), s1)"
    "objs s1 ! length (objs s) = [(''__path__'', PStr (path_of s a @ ''.'' @ n))]"
    "length (objs s1) = Suc (length (objs s))" "prot s1 = prot s"
proof -
  have n: "n \<noteq> ''__content__''" "n \<noteq> ''__dict__''" "n \<notin> set data_descrs" "n \<notin> set class_attrs"
    using assms(2) by (auto simp: ordinary_name_def data_descrs_def)
  have "getattr a n s = getattr_hook a n s"
    using n assms(3) by (simp add: getattr_def)
  then show ?thesis
    using that getattr_hook_new [OF assms(2,4,5,1)] assms(1) by (simp add: nth_append)
qed

lemma get_path_unset:
  assumes "wf_state s" "a < length (objs s)" "ns \<noteq> []" "list_all ordinary_name ns"
    "map_of (objs s ! a) (hd ns) = None" "map_of (objs s ! a) ''__path__'' \<noteq> None"
    "hd ns \<notin> prot s a"
  shows "\<exists>b s'. get_path (PConfig a) ns s = (Inr (PConfig b), s') \<and> content s' b = []
     \<and> path_of s' b = path_of s a @ dotted ns"
  using assms
proof (induction ns arbitrary: a s)
  case Nil
  then show ?case by simp
next
  case (Cons n ns)
  let ?b = "length (objs s)"
  have n: "ordinary_name n" "list_all ordinary_name ns" using Cons.prems(4) by simp_all
  obtain s1 where s1: "getattr a n s = (Inr (PConfig ?b), s1)"
    "objs s1 ! ?b = [(''__path__'', PStr (path_of s a @ ''.'' @ n))]"
    "length (objs s1) = Suc ?b" "prot s1 = prot s"
    using getattr_new_child [OF Cons.prems(2) n(1)] Cons.prems(5-7) by auto
  have c: "content s1 ?b = []" "path_of s1 ?b = path_of s a @ ''.'' @ n"
    using s1(2) by (simp_all add: content_def path_of_def)
  show ?case
  proof (cases ns)
    case Nil
    then show ?thesis using s1(1) c by (simp add: attr_of_def dotted_def)
  next
    case (Cons m ms)
    have wf1: "wf_state s1"
      using wf_getattr_state [OF Cons.prems(1,2), of n] s1(1) by simp
    have m: "m \<noteq> ''__path__''" using n(2) Cons by (simp add: ordinary_name_def)
    have "hd ns \<notin> prot s1 ?b"
      using Cons.prems(1) s1(4) by (simp add: wf_state_def)
    moreover have "?b < length (objs s1)" "map_of (objs s1 ! ?b) (hd ns) = None"
      "map_of (objs s1 ! ?b) ''__path__'' \<noteq> None"
      using s1(2,3) m Cons by simp_all
    ultimately obtain b s' where "get_path (PConfig ?b) ns s1 = (Inr (PConfig b), s')" "content s' b = []"
      "path_of s' b = path_of s1 ?b @ dotted ns"
      using "Cons.IH" [OF wf1 _ _ n(2)] Cons s1(4) by blast
    then show ?thesis
      using s1(1) c(2) by (simp add: attr_of_def dotted_def)
  qed
qed

lemma validate_loop_clean:
  assumes "trace_flag s = (Inr f, s)"
  shows "validate_loop kw items s = (concat (map (warnings_for s kw f) items), Inr (), s)"
proof (induction items)
  case Nil
  then show ?case by simp
next
  case (Cons kv items)
  obtain k v where kv: "kv = (k, v)" by fastforce
  show ?case
    using Cons assms by (cases v) (auto simp: kv warnings_for_def Let_def)
qed

subsection \<open>Properties of the validation helpers\<close>

definition untouched :: state where
  "untouched =
     \<lparr>objs = [[(''__path__'', PStr ''root''), (''common'', PConfig 1), (''never'', PConfig 3)],
              [(''__path__'', PStr ''root.common''), (''trace'', PConfig 2)],
              [(''__path__'', PStr ''root.common.trace''), (''undefined_configs'', PBool False)],
              [(''__path__'', PStr ''root.never''), (''touched'', PConfig 4)],
              [(''__path__'', PStr ''root.never.touched'')]],
      prot = (\<lambda>_. {}), root = Some 0\<rparr>"

lemma trace_flag_untouched [cfg_simps]: "trace_flag untouched = (Inr (PBool False), untouched)"
  by (simp add: trace_flag_def untouched_def attr_of_def getattr_def data_descrs_def)

text \<open>
  Reading a path that was never set, starting at a name the node does not
  have, yields an empty placeholder \<open>Config\<close> whose path is the start's path with
  the names appended, and \<open>get\<close> of it returns the default.
\<close>

theorem get_unset_path_default:
  assumes "wf_state s" "a < length (objs s)" "ns \<noteq> []" "list_all ordinary_name ns"
    "map_of (objs s ! a) (hd ns) = None" "map_of (objs s ! a) ''__path__'' \<noteq> None"
    "hd ns \<notin> prot s a"
  shows "\<exists>b s'. get_path (PConfig a) ns s = (Inr (PConfig b), s') \<and> content s' b = []
     \<and> path_of s' b = path_of s a @ dotted ns \<and> get (PConfig b) dflt = dflt"
  using get_path_unset [OF assms] by (simp add: get_def)

theorem get_unset_path_default_witness:
  "\<exists>b s'. get_path (PConfig 0) [''never'', ''touched''] root_only = (Inr (PConfig b), s')
     \<and> content s' b = [] \<and> path_of s' b = ''root.never.touched'' \<and> get (PConfig b) (PInt 7) = PInt 7"
proof -
  have "wf_state root_only"
    by (simp add: cfg_simps wf_state_def wf_dict_def wf_val_def)
  moreover have "list_all ordinary_name [''never'', ''touched'']"
    by (simp add: ordinary_name_def data_descrs_def class_attrs_def)
  ultimately show ?thesis
    using get_unset_path_default [of root_only 0 "[''never'', ''touched'']" "PInt 7"]
    by (simp add: cfg_simps path_of_def dotted_def)
qed

text \<open>
  C17. When \<open>root.common.trace.undefined_configs\<close> can be read without creating
  anything, \<open>validate_kwargs\<close> does not raise and changes nothing; it emits, for
  each argument in order that is a Config with empty content, one warning naming
  the argument and the Config's path, followed by the dump of all arguments and
  the stack trace when the flag is true. Other arguments produce no warning.
\<close>

theorem validate_kwargs_warnings:
  assumes "trace_flag s = (Inr f, s)"
  shows "validate_kwargs kw s = (concat (map (warnings_for s kw f) kw), Inr (), s)"
  unfolding validate_kwargs_def using assms by (rule validate_loop_clean)

theorem validate_kwargs_warnings_witness:
  "validate_kwargs [(''foo'', PConfig 4), (''bar'', PInt 1)] untouched
     = ([UndefinedArg ''foo'' ''root.never.touched''], Inr (), untouched)"
  using validate_kwargs_warnings [OF trace_flag_untouched, of "[(''foo'', PConfig 4), (''bar'', PInt 1)]"]
  by (simp add: warnings_for_def untouched_def content_def path_of_def)

text \<open>
  C18. \<open>validate_kwargs\<close> can raise: when the flag cannot be read (for instance
  \<open>root.common.trace\<close> holds a leaf), the first undefined argument's warning is
  emitted and then the \<open>AttributeError\<close> of the read propagates.
\<close>

theorem validate_kwargs_flag_error:
  assumes "content s b = []" "trace_flag s = (Inl e, s1)"
  shows "validate_kwargs ((k, PConfig b) # rest) s = ([UndefinedArg k (path_of s b)], Inl e, s1)"
  using assms by (simp add: validate_kwargs_def)

theorem validate_kwargs_flag_error_witness:
  "validate_kwargs [(''foo'', PConfig 4)] (untouched\<lparr>objs := (objs untouched)[1 := [(''__path__'', PStr ''root.common''), (''trace'', PInt 5)]]\<rparr>)
     = ([UndefinedArg ''foo'' ''root.never.touched''], Inl (NoAttribute ''undefined_configs''),
        untouched\<lparr>objs := (objs untouched)[1 := [(''__path__'', PStr ''root.common''), (''trace'', PInt 5)]]\<rparr>)"
proof -
  let ?s = "untouched\<lparr>objs := (objs untouched)[1 := [(''__path__'', PStr ''root.common''), (''trace'', PInt 5)]]\<rparr>"
  have "trace_flag ?s = (Inl (NoAttribute ''undefined_configs''), ?s)"
    by (simp add: trace_flag_def untouched_def attr_of_def getattr_def data_descrs_def)
  moreover have "content ?s 4 = []" "path_of ?s 4 = ''root.never.touched''"
    by (simp_all add: untouched_def content_def path_of_def)
  ultimately show ?thesis
    using validate_kwargs_flag_error [of ?s 4] by simp
qed

end
