(* ===== verification/Bootstrap.thy ===== *)
theory Bootstrap
  imports Merge
begin

text \<open>
  The module body of \<open>src/veles/config.py\<close> (lines 152--321): it creates the
  root, installs the defaults with \<open>root.common.update(...)\<close>, runs the optional
  \<open>veles.site_config\<close> unit and then a \<open>site_config\<close> unit for each of three
  directories, derives \<open>web.templates\<close>, checks the data directories and protects
  the critical settings. What the process environment contributes (install root,
  home, terminal, interpreter, environment variables, current directory) is the
  record \<open>env\<close>. An override unit is the module an import finds: none, a module
  without \<open>update\<close>, or a module whose \<open>update(root)\<close> is a state transformer.
  Python caches an imported module in \<open>sys.modules\<close>; the directory loop keeps
  that cache, because \<open>__import__("site_config")\<close> returns the cached module
  whatever \<open>sys.path\<close> holds. Creating directories and \<open>veles.check_root()\<close>
  are file-system and process effects and are not modelled.
\<close>

record env =
  veles_root :: string
  home :: string
  isatty :: bool
  unittest_loaded :: bool
  tracing :: bool
  cpython :: bool
  engine_dirs :: string
  device_dirs :: string
  cwd :: string

subsection \<open>Library helpers: \<open>os.path.join\<close> and \<open>str.split\<close>\<close>

text \<open>POSIX \<open>os.path.join(a, b)\<close>: an absolute \<open>b\<close> wins; a separator is added unless \<open>a\<close> is empty or ends with one.\<close>

definition path_join :: "string \<Rightarrow> string \<Rightarrow> string" where
  "path_join a b =
     (if take 1 b = ''/'' then b
      else if a = [] \<or> last a = CHR ''/'' then a @ b
      else a @ ''/'' @ b)"

text \<open>\<open>s.split(":")\<close>: the pieces between separators, empty ones included.\<close>

fun split_on :: "char \<Rightarrow> string \<Rightarrow> string list" where
  "split_on c [] = [[]]"
| "split_on c (x # xs) =
     (if x = c then [] # split_on c xs
      else (case split_on c xs of w # ws \<Rightarrow> (x # w) # ws | [] \<Rightarrow> [[x]]))"

subsection \<open>The defaults (lines 178--291)\<close>

definition defaults :: "env \<Rightarrow> pyval dict" where
  "defaults e =
    [(''dirs'', PDict
       [(''veles'', PStr (path_join (veles_root e) ''veles'')),
        (''user'', PStr (home e)),
        (''dist_config'', PStr ''/etc/default/veles''),
        (''help'', PStr ''/usr/share/doc/python3-veles''),
        (''datasets'', PStr (path_join (home e) ''data'')),
        (''snapshots'', PStr (path_join (home e) ''snapshots'')),
        (''cache'', PStr (path_join (home e) ''cache''))]),
     (''dependencies'', PDict
       [(''basedir'', PStr ''/usr/share/veles''), (''dirname'', PStr ''.pip'')]),
     (''disable'', PDict
       [(''spinning_run_progress'', PBool (\<not> isatty e)),
        (''plotting'', PBool (unittest_loaded e)),
        (''snapshotting'', PBool False), (''publishing'', PBool False)]),
     (''trace'', PDict
       [(''misprints'', PBool False), (''undefined_configs'', PBool False), (''run'', PBool False)]),
     (''warnings'', PDict [(''numba'', PBool True)]),
     (''exceptions'', PDict [(''run_after_stop'', PBool False)]),
     (''mongodb_logging_address'', PStr ''127.0.0.1:27017''),
     (''graphics'', PDict
       [(''multicast_address'', PStr ''239.192.1.1''),
        (''blacklisted_ifaces'', PSeq []),
        (''matplotlib'', PDict [(''backend'', PStr ''Qt4Agg''), (''webagg_port'', PInt 8081)])]),
     (''web'', PDict
       [(''host'', PStr ''0.0.0.0''), (''port'', PInt 8080),
        (''log_file'', PStr ''/var/log/veles/web_status.log''),
        (''log_backups'', PInt 9), (''notification_interval'', PInt 1),
        (''pidfile'', PStr ''/var/run/veles/web_status''),
        (''root'', PStr ''/usr/share/veles/web''),
        (''drop_time'', PInt (30 * 24 * 3600))]),
     (''api'', PDict [(''port'', PInt 8180), (''path'', PStr ''/api'')]),
     (''forge'', PDict
       [(''service_name'', PStr ''service''), (''upload_name'', PStr ''upload''),
        (''fetch_name'', PStr ''fetch''), (''manifest'', PStr ''manifest.json''),
        (''tokens_file'', PStr (path_join (home e) ''forge_tokens.txt'')),
        (''pending_file'', PStr (path_join (home e) ''forge_pending.txt'')),
        (''email_templates'',
           PStr (path_join (path_join (path_join (veles_root e) ''veles'') ''forge'') ''templates''))]),
     (''engine'', PDict
       [(''backend'', PStr ''auto''), (''precision_type'', PStr ''double''),
        (''precision_level'', PInt 0),
        (''test_known_device'', PBool False), (''test_unknown_device'', PBool True),
        (''test_precision_types'', PSeq [PStr ''float'', PStr ''double'']),
        (''test_precision_levels'', PSeq [PInt 0, PInt 1]),
        (''thread_pool'', PDict [(''minthreads'', PInt 2), (''maxthreads'', PInt 2)]),
        (''force_numpy_run_on_intel_opencl'', PBool True),
        (''disable_numba'', PBool (tracing e \<or> \<not> cpython e)),
        (''network_compression'', (if cpython e then PNone else PStr ''snappy'')),
        (''source_dirs'', PSeq (map PStr (split_on CHR '':'' (engine_dirs e)) @ [PStr ''/usr/share/veles''])),
        (''device_dirs'', PSeq [PStr ''/usr/share/veles/devices'',
           PStr (path_join (home e) ''devices''), PStr (device_dirs e)]),
        (''ocl'', PDict [(''clBLAS'', PBool False)]),
        (''cuda'', PDict [(''nvcc'', PStr ''nvcc'')])]),
     (''genetics'', PDict [(''disable'', PDict [(''plotting'', PBool True)])]),
     (''ensemble'', PDict [(''disable'', PDict [(''plotting'', PBool True)])]),
     (''evaluation_transform'', PFun ''evaluation_transform'')]"

subsection \<open>Override units (lines 293--308)\<close>

datatype site_unit =
    NoUnit \<comment> \<open>the import raises \<open>ImportError\<close>\<close>
  | Unit "(addr \<Rightarrow> state \<Rightarrow> unit result) option" \<comment> \<open>a module, with its \<open>update\<close> if it has one\<close>

text \<open>
  \<open>from veles.site_config import update; update(root)\<close> with only \<open>ImportError\<close>
  swallowed: a missing module or a module without \<open>update\<close> is skipped, any other
  exception of \<open>update\<close> propagates.
\<close>

definition run_module_unit :: "site_unit \<Rightarrow> addr \<Rightarrow> state \<Rightarrow> unit result" where
  "run_module_unit u r s =
     (case u of
        NoUnit \<Rightarrow> (Inr (), s)
      | Unit None \<Rightarrow> (Inr (), s)
      | Unit (Some f) \<Rightarrow>
          (case f r s of
             (Inl (ImportErr _), s1) \<Rightarrow> (Inr (), s1)
           | res \<Rightarrow> res))"

text \<open>\<open>__import__("site_config").update(root)\<close> with \<open>ImportError\<close> and \<open>AttributeError\<close> swallowed.\<close>

definition swallowed :: "error \<Rightarrow> bool" where
  "swallowed e \<longleftrightarrow> exc_class e = ''ImportError'' \<or> exc_class e = ''AttributeError''"

definition run_dir_unit :: "site_unit \<Rightarrow> addr \<Rightarrow> state \<Rightarrow> unit result" where
  "run_dir_unit u r s =
     (case u of
        NoUnit \<Rightarrow> (Inr (), s)
      | Unit None \<Rightarrow> (Inr (), s)
      | Unit (Some f) \<Rightarrow>
          (case f r s of
             (Inl e, s1) \<Rightarrow> if swallowed e then (Inr (), s1) else (Inl e, s1)
           | res \<Rightarrow> res))"

text \<open>
  The directory loop. \<open>locate p\<close> is what the import finds with directory \<open>p\<close> first on
  \<open>sys.path\<close> (a path that is not a string adds nothing to the search). The first
  module found is cached and every later iteration gets it back.
\<close>

fun dir_layers ::
  "(string option \<Rightarrow> site_unit) \<Rightarrow> site_unit option \<Rightarrow> pyval list \<Rightarrow> addr \<Rightarrow> state \<Rightarrow> unit result" where
  "dir_layers locate cache [] r s = (Inr (), s)"
| "dir_layers locate cache (p # ps) r s =
     (let u = (case cache of
                 Some m \<Rightarrow> m
               | None \<Rightarrow> locate (case p of PStr d \<Rightarrow> Some d | _ \<Rightarrow> None));
          cache' = (case u of NoUnit \<Rightarrow> cache | _ \<Rightarrow> Some u)
      in case run_dir_unit u r s of
           (Inl e, s1) \<Rightarrow> (Inl e, s1)
         | (Inr _, s1) \<Rightarrow> dir_layers locate cache' ps r s1)"

subsection \<open>Reading and writing settings by path\<close>

text \<open>A sequence of attribute reads, all evaluated before they are used (a tuple display).\<close>

fun read_paths :: "addr \<Rightarrow> string list list \<Rightarrow> state \<Rightarrow> pyval list result" where
  "read_paths r [] s = (Inr [], s)"
| "read_paths r (p # ps) s =
     (case get_path (PConfig r) p s of
        (Inl e, s1) \<Rightarrow> (Inl e, s1)
      | (Inr v, s1) \<Rightarrow>
          (case read_paths r ps s1 of
             (Inl e, s2) \<Rightarrow> (Inl e, s2)
           | (Inr vs, s2) \<Rightarrow> (Inr (v # vs), s2)))"

text \<open>\<open>root.common.web.templates = os.path.join(root.common.web.root, "templates")\<close> (line 310): the right side first.\<close>

definition set_templates :: "addr \<Rightarrow> state \<Rightarrow> unit result" where
  "set_templates r s =
     (case get_path (PConfig r) [''common'', ''web'', ''root''] s of
        (Inl e, s1) \<Rightarrow> (Inl e, s1)
      | (Inr (PStr w), s1) \<Rightarrow>
          (case get_path (PConfig r) [''common'', ''web''] s1 of
             (Inl e, s2) \<Rightarrow> (Inl e, s2)
           | (Inr (PConfig b), s2) \<Rightarrow> setattr b ''templates'' (PStr (path_join w ''templates'')) s2
           | (Inr _, s2) \<Rightarrow> (Inl (NoAttribute ''templates''), s2))
      | (Inr _, s1) \<Rightarrow> (Inl (TypeErr ''os.path.join''), s1))"

text \<open>
  Lines 311--317: the three directories are read, and \<open>os.path.exists\<close> needs a
  path-like value; creating a missing directory, and failing to, is not modelled.
\<close>

definition check_dirs :: "addr \<Rightarrow> state \<Rightarrow> unit result" where
  "check_dirs r s =
     (case read_paths r [[''common'', ''dirs'', ''cache''], [''common'', ''dirs'', ''snapshots''],
                         [''common'', ''dirs'', ''datasets'']] s of
        (Inl e, s1) \<Rightarrow> (Inl e, s1)
      | (Inr ds, s1) \<Rightarrow>
          if list_all (\<lambda>d. case d of PStr _ \<Rightarrow> True | _ \<Rightarrow> False) ds then (Inr (), s1)
          else (Inl (TypeErr ''os.path.exists''), s1))"

text \<open>\<open>x.protect(*names)\<close> on the node a path reads; a leaf has no \<open>protect\<close>.\<close>

definition protect_path :: "addr \<Rightarrow> string list \<Rightarrow> string list \<Rightarrow> state \<Rightarrow> unit result" where
  "protect_path r p names s =
     (case get_path (PConfig r) p s of
        (Inl e, s1) \<Rightarrow> (Inl e, s1)
      | (Inr (PConfig b), s1) \<Rightarrow> (Inr (), protect b names s1)
      | (Inr _, s1) \<Rightarrow> (Inl (NoAttribute ''protect''), s1))"

definition critical_dirs :: "string list" where
  "critical_dirs = [''veles'', ''user'', ''snapshots'', ''cache'']"

text \<open>Lines 320--321.\<close>

text \<open>As for \<open>__update__\<close>, a setting named \<open>protect\<close> stored on \<open>root.common\<close> or
  \<open>root.common.dirs\<close> would shadow the method in Python; the model always runs the
  method.\<close>

definition lock_down :: "addr \<Rightarrow> state \<Rightarrow> unit result" where
  "lock_down r s =
     (case protect_path r [''common''] [''pickles_compression''] s of
        (Inl e, s1) \<Rightarrow> (Inl e, s1)
      | (Inr _, s1) \<Rightarrow> protect_path r [''common'', ''dirs''] critical_dirs s1)"

subsection \<open>The whole module body\<close>

text \<open>Sequencing of steps that may raise: the first exception ends the module's execution.\<close>

definition ignore_value :: "'a result \<Rightarrow> unit result" where
  "ignore_value r = (case r of (Inl e, s) \<Rightarrow> (Inl e, s) | (Inr _, s) \<Rightarrow> (Inr (), s))"

definition then_do :: "unit result \<Rightarrow> (state \<Rightarrow> unit result) \<Rightarrow> unit result" where
  "then_do r f = (case r of (Inl e, s) \<Rightarrow> (Inl e, s) | (Inr _, s) \<Rightarrow> f s)"

definition install_defaults :: "env \<Rightarrow> addr \<Rightarrow> state \<Rightarrow> unit result" where
  "install_defaults e r s =
     (case get_path (PConfig r) [''common''] s of
        (Inl err, s1) \<Rightarrow> (Inl err, s1)
      | (Inr c, s1) \<Rightarrow>
          (case c of
             PConfig b \<Rightarrow> (case update b (PDict (defaults e)) s1 of
                             (Inl err, s2) \<Rightarrow> (Inl err, s2)
                           | (Inr _, s2) \<Rightarrow> (Inr (), s2))
           | _ \<Rightarrow> (Inl (NoAttribute ''update''), s1)))"

definition site_layers :: "env \<Rightarrow> (string option \<Rightarrow> site_unit) \<Rightarrow> addr \<Rightarrow> state \<Rightarrow> unit result" where
  "site_layers e locate r s =
     (case read_paths r [[''common'', ''dirs'', ''dist_config''], [''common'', ''dirs'', ''user'']] s of
        (Inl err, s1) \<Rightarrow> (Inl err, s1)
      | (Inr ps, s1) \<Rightarrow> dir_layers locate None (ps @ [PStr (cwd e)]) r s1)"

definition bootstrap :: "env \<Rightarrow> site_unit \<Rightarrow> (string option \<Rightarrow> site_unit) \<Rightarrow> unit result" where
  "bootstrap e m locate =
     (let (r, s0) = config_init ''root'' empty_state;
          s1 = s0\<lparr>root := Some r\<rparr>
      in then_do (ignore_value (get_path (PConfig r) [''common''] s1))
          (\<lambda>s. then_do (install_defaults e r s)
          (\<lambda>s. then_do (run_module_unit m r s)
          (\<lambda>s. then_do (site_layers e locate r s)
          (\<lambda>s. then_do (set_templates r s)
          (\<lambda>s. then_do (check_dirs r s)
          (\<lambda>s. lock_down r s)))))))"

subsection \<open>Re-reading a path\<close>

lemma ordinary_name_lookup:
  "ordinary_name n \<Longrightarrow> n \<notin> set data_descrs \<and> n \<notin> set class_attrs \<and> n \<noteq> ''keys'' \<and> n \<noteq> ''values''"
  by (simp add: ordinary_name_def)

lemma get_path_two:
  "get_path (PConfig r) [m, n] s = (Inr w, s') \<Longrightarrow>
   \<exists>c u. getattr r m s = (Inr (PConfig c), u) \<and> getattr c n u = (Inr w, s')"
  by (auto simp: attr_of_def split: prod.splits sum.splits pyval.splits)

lemma get_path_reread:
  assumes "wf_state s" "r < length (objs s)" "ordinary_name m" "ordinary_name n"
    "get_path (PConfig r) [m, n] s = (Inr w, t)" "objs t' = objs t"
  shows "get_path (PConfig r) [m, n] t' = (Inr w, t')"
proof -
  obtain c u where g1: "getattr r m s = (Inr (PConfig c), u)" and g2: "getattr c n u = (Inr w, t)"
    using get_path_two [OF assms(5)] by blast
  have wfu: "wf_state u" and ru: "r < length (objs u)" and cu: "c < length (objs u)"
    using wf_getattr_state [OF assms(1,2), of m] heap_ext_getattr [of s r m]
      wf_getattr_value [OF assms(1,2) g1] heap_ext_length [OF _ assms(2)] g1
    by auto
  have e1: "map_of (objs u ! r) m = Some (PConfig c)"
    using ordinary_name_lookup [OF assms(3)] assms(2) g1 by (intro getattr_Inr_entry) auto
  have "map_of (objs (snd (getattr c n u)) ! r) m = Some (PConfig c)"
    using cu ru e1 by (rule getattr_keeps_entry)
  then have e1': "map_of (objs t' ! r) m = Some (PConfig c)"
    using g2 assms(6) by simp
  have e2: "map_of (objs t' ! c) n = Some w"
    using ordinary_name_lookup [OF assms(4)] cu g2 assms(6) by (metis getattr_Inr_entry)
  have "getattr r m t' = (Inr (PConfig c), t')" "getattr c n t' = (Inr w, t')"
    using e1' e2 ordinary_name_lookup [OF assms(3)] ordinary_name_lookup [OF assms(4)]
    by (simp_all add: getattr_existing)
  then show ?thesis by (simp add: attr_of_def)
qed

lemma get_path_single: "get_path (PConfig r) [m] s = getattr r m s"
  by (cases "getattr r m s") (auto simp: attr_of_def split: sum.split)

lemma protect_path_Inr:
  "protect_path r p names s = (Inr (), s') \<Longrightarrow>
   \<exists>b t. get_path (PConfig r) p s = (Inr (PConfig b), t) \<and> s' = protect b names t"
  by (auto simp: protect_path_def split: prod.splits sum.splits pyval.splits)

lemma wf_protect_path:
  assumes "wf_state s" "r < length (objs s)" "protect_path r [m] names s = (Inr (), s')"
  shows "wf_state s' \<and> r < length (objs s')"
proof -
  obtain b t where g0: "get_path (PConfig r) [m] s = (Inr (PConfig b), t)" and s': "s' = protect b names t"
    using protect_path_Inr [OF assms(3)] by blast
  have g: "getattr r m s = (Inr (PConfig b), t)"
    using g0 by (simp only: get_path_single)
  have "wf_state t" "b < length (objs t)" "r < length (objs t)"
    using wf_getattr_state [OF assms(1,2), of m] wf_getattr_value [OF assms(1,2) g]
      heap_ext_length [OF heap_ext_getattr [of s r m] assms(2)] g by auto
  then show ?thesis
    using s' wf_protect by (simp add: frame_simps)
qed

subsection \<open>Properties of the override loader\<close>

lemma dir_layers_cached:
  "dir_layers locate (Some u) ps r s = dir_layers locate' (Some u) ps r s"
proof (induction ps arbitrary: s)
  case Nil
  then show ?case by simp
next
  case (Cons p ps)
  then show ?case
    by (cases u) (simp_all add: Let_def split: prod.split sum.split)
qed

definition set_x :: "int \<Rightarrow> addr \<Rightarrow> state \<Rightarrow> unit result" where
  "set_x i r s = setattr r ''x'' (PInt i) s"

definition layered_units :: "string option \<Rightarrow> site_unit" where
  "layered_units p =
     (if p = Some ''/etc/default/veles'' then Unit (Some (set_x 2))
      else if p = Some ''/home/u'' then Unit (Some (set_x 3)) else NoUnit)"

text \<open>
  C20. Only the first \<open>site_config\<close> unit found is ever imported: once the import
  for the first directory finds a module, \<open>sys.modules\<close> returns that module for
  the user and working directories too, so its \<open>update\<close> runs once per directory
  and the units of the later directories never run. Layering does not let a later
  directory override an earlier one.
\<close>

theorem site_config_first_unit_reruns:
  assumes "locate (Some p) = Unit (Some f)"
  shows "dir_layers locate None [PStr p, q, w] r s =
    then_do (run_dir_unit (Unit (Some f)) r s)
      (\<lambda>s1. then_do (run_dir_unit (Unit (Some f)) r s1) (\<lambda>s2. run_dir_unit (Unit (Some f)) r s2))"
  using assms by (simp add: then_do_def Let_def split: prod.split sum.split)

theorem site_config_first_unit_reruns_witness:
  "dir_layers layered_units None [PStr ''/etc/default/veles'', PStr ''/home/u'', PStr ''/work''] 0 root_only
     = (Inr (), root_only\<lparr>objs := [[(''__path__'', PStr ''root''), (''x'', PInt 2)]]\<rparr>)"
proof -
  have "layered_units (Some ''/etc/default/veles'') = Unit (Some (set_x 2))"
    by (simp add: layered_units_def)
  then show ?thesis
    using site_config_first_unit_reruns [of layered_units "''/etc/default/veles''" "set_x 2"
        "PStr ''/home/u''" "PStr ''/work''" 0 root_only]
    by (simp add: then_do_def run_dir_unit_def set_x_def setattr_def cfg_simps)
qed

text \<open>
  C21. Lock-down: after a successful \<open>lock_down\<close>, reading
  \<open>root.common.dirs\<close> gives the node that was protected, and every assignment to
  \<open>veles\<close>, \<open>user\<close>, \<open>snapshots\<close> or \<open>cache\<close> on it raises \<open>AttributeError\<close>.
\<close>

theorem lock_down_protects_dirs:
  assumes "wf_state s" "r < length (objs s)" "lock_down r s = (Inr (), s')"
  shows "\<exists>d. get_path (PConfig r) [''common'', ''dirs''] s' = (Inr (PConfig d), s')
     \<and> (\<forall>n \<in> set critical_dirs. fst (setattr d n v s') = Inl (ProtectedSetting (path_of s' d) n))"
proof -
  obtain s1 where p1: "protect_path r [''common''] [''pickles_compression''] s = (Inr (), s1)"
    and p2: "protect_path r [''common'', ''dirs''] critical_dirs s1 = (Inr (), s')"
    using assms(3) by (auto simp: lock_down_def split: prod.splits sum.splits)
  have s1: "wf_state s1" "r < length (objs s1)"
    using wf_protect_path [OF assms(1,2) p1] by simp_all
  obtain d t where g: "get_path (PConfig r) [''common'', ''dirs''] s1 = (Inr (PConfig d), t)"
    and s': "s' = protect d critical_dirs t"
    using protect_path_Inr [OF p2] by blast
  have names: "ordinary_name ''common''" "ordinary_name ''dirs''"
    by (simp_all add: ordinary_name_def data_descrs_def class_attrs_def)
  have "get_path (PConfig r) [''common'', ''dirs''] s' = (Inr (PConfig d), s')"
    using get_path_reread [OF s1 names g] s' by (simp add: frame_simps)
  moreover have "n \<in> prot s' d" if "n \<in> set critical_dirs" for n
    using that s' by (simp add: frame_simps)
  ultimately show ?thesis
    by (auto simp: setattr_protected)
qed

definition locked_state :: state where
  "locked_state =
     \<lparr>objs = [[(''__path__'', PStr ''root''), (''common'', PConfig 1)],
              [(''__path__'', PStr ''root.common''), (''dirs'', PConfig 2)],
              [(''__path__'', PStr ''root.common.dirs''), (''user'', PStr ''/home/u'')]],
      prot = (\<lambda>_. {}), root = Some 0\<rparr>"

theorem lock_down_protects_dirs_witness:
  "get_path (PConfig 0) [''common'', ''dirs''] (snd (lock_down 0 locked_state))
     = (Inr (PConfig 2), snd (lock_down 0 locked_state))
   \<and> fst (setattr 2 ''user'' (PStr ''/tmp'') (snd (lock_down 0 locked_state)))
     = Inl (ProtectedSetting ''root.common.dirs'' ''user'')"
proof -
  have wf: "wf_state locked_state"
    by (simp add: locked_state_def wf_state_def wf_dict_def wf_val_def)
  have run: "lock_down 0 locked_state = (Inr (), snd (lock_down 0 locked_state))"
    by (simp add: lock_down_def protect_path_def locked_state_def attr_of_def getattr_def
        data_descrs_def class_attrs_def frame_simps)
  obtain d where d: "get_path (PConfig 0) [''common'', ''dirs''] (snd (lock_down 0 locked_state))
      = (Inr (PConfig d), snd (lock_down 0 locked_state))"
    "\<forall>n \<in> set critical_dirs. fst (setattr d n (PStr ''/tmp'') (snd (lock_down 0 locked_state)))
      = Inl (ProtectedSetting (path_of (snd (lock_down 0 locked_state)) d) n)"
    using lock_down_protects_dirs [OF wf _ run, of "PStr ''/tmp''"] by (auto simp: locked_state_def)
  have "d = 2" "path_of (snd (lock_down 0 locked_state)) 2 = ''root.common.dirs''"
    using d(1) by (simp_all add: lock_down_def protect_path_def locked_state_def attr_of_def getattr_def
        data_descrs_def class_attrs_def frame_simps path_of_def)
  then show ?thesis
    using d by (simp add: critical_dirs_def)
qed

lemma path_join_relative:
  "w \<noteq> [] \<Longrightarrow> last w \<noteq> CHR ''/'' \<Longrightarrow> take 1 b \<noteq> ''/'' \<Longrightarrow> path_join w b = w @ ''/'' @ b"
  by (simp add: path_join_def)

text \<open>
  C22. The derived templates setting: when \<open>root.common.web.root\<close> is a string
  \<open>w\<close> that does not end in a slash and \<open>root.common.web\<close> is a node on which
  \<open>templates\<close> is writable, the module sets \<open>web.templates\<close> to
  \<open>w + "/templates"\<close> and changes nothing else; a web root that is not a string
  raises \<open>TypeError\<close>.
\<close>

theorem templates_derived:
  assumes "get_path (PConfig r) [''common'', ''web'', ''root''] s = (Inr wv, s)"
    "get_path (PConfig r) [''common'', ''web''] s = (Inr (PConfig b), s)"
    "''templates'' \<notin> prot s b"
  shows "set_templates r s =
      (case wv of
         PStr w \<Rightarrow> (Inr (), s\<lparr>objs := (objs s)[b := dset ''templates'' (PStr (path_join w ''templates'')) (objs s ! b)]\<rparr>)
       | _ \<Rightarrow> (Inl (TypeErr ''os.path.join''), s))
    \<and> (\<forall>w. wv = PStr w \<longrightarrow> w \<noteq> [] \<longrightarrow> last w \<noteq> CHR ''/'' \<longrightarrow> path_join w ''templates'' = w @ ''/templates'')"
  using assms by (cases wv) (simp_all add: set_templates_def setattr_ordinary data_descrs_def path_join_relative)

definition web_state :: state where
  "web_state =
     \<lparr>objs = [[(''__path__'', PStr ''root''), (''common'', PConfig 1)],
              [(''__path__'', PStr ''root.common''), (''web'', PConfig 2)],
              [(''__path__'', PStr ''root.common.web''), (''root'', PStr ''/usr/share/veles/web'')]],
      prot = (\<lambda>_. {}), root = Some 0\<rparr>"

theorem templates_derived_witness:
  "set_templates 0 web_state =
     (Inr (), web_state\<lparr>objs := (objs web_state)[2 := [(''__path__'', PStr ''root.common.web''),
        (''root'', PStr ''/usr/share/veles/web''), (''templates'', PStr ''/usr/share/veles/web/templates'')]]\<rparr>)"
proof -
  have "get_path (PConfig 0) [''common'', ''web'', ''root''] web_state = (Inr (PStr ''/usr/share/veles/web''), web_state)"
    "get_path (PConfig 0) [''common'', ''web''] web_state = (Inr (PConfig 2), web_state)"
    by (simp_all add: web_state_def attr_of_def getattr_def data_descrs_def)
  moreover have "''templates'' \<notin> prot web_state 2"
    by (simp add: web_state_def)
  ultimately show ?thesis
    using templates_derived [of 0 web_state "PStr ''/usr/share/veles/web''" 2] by (simp add: web_state_def path_join_def)
qed

end
