(* ===== verification/Display.thy ===== *)
theory Display
  imports ConfigNode "HOL-Library.Monad_Syntax"
begin

text \<open>
  The display functions of \<open>src/veles/config.py\<close>: \<open>fix_contents\<close> (lines 52--57),
  which turns a \<open>Config\<close> into nested plain dictionaries by replacing every value
  that is a \<open>Config\<close> with its own fixed contents, and \<open>Config.print_\<close> (lines
  86--90), which writes a rule, a title and the \<open>pprint\<close> of those dictionaries.
  \<open>fix_contents\<close> follows the references of the heap and does not return when
  they form a cycle (Python then raises \<open>RecursionError\<close>), so it is a
  \<open>partial_function (option)\<close>: \<open>None\<close> is "does not return". The two recursions
  of the code, over a node and over the items of its content, are one function on
  \<open>addr + pyval dict\<close>. \<open>pprint\<close> is a library call and is kept as an output line
  that carries the dictionaries and the layout arguments.
\<close>

text \<open>Python also raises \<open>RecursionError\<close> on an acyclic tree nested deeper than the
  interpreter's recursion limit (about a thousand frames); the model has no such
  limit, so on such a tree it returns where Python raises.\<close>

partial_function (option) fix_rec :: "state \<Rightarrow> addr + pyval dict \<Rightarrow> pyval dict option" where
  "fix_rec s x =
     (case x of
        Inl a \<Rightarrow> fix_rec s (Inr (content s a))
      | Inr [] \<Rightarrow> Some []
      | Inr ((k, v) # rest) \<Rightarrow>
          do {
            v' \<leftarrow> (case v of
                    PConfig b \<Rightarrow> do { d \<leftarrow> fix_rec s (Inl b); Some (PDict d) }
                  | _ \<Rightarrow> Some v);
            rest' \<leftarrow> fix_rec s (Inr rest);
            Some ((k, v') # rest')
          })"

declare fix_rec.simps [code]

definition fix_contents :: "state \<Rightarrow> addr \<Rightarrow> pyval dict option" where
  "fix_contents s a = fix_rec s (Inl a)"

datatype out_line = Text string | Pretty "pyval dict" nat nat

text \<open>
  \<open>print_\<close> (here \<open>print_config\<close>) writes the rule and the title before it calls
  \<open>fix_contents\<close>: the result is the lines written and whether the call returns.
\<close>

definition print_config :: "state \<Rightarrow> addr \<Rightarrow> nat \<Rightarrow> nat \<Rightarrow> out_line list \<times> unit option" where
  \<open>print_config s a indent width =
     (let rule = Text (replicate width (CHR ''-''));
          title = Text (''Configuration "'' @ path_of s a @ ''":'')
      in case fix_contents s a of
           None \<Rightarrow> ([rule, title], None)
         | Some d \<Rightarrow> ([rule, title, Pretty d indent width, rule], Some ()))\<close>

definition is_config :: "pyval \<Rightarrow> bool" where
  "is_config v = (case v of PConfig _ \<Rightarrow> True | _ \<Rightarrow> False)"

text \<open>A rank that decreases along every reference from a node to a \<open>Config\<close> it holds:
  the references of the heap have no cycle.\<close>

definition ranked :: "state \<Rightarrow> (addr \<Rightarrow> nat) \<Rightarrow> bool" where
  "ranked s rk = list_all (\<lambda>a. list_all (\<lambda>(k, v). case v of PConfig b \<Rightarrow> rk b < rk a | _ \<Rightarrow> True)
     (content s a)) [0..<length (objs s)]"

text \<open>No node hides a \<open>Config\<close> inside a leaf value (a list, a dict stored as a leaf):
  every \<open>Config\<close> a node refers to is the direct value of one of its settings.\<close>

definition plain_leaves :: "state \<Rightarrow> bool" where
  "plain_leaves s = list_all (\<lambda>a. list_all (\<lambda>(k, v). is_config v \<or> refs v = {}) (content s a))
     [0..<length (objs s)]"

text \<open>A set of nodes each of which holds a \<open>Config\<close> of the set: a cycle of references.\<close>

definition closed_refs :: "state \<Rightarrow> addr set \<Rightarrow> bool" where
  "closed_refs s C = (\<forall>a\<in>C. \<exists>k b. (k, PConfig b) \<in> set (content s a) \<and> b \<in> C)"

text \<open>An entry of the fixed contents for an entry of the content: same key, a \<open>Config\<close>
  replaced by a dictionary, any other value kept.\<close>

definition fixed_entry :: "string \<times> pyval \<Rightarrow> string \<times> pyval \<Rightarrow> bool" where
  "fixed_entry kv kv' = (fst kv' = fst kv \<and>
     (case snd kv of PConfig _ \<Rightarrow> \<exists>e. snd kv' = PDict e | _ \<Rightarrow> snd kv' = snd kv))"

text \<open>Heaps used to evaluate the properties: a two-level tree, and a node that holds
  itself (\<open>root.common.me = root.common\<close>).\<close>

definition self_loop :: state where
  "self_loop = \<lparr>objs = [[(''__path__'', PStr ''root''), (''common'', PConfig 1)],
      [(''__path__'', PStr ''root.common''), (''port'', PInt 8080), (''me'', PConfig 1)]],
    prot = (\<lambda>_. {}), root = Some 0\<rparr>"

definition two_level_tree :: state where
  "two_level_tree = \<lparr>objs = [[(''__path__'', PStr ''root''), (''common'', PConfig 1)],
      [(''__path__'', PStr ''root.common''), (''port'', PInt 8080), (''web'', PConfig 2)],
      [(''__path__'', PStr ''root.common.web''), (''host'', PStr ''localhost'')]],
    prot = (\<lambda>_. {}), root = Some 0\<rparr>"

subsection \<open>Lemmas\<close>

lemma fix_rec_Inl: "fix_rec s (Inl a) = fix_rec s (Inr (content s a))"
  by (subst fix_rec.simps) simp

lemma fix_rec_Nil: "fix_rec s (Inr []) = Some []"
  by (subst fix_rec.simps) simp

lemma fix_rec_Cons:
  "fix_rec s (Inr ((k, v) # rest)) =
     do {
       v' \<leftarrow> (case v of PConfig b \<Rightarrow> map_option PDict (fix_rec s (Inl b)) | _ \<Rightarrow> Some v);
       rest' \<leftarrow> fix_rec s (Inr rest);
       Some ((k, v') # rest')
     }"
  by (subst fix_rec.simps) (simp add: map_option_case split: pyval.split option.split)

lemma fix_rec_list:
  assumes "\<forall>(k, v) \<in> set c. \<forall>b. v = PConfig b \<longrightarrow> (\<exists>d. fix_rec s (Inl b) = Some d)"
  shows "\<exists>d. fix_rec s (Inr c) = Some d \<and> list_all2 fixed_entry c d"
  using assms
proof (induction c)
  case Nil
  then show ?case by (simp add: fix_rec_Nil)
next
  case (Cons kv c)
  obtain k v where kv: "kv = (k, v)" by fastforce
  obtain d where d: "fix_rec s (Inr c) = Some d" "list_all2 fixed_entry c d"
    using Cons by auto
  show ?case
  proof (cases "is_config v")
    case True
    then obtain b where b: "v = PConfig b"
      by (cases v) (simp_all add: is_config_def)
    then obtain e where "fix_rec s (Inl b) = Some e"
      using Cons.prems kv by auto
    moreover have "fixed_entry (k, PConfig b) (k, PDict e)"
      by (simp add: fixed_entry_def)
    ultimately show ?thesis
      using d kv b by (simp add: fix_rec_Cons)
  next
    case False
    then have "(case v of PConfig b \<Rightarrow> map_option PDict (fix_rec s (Inl b)) | _ \<Rightarrow> Some v) = Some v"
      by (cases v) (simp_all add: is_config_def)
    moreover have "fixed_entry (k, v) (k, v)"
      using False by (cases v) (simp_all add: is_config_def fixed_entry_def)
    ultimately show ?thesis
      using d kv by (simp add: fix_rec_Cons)
  qed
qed

lemma content_refs:
  assumes "wf_state s" "a < length (objs s)" "(k, PConfig b) \<in> set (content s a)"
  shows "b < length (objs s)"
proof -
  have "wf_dict (length (objs s)) (objs s ! a)"
    using assms(1,2) by (rule wf_state_objs)
  moreover have "(k, PConfig b) \<in> set (objs s ! a)"
    using assms(3) by (simp add: content_def)
  ultimately show ?thesis
    by (force simp: wf_dict_def wf_val_def dict_refs_def)
qed

lemma ranked_step:
  "ranked s rk \<Longrightarrow> a < length (objs s) \<Longrightarrow> (k, PConfig b) \<in> set (content s a) \<Longrightarrow> rk b < rk a"
  by (fastforce simp: ranked_def list_all_iff)

lemma fix_rec_ranked:
  assumes "wf_state s" "ranked s rk" "a < length (objs s)"
  shows "\<exists>d. fix_rec s (Inl a) = Some d \<and> list_all2 fixed_entry (content s a) d"
  using assms(3)
proof (induction "rk a" arbitrary: a rule: less_induct)
  case less
  have "\<forall>(k, v) \<in> set (content s a). \<forall>b. v = PConfig b \<longrightarrow> (\<exists>d. fix_rec s (Inl b) = Some d)"
    using less.hyps content_refs [OF assms(1) less.prems] ranked_step [OF assms(2) less.prems] by blast
  then show ?case
    using fix_rec_list by (simp add: fix_rec_Inl)
qed

lemma fix_rec_closed:
  assumes "fix_rec s x = Some r"
  shows "closed_refs s C \<longrightarrow> (case x of Inl a \<Rightarrow> a \<notin> C
    | Inr c \<Rightarrow> \<forall>(k, v) \<in> set c. \<forall>b. v = PConfig b \<longrightarrow> b \<notin> C)"
proof -
  have t: "(case (s, x) of (s, x) \<Rightarrow> fix_rec s x) = Some r"
    using assms by simp
  have "(case (s, x) of (s, x) \<Rightarrow> \<lambda>r. closed_refs s C \<longrightarrow> (case x of Inl a \<Rightarrow> a \<notin> C
    | Inr c \<Rightarrow> \<forall>(k, v) \<in> set c. \<forall>b. v = PConfig b \<longrightarrow> b \<notin> C)) r"
proof (rule fix_rec.raw_induct [where P = "\<lambda>s x r. closed_refs s C \<longrightarrow> (case x of Inl a \<Rightarrow> a \<notin> C
    | Inr c \<Rightarrow> \<forall>(k, v) \<in> set c. \<forall>b. v = PConfig b \<longrightarrow> b \<notin> C)", OF _ t])
  fix f s x r
  assume IH: "\<And>s x r. f s x = Some r \<Longrightarrow> closed_refs s C \<longrightarrow> (case x of Inl a \<Rightarrow> a \<notin> C
    | Inr c \<Rightarrow> \<forall>(k, v) \<in> set c. \<forall>b. v = PConfig b \<longrightarrow> b \<notin> C)"
    and eq: "(case x of
        Inl a \<Rightarrow> f s (Inr (content s a))
      | Inr [] \<Rightarrow> Some []
      | Inr ((k, v) # rest) \<Rightarrow>
          do {
            v' \<leftarrow> (case v of
                    PConfig b \<Rightarrow> do { d \<leftarrow> f s (Inl b); Some (PDict d) }
                  | _ \<Rightarrow> Some v);
            rest' \<leftarrow> f s (Inr rest);
            Some ((k, v') # rest')
          }) = Some r"
  show "closed_refs s C \<longrightarrow> (case x of Inl a \<Rightarrow> a \<notin> C
    | Inr c \<Rightarrow> \<forall>(k, v) \<in> set c. \<forall>b. v = PConfig b \<longrightarrow> b \<notin> C)"
  proof
    assume cl: "closed_refs s C"
    show "case x of Inl a \<Rightarrow> a \<notin> C | Inr c \<Rightarrow> \<forall>(k, v) \<in> set c. \<forall>b. v = PConfig b \<longrightarrow> b \<notin> C"
    proof (cases x)
      case (Inl a)
      then have "\<forall>(k, v) \<in> set (content s a). \<forall>b. v = PConfig b \<longrightarrow> b \<notin> C"
        using IH eq cl by fastforce
      then show ?thesis
        using cl Inl by (fastforce simp: closed_refs_def)
    next
      case (Inr c)
      show ?thesis
      proof (cases c)
        case Nil
        then show ?thesis using Inr by simp
      next
        case (Cons kv rest)
        obtain k v where kv: "kv = (k, v)" by fastforce
        obtain v' rest' where v': "(case v of
                    PConfig b \<Rightarrow> do { d \<leftarrow> f s (Inl b); Some (PDict d) }
                  | _ \<Rightarrow> Some v) = Some v'" and rest': "f s (Inr rest) = Some rest'"
          using eq Inr Cons kv by (auto simp: bind_eq_Some_conv)
        have "\<forall>b. v = PConfig b \<longrightarrow> b \<notin> C"
        proof (intro allI impI)
          fix b
          assume "v = PConfig b"
          then obtain y where "f s (Inl b) = Some y"
            using v' by (auto simp: bind_eq_Some_conv)
          then show "b \<notin> C"
            using IH cl by fastforce
        qed
        moreover have "\<forall>(k, v) \<in> set rest. \<forall>b. v = PConfig b \<longrightarrow> b \<notin> C"
          using IH [OF rest'] cl by simp
        ultimately show ?thesis
          using Inr Cons kv by auto
      qed
    qed
  qed
qed
  then show ?thesis
    by simp
qed

lemma fix_rec_plain:
  assumes "fix_rec s x = Some r"
  shows "wf_state s \<longrightarrow> plain_leaves s \<longrightarrow> (case x of Inl a \<Rightarrow> a < length (objs s)
    | Inr c \<Rightarrow> \<forall>(k, v) \<in> set c. (\<exists>b. v = PConfig b \<and> b < length (objs s)) \<or> refs v = {}) \<longrightarrow>
    dict_refs r = {}"
proof -
  have t: "(case (s, x) of (s, x) \<Rightarrow> fix_rec s x) = Some r"
    using assms by simp
  have "(case (s, x) of (s, x) \<Rightarrow> \<lambda>r. wf_state s \<longrightarrow> plain_leaves s \<longrightarrow> (case x of Inl a \<Rightarrow> a < length (objs s)
    | Inr c \<Rightarrow> \<forall>(k, v) \<in> set c. (\<exists>b. v = PConfig b \<and> b < length (objs s)) \<or> refs v = {}) \<longrightarrow>
    dict_refs r = {}) r"
  proof (rule fix_rec.raw_induct [where P = "\<lambda>s x r. wf_state s \<longrightarrow> plain_leaves s \<longrightarrow> (case x of
      Inl a \<Rightarrow> a < length (objs s)
    | Inr c \<Rightarrow> \<forall>(k, v) \<in> set c. (\<exists>b. v = PConfig b \<and> b < length (objs s)) \<or> refs v = {}) \<longrightarrow>
    dict_refs r = {}", OF _ t])
    fix f s x r
    assume IH: "\<And>s x r. f s x = Some r \<Longrightarrow> wf_state s \<longrightarrow> plain_leaves s \<longrightarrow> (case x of
        Inl a \<Rightarrow> a < length (objs s)
      | Inr c \<Rightarrow> \<forall>(k, v) \<in> set c. (\<exists>b. v = PConfig b \<and> b < length (objs s)) \<or> refs v = {}) \<longrightarrow>
      dict_refs r = {}"
      and eq: "(case x of
        Inl a \<Rightarrow> f s (Inr (content s a))
      | Inr [] \<Rightarrow> Some []
      | Inr ((k, v) # rest) \<Rightarrow>
          do {
            v' \<leftarrow> (case v of
                    PConfig b \<Rightarrow> do { d \<leftarrow> f s (Inl b); Some (PDict d) }
                  | _ \<Rightarrow> Some v);
            rest' \<leftarrow> f s (Inr rest);
            Some ((k, v') # rest')
          }) = Some r"
    show "wf_state s \<longrightarrow> plain_leaves s \<longrightarrow> (case x of Inl a \<Rightarrow> a < length (objs s)
      | Inr c \<Rightarrow> \<forall>(k, v) \<in> set c. (\<exists>b. v = PConfig b \<and> b < length (objs s)) \<or> refs v = {}) \<longrightarrow>
      dict_refs r = {}"
    proof (intro impI)
      assume wf: "wf_state s" and pl: "plain_leaves s"
        and pre: "case x of Inl a \<Rightarrow> a < length (objs s)
          | Inr c \<Rightarrow> \<forall>(k, v) \<in> set c. (\<exists>b. v = PConfig b \<and> b < length (objs s)) \<or> refs v = {}"
      show "dict_refs r = {}"
      proof (cases x)
        case (Inl a)
        then have a: "a < length (objs s)" using pre by simp
        have one: "(\<exists>b. v = PConfig b \<and> b < length (objs s)) \<or> refs v = {}"
          if kv: "(k, v) \<in> set (content s a)" for k v
        proof -
          have "\<forall>x\<in>set (content s a). case x of (k, v) \<Rightarrow> is_config v \<or> refs v = {}"
            using pl a by (simp add: plain_leaves_def list_all_iff)
          then have "is_config v \<or> refs v = {}"
            using kv by fastforce
          then show ?thesis
            using content_refs [OF wf a] kv by (cases v) (auto simp: is_config_def)
        qed
        have "\<forall>(k, v) \<in> set (content s a). (\<exists>b. v = PConfig b \<and> b < length (objs s)) \<or> refs v = {}"
          using one by blast
        then show ?thesis
          using IH [of s "Inr (content s a)" r] eq Inl wf pl by simp
      next
        case (Inr c)
        show ?thesis
        proof (cases c)
          case Nil
          then show ?thesis using Inr eq by simp
        next
          case (Cons kv rest)
          obtain k v where kv: "kv = (k, v)" by fastforce
          obtain v' rest' where v': "(case v of
                      PConfig b \<Rightarrow> do { d \<leftarrow> f s (Inl b); Some (PDict d) }
                    | _ \<Rightarrow> Some v) = Some v'" and rest': "f s (Inr rest) = Some rest'"
              and r: "r = (k, v') # rest'"
            using eq Inr Cons kv by (auto simp: bind_eq_Some_conv)
          have hv: "(\<exists>b. v = PConfig b \<and> b < length (objs s)) \<or> refs v = {}"
            using pre Inr Cons kv by simp
          have "refs v' = {}"
          proof (cases "is_config v")
            case True
            then obtain b where b: "v = PConfig b" by (cases v) (auto simp: is_config_def)
            then obtain d where d: "f s (Inl b) = Some d" "v' = PDict d"
              using v' by (auto simp: bind_eq_Some_conv)
            have "b < length (objs s)" using hv b by simp
            then show ?thesis using IH [OF d(1)] wf pl d(2) by (simp add: dict_refs_def)
          next
            case False
            then have "v' = v" "refs v = {}" using v' hv by (cases v; auto simp: is_config_def)+
            then show ?thesis by simp
          qed
          moreover have "dict_refs rest' = {}"
            using IH [OF rest'] wf pl pre Inr Cons by simp
          ultimately show ?thesis
            using r by simp
        qed
      qed
    qed
  qed
  then show ?thesis
    by simp
qed

subsection \<open>Properties of \<open>fix_contents\<close> and \<open>print_\<close>\<close>

text \<open>
  C33. On a well-formed heap whose references have no cycle (a rank decreases
  along them), \<open>fix_contents\<close> returns: a dictionary with the keys of the node's
  content in order, in which every \<open>Config\<close> value is replaced by a dictionary
  and every other value is kept.
\<close>

theorem fix_contents_total:
  assumes "wf_state s" "ranked s rk" "a < length (objs s)"
  shows "\<exists>d. fix_contents s a = Some d \<and> list_all2 fixed_entry (content s a) d"
  using fix_rec_ranked [OF assms] by (simp add: fix_contents_def)

theorem fix_contents_total_witness:
  "\<exists>d. fix_contents two_level_tree 0 = Some d \<and> list_all2 fixed_entry (content two_level_tree 0) d"
proof -
  have "wf_state two_level_tree"
    by (simp add: two_level_tree_def wf_state_def wf_dict_def wf_val_def)
  moreover have "ranked two_level_tree (\<lambda>a. 3 - a)"
    by (simp add: ranked_def two_level_tree_def content_def upt_rec)
  ultimately show ?thesis
    using fix_contents_total [of two_level_tree "\<lambda>a. 3 - a" 0] by (simp add: two_level_tree_def)
qed

text \<open>
  C34. When a set of nodes each holds a \<open>Config\<close> of the set (a cycle of
  references, e.g. \<open>root.common.me = root.common\<close>), \<open>fix_contents\<close> of any of
  them does not return: the code recurses until Python raises \<open>RecursionError\<close>.
\<close>

theorem fix_contents_cycle:
  assumes "closed_refs s C" "a \<in> C"
  shows "fix_contents s a = None"
proof (cases "fix_contents s a")
  case (Some r)
  then show ?thesis
    using fix_rec_closed [of s "Inl a" r C] assms by (simp add: fix_contents_def)
qed

theorem fix_contents_cycle_witness: "fix_contents self_loop 0 = None"
proof -
  have "closed_refs self_loop {0, 1}"
    by (auto simp: closed_refs_def self_loop_def content_def)
  then show ?thesis
    using fix_contents_cycle [of self_loop "{0, 1}" 0] by simp
qed

text \<open>
  C35. The shape of what \<open>print_\<close> hands to \<open>pprint\<close>: on a well-formed heap in
  which every \<open>Config\<close> a node refers to is the direct value of one of its settings
  (none hidden in a list or in a dict stored as a leaf), the fixed contents of a
  node, when they are computed, hold no \<open>Config\<close> at any depth: only nested plain
  dictionaries and leaf values.
\<close>

theorem fix_contents_plain:
  assumes "wf_state s" "plain_leaves s" "a < length (objs s)" "fix_contents s a = Some d"
  shows "dict_refs d = {}"
  using fix_rec_plain [of s "Inl a" d] assms by (simp add: fix_contents_def)

theorem fix_contents_plain_witness:
  "fix_contents two_level_tree 0 = Some [(''common'', PDict [(''port'', PInt 8080),
      (''web'', PDict [(''host'', PStr ''localhost'')])])]
   \<and> dict_refs [(''common'', PDict [(''port'', PInt 8080),
      (''web'', PDict [(''host'', PStr ''localhost'')])])] = {}"
proof -
  have fc: "fix_contents two_level_tree 0 = Some [(''common'', PDict [(''port'', PInt 8080),
      (''web'', PDict [(''host'', PStr ''localhost'')])])]"
    by (simp add: fix_contents_def fix_rec_Inl fix_rec_Cons fix_rec_Nil content_def two_level_tree_def)
  have "wf_state two_level_tree"
    by (simp add: two_level_tree_def wf_state_def wf_dict_def wf_val_def)
  moreover have "plain_leaves two_level_tree"
    by (simp add: plain_leaves_def two_level_tree_def content_def upt_rec is_config_def)
  moreover have "0 < length (objs two_level_tree)"
    by (simp add: two_level_tree_def)
  ultimately show ?thesis
    using fix_contents_plain [OF _ _ _ fc] fc by blast
qed

text \<open>
  \<open>print_\<close> of a node on such a cycle writes the rule and the title line and
  then does not return; nothing of the contents is printed.
\<close>

theorem print_cycle_partial:
  assumes "closed_refs s C" "a \<in> C"
  shows \<open>print_config s a indent width =
    ([Text (replicate width (CHR ''-'')), Text (''Configuration "'' @ path_of s a @ ''":'')], None)\<close>
proof (cases "fix_contents s a")
  case None
  then show ?thesis
    by (simp add: print_config_def)
next
  case (Some r)
  then show ?thesis
    using fix_rec_closed [of s "Inl a" r C] assms by (simp add: fix_contents_def)
qed

theorem print_cycle_partial_witness:
  \<open>print_config self_loop 0 1 3 = ([Text ''---'', Text ''Configuration "root":''], None)\<close>
proof -
  have "closed_refs self_loop {0, 1}"
    by (auto simp: closed_refs_def self_loop_def content_def)
  then show ?thesis
    using print_cycle_partial [of self_loop "{0, 1}" 0 1 3]
    by (simp add: self_loop_def path_of_def numeral_3_eq_3)
qed

end
