(* ===== verification/FrontendArgs.thy ===== *)
theory FrontendArgs
  imports Complex_Main Prelude
begin

text \<open>
  The data \<open>src/veles/scripts/generate_frontend.py\<close> reads: the \<open>argparse\<close> actions
  of the command-line parser (\<open>parser._actions\<close>), the values they carry, and the
  exceptions the script's functions raise. An action is a record of the
  attributes the script reads; \<open>mode\<close>, \<open>pretty_name\<close> and \<open>important\<close> are the
  optional attributes it reads with \<open>getattr\<close> or \<open>hasattr\<close> (\<open>None\<close> when the
  action lacks the attribute). \<open>kind\<close> is the action's class as the two
  \<open>isinstance\<close> tests see it. Values are rendered with Python's \<open>str\<close>, modelled
  for the values an \<open>argparse\<close> default or choice takes; characters are read as
  Latin-1 code points.
\<close>

datatype argval =
    VNone
  | VBool bool
  | VInt int
  | VStr string
  | VList "argval list"

text \<open>
  The action classes: \<open>_StoreAction\<close> (and its subclasses), \<open>_StoreTrueAction\<close>
  (a subclass of \<open>_StoreConstAction\<close>, not of \<open>_StoreAction\<close>), and every other
  class, by name.
\<close>

datatype action_kind = StoreAction | StoreTrueAction | OtherAction string

record action =
  option_strings :: "string list"
  dest :: string
  nargs :: argval
  default :: argval
  choices :: "argval list option"
  required :: bool
  help_str :: "string option"
  kind :: action_kind
  mode :: "string list option"
  pretty_name :: "string option"
  important :: "int option"

datatype fe_error =
    IndexError \<comment> \<open>\<open>s[i]\<close> out of range\<close>
  | UnboundLocalError string \<comment> \<open>a local variable read before any assignment\<close>
  | TypeError string \<comment> \<open>e.g. \<open>len(None)\<close>\<close>
  | ValueError string \<comment> \<open>raised by a library call\<close>
  | ImportError string \<comment> \<open>an \<open>import\<close> statement that finds no module\<close>

subsection \<open>Python's \<open>str\<close> and \<open>repr\<close>\<close>

definition digit :: "nat \<Rightarrow> char" where
  "digit n = char_of (48 + n)"

fun nat_str :: "nat \<Rightarrow> string" where
  "nat_str n = (if n < 10 then [digit n] else nat_str (n div 10) @ [digit (n mod 10)])"

declare nat_str.simps [simp del]

definition int_str :: "int \<Rightarrow> string" where
  "int_str i = (if i < 0 then CHR ''-'' # nat_str (nat (- i)) else nat_str (nat i))"

definition hex_digit :: "nat \<Rightarrow> char" where
  "hex_digit n = (if n < 10 then char_of (48 + n) else char_of (87 + n))"

text \<open>A character \<open>repr\<close> prints as \<open>\\xhh\<close>: the C0 controls, DEL, the C1 controls,
  NO-BREAK SPACE and SOFT HYPHEN (the Latin-1 code points \<open>str.isprintable\<close> rejects).\<close>

definition unprintable :: "char \<Rightarrow> bool" where
  "unprintable c = (of_char c < (32::nat) \<or> (127 \<le> (of_char c::nat) \<and> (of_char c::nat) \<le> 160)
     \<or> of_char c = (173::nat))"

definition repr_char :: "char \<Rightarrow> char \<Rightarrow> string" where
  "repr_char q c =
     (if c = q \<or> c = CHR 0x5C then [CHR 0x5C, c]
      else if c = CHR 0x09 then [CHR 0x5C, CHR ''t'']
      else if c = CHR 0x0A then [CHR 0x5C, CHR ''n'']
      else if c = CHR 0x0D then [CHR 0x5C, CHR ''r'']
      else if unprintable c then
        [CHR 0x5C, CHR ''x'', hex_digit (of_char c div 16), hex_digit (of_char c mod 16)]
      else [c])"

text \<open>\<open>repr\<close> of a string: single quotes, unless the string holds a single quote
  and no double quote.\<close>

definition repr_str :: "string \<Rightarrow> string" where
  "repr_str s =
     (let q = (if CHR 0x27 \<in> set s \<and> CHR 0x22 \<notin> set s then CHR 0x22 else CHR 0x27)
      in q # concat (map (repr_char q) s) @ [q])"

definition join :: "string \<Rightarrow> string list \<Rightarrow> string" where
  "join sep xs = (case xs of [] \<Rightarrow> [] | x # ys \<Rightarrow> x @ concat (map (\<lambda>y. sep @ y) ys))"

fun argval_repr :: "argval \<Rightarrow> string" where
  "argval_repr VNone = ''None''"
| "argval_repr (VBool b) = (if b then ''True'' else ''False'')"
| "argval_repr (VInt i) = int_str i"
| "argval_repr (VStr s) = repr_str s"
| "argval_repr (VList xs) = ''['' @ join '', '' (map argval_repr xs) @ '']''"

fun argval_str :: "argval \<Rightarrow> string" where
  "argval_str (VStr s) = s"
| "argval_str v = argval_repr v"

text \<open>Python truth value of an argument value.\<close>

fun argval_truthy :: "argval \<Rightarrow> bool" where
  "argval_truthy VNone = False"
| "argval_truthy (VBool b) = b"
| "argval_truthy (VInt i) = (i \<noteq> 0)"
| "argval_truthy (VStr s) = (s \<noteq> [])"
| "argval_truthy (VList xs) = (xs \<noteq> [])"

subsection \<open>Lemmas\<close>

lemma join_simps [simp]:
  "join sep [] = []"
  "join sep [x] = x"
  "join sep (x # y # ys) = x @ sep @ join sep (y # ys)"
  by (simp_all add: join_def)

lemma nat_str_nonempty: "nat_str n \<noteq> []"
  by (subst nat_str.simps) simp

end
