(* ===== verification/FrontendOpts.thy ===== *)
theory FrontendOpts
  imports FrontendArgs
begin

text \<open>
  \<open>generate_opts\<close> of \<open>src/veles/scripts/generate_frontend.py\<close> (lines 142--177): the
  option tables the web form's command-line composer uses. The loop over the
  actions is \<open>gen_loop\<close>; its state \<open>opts_acc\<close> holds the six accumulators of the
  code and the local variable \<open>option_strings\<close>, which Python keeps from one
  iteration to the next: a positional action does not assign it, so the loop
  reads the previous action's list there, and raises \<open>UnboundLocalError\<close> when no
  earlier action assigned it. The alias loop strips the dashes of that list in
  place (the list is the action's own \<open>option_strings\<close>), so the stale list a
  later positional action sees is the stripped one.
\<close>

text \<open>\<open>while s[0] == "-": s = s[1:]\<close>: \<open>IndexError\<close> when the string runs out.\<close>

fun strip_dashes :: "string \<Rightarrow> fe_error + string" where
  "strip_dashes [] = Inl IndexError"
| "strip_dashes (c # s) = (if c = CHR ''-'' then strip_dashes s else Inr (c # s))"

text \<open>
  Lines 166--172: \<open>for i in range(0, len(option_strings), 2)\<close>, stripping
  \<open>option_strings[i]\<close> and \<open>option_strings[i + 1]\<close> in place and recording the
  alias; an odd-length list fails on the last \<open>option_strings[i + 1]\<close>. The result
  is the stripped list and the new alias table.
\<close>

fun alias_pairs :: "string list \<Rightarrow> string dict \<Rightarrow> fe_error + (string list \<times> string dict)" where
  "alias_pairs [] al = Inr ([], al)"
| "alias_pairs [x] al =
     (case strip_dashes x of Inl e \<Rightarrow> Inl e | Inr _ \<Rightarrow> Inl IndexError)"
| "alias_pairs (x # y # rest) al =
     (case strip_dashes x of
        Inl e \<Rightarrow> Inl e
      | Inr x' \<Rightarrow>
          (case strip_dashes y of
             Inl e \<Rightarrow> Inl e
           | Inr y' \<Rightarrow>
               (case alias_pairs rest (dset x' y' al) of
                  Inl e \<Rightarrow> Inl e
                | Inr (rest', al') \<Rightarrow> Inr (x' # y' # rest', al'))))"

record opts_acc =
  string_arguments :: "string list"
  boolean_arguments :: "string list"
  positional_opts :: "string list"
  alias_map :: "string dict"
  choices_of :: "argval list dict"
  defaults_of :: "argval dict"
  cur_option_strings :: "string list option"

definition empty_acc :: opts_acc where
  "empty_acc = \<lparr>string_arguments = [], boolean_arguments = [], positional_opts = [],
     alias_map = [], choices_of = [], defaults_of = [], cur_option_strings = None\<rparr>"

text \<open>Lines 150--159: the option name an action is recorded under, before its
  dashes are stripped: \<open>option_strings[:2][-1]\<close> for an optional argument, the
  destination for a positional one.\<close>

definition gen_head :: "action \<Rightarrow> opts_acc \<Rightarrow> opts_acc \<times> string" where
  "gen_head arg acc =
     (let (acc1, option) =
        (if option_strings arg \<noteq> []
         then (acc\<lparr>cur_option_strings := Some (option_strings arg)\<rparr>,
               last (take 2 (option_strings arg)))
         else (acc\<lparr>positional_opts := positional_opts acc @ [dest arg]\<rparr>, dest arg));
         acc2 = (case choices arg of
                   None \<Rightarrow> acc1
                 | Some c \<Rightarrow> acc1\<lparr>choices_of := dset option c (choices_of acc1)\<rparr>)
      in (acc2\<lparr>defaults_of := dset option (default arg) (defaults_of acc2)\<rparr>, option))"

text \<open>Lines 162--165.\<close>

definition add_kind :: "action \<Rightarrow> string \<Rightarrow> opts_acc \<Rightarrow> opts_acc" where
  "add_kind arg option acc =
     (case kind arg of
        StoreTrueAction \<Rightarrow> acc\<lparr>boolean_arguments := boolean_arguments acc @ [option]\<rparr>
      | StoreAction \<Rightarrow> acc\<lparr>string_arguments := string_arguments acc @ [option]\<rparr>
      | OtherAction _ \<Rightarrow> acc)"

text \<open>Lines 166--172, on the current value of the local \<open>option_strings\<close>.\<close>

definition gen_alias :: "opts_acc \<Rightarrow> fe_error + opts_acc" where
  "gen_alias acc =
     (case cur_option_strings acc of
        None \<Rightarrow> Inl (UnboundLocalError ''option_strings'')
      | Some os \<Rightarrow>
          if 1 < length os then
            (case alias_pairs os (alias_map acc) of
               Inl e \<Rightarrow> Inl e
             | Inr (os', al) \<Rightarrow> Inr (acc\<lparr>alias_map := al, cur_option_strings := Some os'\<rparr>))
          else Inr acc)"

text \<open>One iteration of the loop of lines 149--172.\<close>

definition gen_step :: "action \<Rightarrow> opts_acc \<Rightarrow> fe_error + opts_acc" where
  "gen_step arg acc =
     (case gen_head arg acc of
        (acc1, option) \<Rightarrow>
          (case strip_dashes option of
             Inl e \<Rightarrow> Inl e
           | Inr option' \<Rightarrow> gen_alias (add_kind arg option' acc1)))"

fun gen_loop :: "action list \<Rightarrow> opts_acc \<Rightarrow> fe_error + opts_acc" where
  "gen_loop [] acc = Inr acc"
| "gen_loop (arg # args) acc =
     (case gen_step arg acc of Inl e \<Rightarrow> Inl e | Inr acc' \<Rightarrow> gen_loop args acc')"

text \<open>The returned \<open>opts\<close> dictionary (lines 173--176).\<close>

record opts =
  opt_string :: "string list"
  opt_alias :: "string dict"
  opt_boolean :: "string list"
  opt_stop_early :: bool

definition generate_opts ::
  "action list \<Rightarrow> fe_error + (opts \<times> string list \<times> argval list dict \<times> argval dict)" where
  "generate_opts arguments =
     (case gen_loop arguments empty_acc of
        Inl e \<Rightarrow> Inl e
      | Inr acc \<Rightarrow>
          Inr (\<lparr>opt_string = string_arguments acc, opt_alias = alias_map acc,
                opt_boolean = boolean_arguments acc, opt_stop_early = True\<rparr>,
               positional_opts acc, choices_of acc, defaults_of acc))"

subsection \<open>Specification-level names\<close>

text \<open>
  The pairs the alias loop reads, the dash-stripped form of a string that has
  one, and, for optional arguments spelled with exactly two option strings (a
  short and a long one, as \<open>veles.cmdline\<close> declares them), the tables
  \<open>generate_opts\<close> is meant to build, written as list comprehensions.
  \<open>alias_fixed\<close> is the loop invariant: keys of the alias table are distinct
  and replaying the alias loop on the current \<open>option_strings\<close> changes nothing.
\<close>

fun pairs :: "'a list \<Rightarrow> ('a \<times> 'a) list" where
  "pairs (x # y # rest) = (x, y) # pairs rest"
| "pairs _ = []"

definition strip :: "string \<Rightarrow> string" where
  "strip s = projr (strip_dashes s)"

definition strippable :: "string \<Rightarrow> bool" where
  "strippable s = (\<not> isl (strip_dashes s))"

definition two_flag :: "action \<Rightarrow> bool" where
  "two_flag a = (length (option_strings a) = 2 \<and> list_all strippable (option_strings a))"

definition flag_strings :: "action list \<Rightarrow> action_kind \<Rightarrow> string list" where
  "flag_strings args k = map (\<lambda>a. strip (option_strings a ! 1)) (filter (\<lambda>a. kind a = k) args)"

definition flag_aliases :: "action list \<Rightarrow> string dict" where
  "flag_aliases args = dsets (map (\<lambda>a. (strip (option_strings a ! 0), strip (option_strings a ! 1))) args) []"

definition flag_choices :: "action list \<Rightarrow> argval list dict" where
  "flag_choices args = dsets (concat (map (\<lambda>a. case choices a of None \<Rightarrow> []
     | Some c \<Rightarrow> [(option_strings a ! 1, c)]) args)) []"

definition flag_defaults :: "action list \<Rightarrow> argval dict" where
  "flag_defaults args = dsets (map (\<lambda>a. (option_strings a ! 1, default a)) args) []"

definition alias_fixed :: "opts_acc \<Rightarrow> bool" where
  "alias_fixed acc = (distinct (dkeys (alias_map acc)) \<and>
     (case cur_option_strings acc of None \<Rightarrow> True
      | Some os \<Rightarrow> length os \<le> 1 \<or> alias_pairs os (alias_map acc) = Inr (os, alias_map acc)))"

text \<open>An action \<open>generate_opts\<close> handles: a positional one whose destination has
  a character other than a dash, or an optional one with one or two option
  strings, each with such a character. \<open>cur_ok\<close>: the local \<open>option_strings\<close> is
  bound and the alias loop can run on it.\<close>

definition valid_action :: "action \<Rightarrow> bool" where
  "valid_action a =
     (if option_strings a = [] then strippable (dest a)
      else length (option_strings a) \<le> 2 \<and> list_all strippable (option_strings a))"

definition cur_ok :: "opts_acc \<Rightarrow> bool" where
  "cur_ok acc = (case cur_option_strings acc of None \<Rightarrow> False
     | Some os \<Rightarrow> length os \<le> 1 \<or> (even (length os) \<and> list_all strippable os))"

text \<open>Actions as \<open>argparse\<close> builds them, used to evaluate the properties.\<close>

definition help_action :: action where
  "help_action = \<lparr>option_strings = [''-h'', ''--help''], dest = ''help'', nargs = VInt 0,
     default = VNone, choices = None, required = False,
     help_str = Some ''show this help message and exit'', kind = OtherAction ''_HelpAction'',
     mode = None, pretty_name = None, important = None\<rparr>"

definition verbose_action :: action where
  "verbose_action = help_action\<lparr>option_strings := [''-v'', ''--verbose''], dest := ''verbose'',
     default := VBool False, help_str := Some ''print more'', kind := StoreTrueAction\<rparr>"

definition workflow_action :: action where
  "workflow_action = help_action\<lparr>option_strings := [], dest := ''workflow'', nargs := VNone,
     required := True, help_str := Some ''path to the workflow'', kind := StoreAction\<rparr>"

definition triple_action :: action where
  "triple_action = help_action\<lparr>option_strings := [''-b'', ''--backend'', ''--engine''],
     dest := ''backend'', default := VStr ''auto'',
     choices := Some [VStr ''auto'', VStr ''ocl'', VStr ''cuda''], kind := StoreAction\<rparr>"

lemmas action_defs = help_action_def verbose_action_def workflow_action_def triple_action_def

subsection \<open>Lemmas\<close>


lemma strip_dashes_Inr: "strip_dashes s = Inr t \<Longrightarrow> t \<noteq> [] \<and> hd t \<noteq> CHR ''-''"
  by (induction s) (auto split: if_splits)

lemma strip_dashes_idem [simp]: "strip_dashes s = Inr t \<Longrightarrow> strip_dashes t = Inr t"
  by (induction s) (auto split: if_splits)

lemma gen_loop_append:
  "gen_loop (xs @ ys) acc = (case gen_loop xs acc of Inl e \<Rightarrow> Inl e | Inr acc' \<Rightarrow> gen_loop ys acc')"
  by (induction xs arbitrary: acc) (auto split: sum.split)

lemma strip_dashes_Inl: "strip_dashes s = Inl e \<Longrightarrow> e = IndexError"
  by (induction s) (auto split: if_splits)

lemma strippable_strip: "strippable s \<Longrightarrow> strip_dashes s = Inr (strip s)"
  by (cases "strip_dashes s") (simp_all add: strippable_def strip_def)

lemma alias_pairs_odd: "odd (length os) \<Longrightarrow> alias_pairs os al = Inl IndexError"
  by (induction os al rule: alias_pairs.induct)
     (auto dest: strip_dashes_Inl split: sum.split)

lemma alias_pairs_Inr:
  "alias_pairs os al = Inr (os', al') \<Longrightarrow>
     al' = dsets (pairs os') al \<and> length os' = length os \<and> list_all (\<lambda>s. strip_dashes s = Inr s) os'"
  by (induction os al arbitrary: os' al' rule: alias_pairs.induct)
     (auto split: sum.splits prod.splits)

lemma alias_pairs_stripped:
  "list_all (\<lambda>s. strip_dashes s = Inr s) os \<Longrightarrow> even (length os) \<Longrightarrow>
     alias_pairs os al = Inr (os, dsets (pairs os) al)"
  by (induction os al rule: alias_pairs.induct) auto

lemma alias_pairs_idem:
  assumes "alias_pairs os al = Inr (os', al')" "distinct (dkeys al)"
  shows "alias_pairs os' al' = Inr (os', al')"
proof -
  have "even (length os)"
    using assms(1) alias_pairs_odd by force
  then show ?thesis
    using alias_pairs_Inr [OF assms(1)] alias_pairs_stripped dsets_idem assms(2) by metis
qed

lemma gen_step_two_flag:
  assumes "two_flag arg"
  shows "\<exists>acc'. gen_step arg acc = Inr acc'
    \<and> string_arguments acc' = string_arguments acc @
         (if kind arg = StoreAction then [strip (option_strings arg ! 1)] else [])
    \<and> boolean_arguments acc' = boolean_arguments acc @
         (if kind arg = StoreTrueAction then [strip (option_strings arg ! 1)] else [])
    \<and> positional_opts acc' = positional_opts acc
    \<and> alias_map acc' = dset (strip (option_strings arg ! 0)) (strip (option_strings arg ! 1)) (alias_map acc)
    \<and> choices_of acc' = (case choices arg of None \<Rightarrow> choices_of acc
         | Some c \<Rightarrow> dset (option_strings arg ! 1) c (choices_of acc))
    \<and> defaults_of acc' = dset (option_strings arg ! 1) (default arg) (defaults_of acc)"
proof -
  obtain x y where os: "option_strings arg = [x, y]" "strippable x" "strippable y"
    using assms by (auto simp: two_flag_def numeral_2_eq_2 length_Suc_conv)
  show ?thesis
    using os by (auto simp: gen_step_def gen_head_def gen_alias_def add_kind_def strippable_strip
        split: option.split action_kind.split)
qed

lemma gen_loop_two_flags:
  assumes "list_all two_flag args"
  shows "\<exists>acc'. gen_loop args acc = Inr acc'
    \<and> string_arguments acc' = string_arguments acc @ flag_strings args StoreAction
    \<and> boolean_arguments acc' = boolean_arguments acc @ flag_strings args StoreTrueAction
    \<and> positional_opts acc' = positional_opts acc
    \<and> alias_map acc' = dsets (map (\<lambda>a. (strip (option_strings a ! 0), strip (option_strings a ! 1))) args) (alias_map acc)
    \<and> choices_of acc' = dsets (concat (map (\<lambda>a. case choices a of None \<Rightarrow> []
          | Some c \<Rightarrow> [(option_strings a ! 1, c)]) args)) (choices_of acc)
    \<and> defaults_of acc' = dsets (map (\<lambda>a. (option_strings a ! 1, default a)) args) (defaults_of acc)"
  using assms
proof (induction args arbitrary: acc)
  case Nil
  then show ?case by (simp add: flag_strings_def)
next
  case (Cons arg args)
  obtain acc1 where s: "gen_step arg acc = Inr acc1"
    "string_arguments acc1 = string_arguments acc @
         (if kind arg = StoreAction then [strip (option_strings arg ! 1)] else [])"
    "boolean_arguments acc1 = boolean_arguments acc @
         (if kind arg = StoreTrueAction then [strip (option_strings arg ! 1)] else [])"
    "positional_opts acc1 = positional_opts acc"
    "alias_map acc1 = dset (strip (option_strings arg ! 0)) (strip (option_strings arg ! 1)) (alias_map acc)"
    "choices_of acc1 = (case choices arg of None \<Rightarrow> choices_of acc
         | Some c \<Rightarrow> dset (option_strings arg ! 1) c (choices_of acc))"
    "defaults_of acc1 = dset (option_strings arg ! 1) (default arg) (defaults_of acc)"
    using gen_step_two_flag [of arg acc] Cons.prems by auto
  then show ?case
    using Cons.IH [of acc1] Cons.prems
    by (auto simp: flag_strings_def split: option.split)
qed

lemma gen_head_fields [simp]:
  "alias_map (fst (gen_head arg acc)) = alias_map acc"
  "cur_option_strings (fst (gen_head arg acc)) =
     (if option_strings arg \<noteq> [] then Some (option_strings arg) else cur_option_strings acc)"
  "snd (gen_head arg acc) = (if option_strings arg \<noteq> [] then last (take 2 (option_strings arg)) else dest arg)"
  by (simp_all add: gen_head_def split: option.split)

lemma add_kind_fields [simp]:
  "alias_map (add_kind arg o' acc) = alias_map acc"
  "cur_option_strings (add_kind arg o' acc) = cur_option_strings acc"
  by (simp_all add: add_kind_def split: action_kind.split)

lemma gen_step_eq:
  "gen_step arg acc =
     (case strip_dashes (snd (gen_head arg acc)) of
        Inl e \<Rightarrow> Inl e
      | Inr option' \<Rightarrow> gen_alias (add_kind arg option' (fst (gen_head arg acc))))"
  by (simp only: gen_step_def case_prod_beta)

lemma gen_alias_Inr:
  "gen_alias acc = Inr acc' \<Longrightarrow> \<exists>os. cur_option_strings acc = Some os \<and>
     (if 1 < length os then \<exists>os'. alias_pairs os (alias_map acc) = Inr (os', alias_map acc')
        \<and> cur_option_strings acc' = Some os'
      else alias_map acc' = alias_map acc \<and> cur_option_strings acc' = Some os)"
  by (auto simp: gen_alias_def split: option.splits if_splits sum.splits prod.splits)

lemma gen_step_fixed:
  assumes "gen_step arg acc = Inr acc'" "alias_fixed acc"
  shows "alias_fixed acc'"
proof -
  obtain o' where ga: "gen_alias (add_kind arg o' (fst (gen_head arg acc))) = Inr acc'"
    using assms(1) by (auto simp: gen_step_eq split: sum.splits)
  have al: "alias_map (add_kind arg o' (fst (gen_head arg acc))) = alias_map acc"
    by simp
  have d: "distinct (dkeys (alias_map acc))"
    using assms(2) by (simp add: alias_fixed_def)
  obtain os where os: "cur_option_strings (add_kind arg o' (fst (gen_head arg acc))) = Some os"
    and br: "if 1 < length os then \<exists>os'. alias_pairs os (alias_map acc) = Inr (os', alias_map acc')
        \<and> cur_option_strings acc' = Some os'
      else alias_map acc' = alias_map acc \<and> cur_option_strings acc' = Some os"
    using gen_alias_Inr [OF ga] al by metis
  show ?thesis
  proof (cases "1 < length os")
    case True
    then obtain os' where p: "alias_pairs os (alias_map acc) = Inr (os', alias_map acc')"
      and c: "cur_option_strings acc' = Some os'"
      using br by auto
    then show ?thesis
      using alias_pairs_idem [OF p d] alias_pairs_Inr [OF p] d
      by (simp add: alias_fixed_def)
  next
    case False
    then show ?thesis
      using br d by (simp add: alias_fixed_def)
  qed
qed

lemma gen_alias_agree:
  assumes "gen_alias acc = Inr acc'" "cur_option_strings accf = cur_option_strings acc"
    "alias_map accf = alias_map acc"
  shows "\<exists>accf'. gen_alias accf = Inr accf' \<and> alias_map accf' = alias_map acc'"
  using assms by (auto simp: gen_alias_def split: option.splits if_splits sum.splits prod.splits)

lemma gen_step_flag_agree:
  assumes "option_strings arg \<noteq> []" "gen_step arg acc = Inr acc'" "alias_map accf = alias_map acc"
  shows "\<exists>accf'. gen_step arg accf = Inr accf' \<and> alias_map accf' = alias_map acc'"
proof -
  obtain o' where o': "strip_dashes (snd (gen_head arg acc)) = Inr o'"
    and ga: "gen_alias (add_kind arg o' (fst (gen_head arg acc))) = Inr acc'"
    using assms(2) by (auto simp: gen_step_eq split: sum.splits)
  obtain accf' where "gen_alias (add_kind arg o' (fst (gen_head arg accf))) = Inr accf'"
    "alias_map accf' = alias_map acc'"
    using gen_alias_agree [OF ga, of "add_kind arg o' (fst (gen_head arg accf))"] assms(1,3) by auto
  moreover have "strip_dashes (snd (gen_head arg accf)) = Inr o'"
    using o' assms(1) by simp
  ultimately show ?thesis
    by (simp add: gen_step_eq)
qed

lemma gen_step_positional:
  assumes "option_strings arg = []" "gen_step arg acc = Inr acc'" "alias_fixed acc"
  shows "alias_map acc' = alias_map acc"
proof -
  obtain o' where ga: "gen_alias (add_kind arg o' (fst (gen_head arg acc))) = Inr acc'"
    using assms(2) by (auto simp: gen_step_eq split: sum.splits)
  obtain os where os: "cur_option_strings acc = Some os"
    and br: "if 1 < length os then \<exists>os'. alias_pairs os (alias_map acc) = Inr (os', alias_map acc')
        \<and> cur_option_strings acc' = Some os'
      else alias_map acc' = alias_map acc \<and> cur_option_strings acc' = Some os"
  proof -
    have "alias_map (add_kind arg o' (fst (gen_head arg acc))) = alias_map acc"
      "cur_option_strings (add_kind arg o' (fst (gen_head arg acc))) = cur_option_strings acc"
      using assms(1) by simp_all
    then show ?thesis
      using gen_alias_Inr [OF ga] that by metis
  qed
  then show ?thesis
    using assms(3) by (auto simp: alias_fixed_def split: if_splits)
qed

lemma gen_loop_filter_alias:
  assumes "gen_loop args acc = Inr r" "alias_fixed acc" "alias_map accf = alias_map acc"
  shows "\<exists>rf. gen_loop (filter (\<lambda>a. option_strings a \<noteq> []) args) accf = Inr rf
    \<and> alias_map rf = alias_map r"
  using assms
proof (induction args arbitrary: acc accf)
  case Nil
  then show ?case by simp
next
  case (Cons arg args)
  obtain acc1 where s: "gen_step arg acc = Inr acc1" "gen_loop args acc1 = Inr r"
    using Cons.prems(1) by (auto split: sum.splits)
  have fx: "alias_fixed acc1"
    using gen_step_fixed [OF s(1) Cons.prems(2)] .
  show ?case
  proof (cases "option_strings arg = []")
    case True
    then show ?thesis
      using Cons.IH [OF s(2) fx] gen_step_positional [OF True s(1) Cons.prems(2)] Cons.prems(3)
      by simp
  next
    case False
    then obtain accf1 where "gen_step arg accf = Inr accf1" "alias_map accf1 = alias_map acc1"
      using gen_step_flag_agree [OF False s(1) Cons.prems(3)] by blast
    then show ?thesis
      using Cons.IH [OF s(2) fx, of accf1] False by simp
  qed
qed

lemma alias_pairs_ok:
  "even (length os) \<Longrightarrow> list_all strippable os \<Longrightarrow> \<exists>r. alias_pairs os al = Inr r"
proof (induction os al rule: alias_pairs.induct)
  case (3 x y rest al)
  then obtain r where "alias_pairs rest (dset (strip x) (strip y) al) = Inr r"
    using strippable_strip by fastforce
  then show ?case
    using "3.prems" by (cases r) (simp add: strippable_strip)
qed simp_all

lemma stripped_strippable: "strip_dashes s = Inr s \<Longrightarrow> strippable s"
  by (simp add: strippable_def)

lemma gen_alias_ok:
  assumes "cur_ok acc"
  shows "\<exists>acc'. gen_alias acc = Inr acc' \<and> cur_ok acc'"
proof -
  obtain os where os: "cur_option_strings acc = Some os"
    "length os \<le> 1 \<or> (even (length os) \<and> list_all strippable os)"
    using assms by (auto simp: cur_ok_def split: option.splits)
  show ?thesis
  proof (cases "1 < length os")
    case True
    then obtain os' al where p: "alias_pairs os (alias_map acc) = Inr (os', al)"
      using os(2) alias_pairs_ok by fastforce
    then have "length os' = length os" "list_all strippable os'"
      using alias_pairs_Inr [OF p] by (auto simp: list_all_iff stripped_strippable)
    then show ?thesis
      using os p True by (simp add: gen_alias_def cur_ok_def)
  next
    case False
    then show ?thesis
      using os by (simp add: gen_alias_def cur_ok_def)
  qed
qed

lemma gen_step_valid:
  assumes "valid_action a" "option_strings a = [] \<Longrightarrow> cur_ok acc"
  shows "\<exists>acc'. gen_step a acc = Inr acc' \<and> cur_ok acc'"
proof -
  have "strippable (snd (gen_head a acc))"
    using assms(1) by (cases "option_strings a")
      (auto simp: valid_action_def list_all_iff dest: in_set_takeD intro: last_in_set split: if_splits)
  moreover have "cur_ok (add_kind a o' (fst (gen_head a acc)))" for o'
    using assms by (auto simp: cur_ok_def valid_action_def le_Suc_eq numeral_2_eq_2)
  ultimately show ?thesis
    using gen_alias_ok by (auto simp: gen_step_eq strippable_strip)
qed

lemma gen_loop_valid:
  assumes "list_all valid_action args" "args \<noteq> [] \<Longrightarrow> option_strings (hd args) = [] \<Longrightarrow> cur_ok acc"
  shows "\<exists>acc'. gen_loop args acc = Inr acc'"
  using assms
proof (induction args arbitrary: acc)
  case Nil
  then show ?case by simp
next
  case (Cons a args)
  obtain acc1 where "gen_step a acc = Inr acc1" "cur_ok acc1"
    using gen_step_valid [of a acc] Cons.prems by auto
  then show ?case
    using Cons.IH [of acc1] Cons.prems by simp
qed

lemma add_kind_help: "add_kind (a\<lparr>help_str := h\<rparr>) = add_kind a"
  by (simp add: add_kind_def fun_eq_iff)

lemma gen_head_help: "gen_head (a\<lparr>help_str := h\<rparr>) = gen_head a"
  by (simp add: gen_head_def fun_eq_iff)

lemma gen_step_help [simp]: "gen_step (a\<lparr>help_str := h\<rparr>) acc = gen_step a acc"
  by (simp only: gen_step_def add_kind_help gen_head_help)

lemma gen_loop_help: "gen_loop (map (\<lambda>a. a\<lparr>help_str := f a\<rparr>) args) acc = gen_loop args acc"
  by (induction args arbitrary: acc) (simp_all split: sum.split)

subsection \<open>Properties of \<open>generate_opts\<close>\<close>

lemma strip_dashes_plain: "s \<noteq> [] \<Longrightarrow> hd s \<noteq> CHR ''-'' \<Longrightarrow> strip_dashes s = Inr s"
  by (cases s) auto

lemma gen_step_odd:
  assumes "odd (length (option_strings arg))" "1 < length (option_strings arg)"
  shows "gen_step arg acc = Inl IndexError"
proof (cases "strip_dashes (snd (gen_head arg acc))")
  case (Inl e)
  then show ?thesis
    using strip_dashes_Inl by (simp add: gen_step_eq)
next
  case (Inr o')
  then show ?thesis
    using assms alias_pairs_odd by (auto simp: gen_step_eq gen_alias_def)
qed

text \<open>
  C23. The dash-stripping loop \<open>while option[0] == "-": option = option[1:]\<close> is
  \<open>str.lstrip("-")\<close> (\<open>dropWhile\<close>), except that it raises \<open>IndexError\<close>
  where \<open>lstrip\<close> would return the empty string: on an empty name or a name made
  of dashes only.
\<close>

theorem strip_dashes_lstrip:
  "strip_dashes s = (let t = dropWhile (\<lambda>c. c = CHR ''-'') s in if t = [] then Inl IndexError else Inr t)"
  by (induction s) auto

text \<open>
  C24. For optional arguments each spelled with a short and a long option string,
  \<open>generate_opts\<close> succeeds and returns: the dash-stripped long names of the
  store actions and of the store-true actions, in order; the alias table mapping
  each stripped short name to the stripped long name; no positional options; and
  the choices and defaults keyed by the long option string with its dashes.
\<close>

theorem generate_opts_flags:
  assumes "list_all two_flag args"
  shows "generate_opts args = Inr (\<lparr>opt_string = flag_strings args StoreAction,
     opt_alias = flag_aliases args, opt_boolean = flag_strings args StoreTrueAction,
     opt_stop_early = True\<rparr>, [], flag_choices args, flag_defaults args)"
  using gen_loop_two_flags [OF assms, of empty_acc]
  by (auto simp: generate_opts_def empty_acc_def flag_aliases_def flag_choices_def flag_defaults_def)

theorem generate_opts_flags_witness:
  "generate_opts [help_action, verbose_action] = Inr (\<lparr>opt_string = [],
     opt_alias = [(''h'', ''help''), (''v'', ''verbose'')], opt_boolean = [''verbose''],
     opt_stop_early = True\<rparr>, [], [], [(''--help'', VNone), (''--verbose'', VBool False)])"
proof -
  have "list_all two_flag [help_action, verbose_action]"
    by (simp add: two_flag_def strippable_def action_defs)
  then show ?thesis
    using generate_opts_flags [of "[help_action, verbose_action]"]
    by (simp add: flag_strings_def flag_aliases_def flag_choices_def flag_defaults_def
        strip_def action_defs)
qed

text \<open>
  C25. A positional argument reuses the \<open>option_strings\<close> of the last optional
  argument before it (the local variable is not reassigned) and runs the alias
  loop on it again; this never changes the alias table: whenever
  \<open>generate_opts\<close> succeeds, its alias table is the one it builds from the
  optional arguments alone.
\<close>

theorem positional_keeps_alias:
  assumes "generate_opts args = Inr (ops, p, c, d)"
  shows "\<exists>r. generate_opts (filter (\<lambda>a. option_strings a \<noteq> []) args) = Inr r \<and> opt_alias (fst r) = opt_alias ops"
proof -
  obtain acc where "gen_loop args empty_acc = Inr acc" "opt_alias ops = alias_map acc"
    using assms by (auto simp: generate_opts_def split: sum.splits)
  moreover have "alias_fixed empty_acc"
    by (simp add: alias_fixed_def empty_acc_def)
  ultimately show ?thesis
    using gen_loop_filter_alias [of args empty_acc acc empty_acc]
    by (auto simp: generate_opts_def)
qed

theorem positional_keeps_alias_witness:
  "\<exists>r. generate_opts (filter (\<lambda>a. option_strings a \<noteq> []) [help_action, verbose_action, workflow_action])
     = Inr r \<and> opt_alias (fst r) = [(''h'', ''help''), (''v'', ''verbose'')]"
proof -
  have "generate_opts [help_action, verbose_action, workflow_action] = Inr (\<lparr>opt_string = [''workflow''],
     opt_alias = [(''h'', ''help''), (''v'', ''verbose'')], opt_boolean = [''verbose''],
     opt_stop_early = True\<rparr>, [''workflow''], [],
     [(''--help'', VNone), (''--verbose'', VBool False), (''workflow'', VNone)])"
    by (simp add: generate_opts_def empty_acc_def gen_step_def gen_head_def add_kind_def
        gen_alias_def action_defs)
  from positional_keeps_alias [OF this] show ?thesis
    by simp
qed

text \<open>
  C26. An optional argument with an odd number of option strings, three or more,
  makes \<open>generate_opts\<close> raise \<open>IndexError\<close>: the alias loop steps through the
  list two at a time and reads \<open>option_strings[i + 1]\<close> past its end.
\<close>

theorem odd_option_strings_fail:
  assumes "\<not> isl (gen_loop pre empty_acc)" "odd (length (option_strings arg))"
    "1 < length (option_strings arg)"
  shows "generate_opts (pre @ arg # post) = Inl IndexError"
  using assms gen_step_odd [OF assms(2,3)]
  by (cases "gen_loop pre empty_acc") (simp_all add: generate_opts_def gen_loop_append)

theorem odd_option_strings_fail_witness:
  "generate_opts [help_action, triple_action] = Inl IndexError"
proof -
  have "\<not> isl (gen_loop [help_action] empty_acc)"
    by (simp add: empty_acc_def gen_step_def gen_head_def add_kind_def gen_alias_def action_defs)
  then show ?thesis
    using odd_option_strings_fail [of "[help_action]" triple_action "[]"]
    by (simp add: action_defs)
qed

text \<open>
  C27. When the first action is positional, \<open>generate_opts\<close> raises
  \<open>UnboundLocalError\<close>: it reads \<open>option_strings\<close> before any optional argument
  has assigned it.
\<close>

theorem positional_first_unbound:
  assumes "option_strings arg = []" "dest arg \<noteq> []" "hd (dest arg) \<noteq> CHR ''-''"
  shows "generate_opts (arg # rest) = Inl (UnboundLocalError ''option_strings'')"
  using assms strip_dashes_plain [OF assms(2,3)]
  by (simp add: generate_opts_def gen_step_eq gen_alias_def empty_acc_def)

theorem positional_first_unbound_witness:
  "generate_opts [workflow_action, help_action] = Inl (UnboundLocalError ''option_strings'')"
  using positional_first_unbound [of workflow_action "[help_action]"] by (simp add: action_defs)

text \<open>
  C28. \<open>generate_opts\<close> returns, without raising, for every list of actions it
  handles whose first action is optional: the local \<open>option_strings\<close> is bound
  from the first iteration on, and every alias loop runs on a list of even length
  or of length one.
\<close>

theorem generate_opts_total:
  assumes "list_all valid_action args" "args = [] \<or> option_strings (hd args) \<noteq> []"
  shows "\<exists>r. generate_opts args = Inr r"
  using gen_loop_valid [of args empty_acc] assms
  by (auto simp: generate_opts_def split: sum.split)

theorem generate_opts_total_witness:
  "\<exists>r. generate_opts [help_action, verbose_action, workflow_action] = Inr r"
  using generate_opts_total [of "[help_action, verbose_action, workflow_action]"]
  by (simp add: valid_action_def strippable_def action_defs)

end
