(* ===== verification/FrontendHtml.thy ===== *)
theory FrontendHtml
  imports FrontendOpts "HOL-Library.Multiset" "HOL-Library.List_Lexorder" "HOL-Library.Char_ord" "HOL-Library.Product_Lexorder"
begin

text \<open>
  The HTML rows of \<open>src/veles/scripts/generate_frontend.py\<close>: \<open>convert_argument\<close>
  (lines 180--231) and the widgets \<open>convert_workflow\<close>, \<open>convert_string\<close>,
  \<open>convert_boolean\<close> and \<open>convert_choices\<close> (lines 234--297), and the part of
  \<open>main\<close> (lines 71--79) that computes the page's argument rows and option tables
  from the parser's actions. A template is the literal of the code, line by line;
  \<open>pct\<close> is the \<open>%\<close> operator on a format that has only \<open>%s\<close> holes.
  \<open>convert_argument\<close> appends a full stop to the help text of the action and
  stores it back (\<open>arg.help += '.'\<close>), so it returns the updated action; \<open>main\<close>
  passes the updated actions on to \<open>generate_opts\<close>. A row is the triple
  \<open>(imp, key, template_line)\<close> the code sorts; the float \<open>imp\<close> is a rational
  (\<open>-float(required) / index\<close> is exact up to a rounding that keeps the order of
  the values compared).
\<close>

definition nl :: string where
  "nl = [CHR 0x0A]"

definition sq :: string where
  "sq = [CHR 0x27]"

text \<open>A triple-quoted literal that starts with a line break.\<close>

definition text_lines :: "string list \<Rightarrow> string" where
  "text_lines ls = concat (map (\<lambda>l. nl @ l) ls)"

fun pct :: "string \<Rightarrow> string list \<Rightarrow> string" where
  "pct [] as = []"
| "pct (c # r) as =
     (case (r, as) of
        (d # r', a # as') \<Rightarrow> if c = CHR ''%'' \<and> d = CHR ''s'' then a @ pct r' as' else c # pct r as
      | _ \<Rightarrow> c # pct r as)"

definition workflow_template :: string where
  \<open>workflow_template = text_lines
    [''                    <div class="input-group" id = "scrollable-dropdown-menu">'',
     ''                     <span class="input-group-addon">%s</span>'',
     ''                     <input type="text" class="typeahead form-control %s"'',
     ''                      placeholder="%s" id="%s">'',
     ''                    </div>'']\<close>

definition string_template :: string where
  \<open>string_template = text_lines
    [''                    <div class="input-group">'',
     ''                     <span class="input-group-addon">%s</span>'',
     ''                     <input type="text" class="form-control %s"'',
     ''                      placeholder="%s" id="%s">'',
     ''                    </div>'']\<close>

definition boolean_template :: string where
  \<open>boolean_template = text_lines
    [''                    <div class="bootstrap-switch-container">'',
     ''                      <input type="checkbox" class="switch %s"'',
     ''                       data-on-text="Yes"'',
     ''                       data-off-text="No" data-size="large" %sid="%s"/>'',
     ''                    </div>'']\<close>

definition choice_item_template :: string where
  \<open>choice_item_template = text_lines
    [''            <li role="presentation"><a role="menuitem"tabindex="-1"'',
     ''            href="javascript:select('' @ sq @ ''%s'' @ sq @ '', '' @ sq @ ''%s'' @ sq @ '')">%s</a></li>'']\<close>

definition choices_template :: string where
  \<open>choices_template = text_lines
    [''                <div class="dropdown">'',
     ''                  <button class="btn btn-default dropdown-toggle %s"'',
     ''                  type="button" id="dropdown_menu%s" data-toggle="dropdown"'',
     ''                  >'',
     ''                    %s'',
     ''                    <span class="caret"></span>'',
     ''                  </button>'',
     ''                  <ul class="dropdown-menu %s" role="menu"'',
     ''                  aria-labelledby="dropdown_menu" id="%s">'',
     ''                    %s'',
     ''                  </ul>'',
     ''                </div>'']\<close>

definition argument_template :: string where
  \<open>argument_template = text_lines
    [''            <div class="panel panel-primary argument %s">'',
     ''                <div class="panel-heading %s">'',
     ''                  <span class="label label-%s argtype">%s</span>'',
     ''                  <h3 class="panel-title">%s</h3>'',
     ''                </div>'',
     ''                <div class="panel-body">'',
     ''                    <div class="pull-right description">'',
     ''                      <p>%s</p>'',
     ''                    </div>'',
     ''                    %s'',
     ''                </div>'',
     ''            </div>'']\<close>

text \<open>Lines 234--244.\<close>

definition convert_workflow :: "action \<Rightarrow> string list \<Rightarrow> string \<Rightarrow> string" where
  "convert_workflow arg arg_mode os =
     pct workflow_template [dest arg, join '' '' arg_mode, argval_str (default arg), os]"

text \<open>Lines 247--257.\<close>

definition convert_string :: "action \<Rightarrow> string list \<Rightarrow> string \<Rightarrow> string" where
  "convert_string arg arg_mode os =
     pct string_template [dest arg, join '' '' arg_mode, argval_str (default arg), os]"

text \<open>Lines 260--269.\<close>

definition convert_boolean :: "action \<Rightarrow> string list \<Rightarrow> string \<Rightarrow> string" where
  "convert_boolean arg arg_mode os =
     pct boolean_template
       [join '' '' arg_mode, if argval_truthy (default arg) then ''checked'' else [], os]"

text \<open>Lines 272--297; iterating \<open>None\<close> raises \<open>TypeError\<close>.\<close>

definition convert_choices :: "action \<Rightarrow> string list \<Rightarrow> string \<Rightarrow> fe_error + string" where
  "convert_choices arg arg_mode os =
     (case choices arg of
        None \<Rightarrow> Inl (TypeError ''NoneType object is not iterable'')
      | Some cs \<Rightarrow>
          (let choices_lines =
             concat (map (\<lambda>c. pct choice_item_template [argval_str c, os, argval_str c]) cs)
           in Inr (pct choices_template [join '' '' arg_mode, os, argval_str (default arg),
                     join '' '' arg_mode, os, choices_lines])))"

text \<open>\<open>str.capitalize\<close> of a one-character string (\<open>arg.help[0]\<close>): a Latin-1
  lower-case letter maps to its capital and sharp s to \<open>Ss\<close> (its title case);
  the micro sign and y with diaeresis, whose capitals lie outside Latin-1, which
  is all a character of the model can hold, are kept.\<close>

definition capitalize_char :: "char \<Rightarrow> string" where
  "capitalize_char c =
     (let n = (of_char c :: nat)
      in if n = 223 then ''Ss''
         else if (97 \<le> n \<and> n \<le> 122) \<or> (224 \<le> n \<and> n \<le> 254 \<and> n \<noteq> 247) then [char_of (n - 32)]
         else [c])"

text \<open>\<open>s.replace("%%", "%")\<close>: left to right, without overlaps.\<close>

fun replace_pct :: "string \<Rightarrow> string" where
  "replace_pct [] = []"
| "replace_pct (c # r) =
     (case r of
        d # r' \<Rightarrow> if c = CHR ''%'' \<and> d = CHR ''%'' then CHR ''%'' # replace_pct r' else c # replace_pct r
      | [] \<Rightarrow> [c])"

text \<open>Lines 185--190, on a help text that is a string.\<close>

definition normalize_help :: "string \<Rightarrow> string" where
  "normalize_help h =
     (if h = [] then h
      else
        let h1 = (if last h \<noteq> CHR ''.'' then h @ ''.'' else h);
            h2 = capitalize_char (hd h1) @ tl h1
        in replace_pct h2)"

text \<open>Line 184.\<close>

definition is_required :: "action \<Rightarrow> bool" where
  "is_required arg = (required arg \<and> nargs arg \<noteq> VStr ''*'')"

text \<open>Lines 211--213: the sort key that puts mandatory and important arguments first.\<close>

definition importance_of :: "nat \<Rightarrow> action \<Rightarrow> rat" where
  "importance_of index arg =
     (case important arg of
        None \<Rightarrow> - of_bool (is_required arg) / of_nat index
      | Some i \<Rightarrow> - of_int i / of_nat index)"

text \<open>Lines 193--200: the title, the sort key and the element id of an argument.\<close>

definition title_key_id :: "action \<Rightarrow> string \<times> string \<times> string" where
  "title_key_id arg =
     (if option_strings arg \<noteq> []
      then (join '', '' (option_strings arg), last (option_strings arg),
            last (take 2 (option_strings arg)))
      else (let t = (case pretty_name arg of None \<Rightarrow> dest arg | Some p \<Rightarrow> p) in (t, t, dest arg)))"

text \<open>Lines 201--210.\<close>

definition arg_line_of :: "action \<Rightarrow> string list \<Rightarrow> string \<Rightarrow> fe_error + string" where
  "arg_line_of arg arg_mode os =
     (if dest arg = ''workflow'' then Inr (convert_workflow arg arg_mode os)
      else if choices arg \<noteq> None then convert_choices arg arg_mode os
      else (case kind arg of
              StoreTrueAction \<Rightarrow> Inr (convert_boolean arg arg_mode os)
            | StoreAction \<Rightarrow> Inr (convert_string arg arg_mode os)
            | OtherAction _ \<Rightarrow> Inr []))"

text \<open>Lines 180--231. \<open>len(None)\<close> raises \<open>TypeError\<close> for an action without help.\<close>

definition convert_argument :: "nat \<Rightarrow> action \<Rightarrow> fe_error + ((rat \<times> string \<times> string) \<times> action)" where
  "convert_argument index0 arg =
     (let index = Suc index0
      in case help_str arg of
           None \<Rightarrow> Inl (TypeError ''object of type NoneType has no len()'')
         | Some h \<Rightarrow>
             (let h' = normalize_help h;
                  arg_mode = (case mode arg of None \<Rightarrow> [''standalone'', ''master'', ''slave''] | Some m \<Rightarrow> m);
                  (title, key, os) = title_key_id arg;
                  importance = (if is_required arg then ''Mandatory'' else ''Optional'');
                  importance_class = (if is_required arg then ''danger'' else ''default'')
              in case arg_line_of arg arg_mode os of
                   Inl e \<Rightarrow> Inl e
                 | Inr arg_line \<Rightarrow>
                     Inr ((importance_of index arg, key,
                           pct argument_template [join '' '' arg_mode, join '' '' arg_mode,
                             importance_class, importance, title, h', arg_line]),
                          arg\<lparr>help_str := Some h'\<rparr>)))"

text \<open>Lines 73--74: \<open>[convert_argument(*ia) for ia in enumerate(arguments)]\<close>.\<close>

fun convert_all :: "nat \<Rightarrow> action list \<Rightarrow> fe_error + ((rat \<times> string \<times> string) list \<times> action list)" where
  "convert_all i [] = Inr ([], [])"
| "convert_all i (a # as) =
     (case convert_argument i a of
        Inl e \<Rightarrow> Inl e
      | Inr (r, a') \<Rightarrow>
          (case convert_all (Suc i) as of
             Inl e \<Rightarrow> Inl e
           | Inr (rs, as') \<Rightarrow> Inr (r # rs, a' # as')))"

text \<open>Lines 71--79: the rows in sorted order, joined, and the option tables of the
  actions as \<open>convert_argument\<close> left them.\<close>

definition frontend_tables ::
  "action list \<Rightarrow> fe_error + (string \<times> opts \<times> string list \<times> argval list dict \<times> argval dict)" where
  "frontend_tables arguments =
     (case convert_all 0 arguments of
        Inl e \<Rightarrow> Inl e
      | Inr (rows, arguments') \<Rightarrow>
          (let html = concat (map (\<lambda>r. snd (snd r)) (sort rows))
           in case generate_opts arguments' of
                Inl e \<Rightarrow> Inl e
              | Inr (opts, positional, chs, dfl) \<Rightarrow> Inr (html, opts, positional, chs, dfl)))"

text \<open>An action as \<open>convert_argument\<close> leaves it: its help text normalised.\<close>

definition normalized :: "action \<Rightarrow> action" where
  "normalized a = a\<lparr>help_str := map_option normalize_help (help_str a)\<rparr>"

subsection \<open>Lemmas\<close>

lemma replace_pct_Cons: "\<exists>t. replace_pct (c # r) = c # t"
  by (cases r) auto

lemma replace_pct_Nil [simp]: "replace_pct s = [] \<longleftrightarrow> s = []"
  by (metis list.distinct(1) neq_Nil_conv replace_pct.simps(1) replace_pct_Cons)




lemma capitalize_char_dot [simp]: "capitalize_char CHR ''.'' = ''.''"
  by (simp add: capitalize_char_def)



lemma arg_line_of_Inr: "\<exists>l. arg_line_of arg m os = Inr l"
  by (auto simp: arg_line_of_def convert_choices_def split: option.split action_kind.split)

lemma convert_argument_None: "help_str arg = None \<Longrightarrow> isl (convert_argument i arg)"
  by (simp add: convert_argument_def)

lemma convert_argument_Some:
  assumes "help_str arg = Some h"
  shows "\<exists>line. convert_argument i arg = Inr ((importance_of (Suc i) arg, fst (snd (title_key_id arg)), line),
    normalized arg)"
proof -
  obtain t k os where tk: "title_key_id arg = (t, k, os)"
    by (cases "title_key_id arg") auto
  obtain l where "arg_line_of arg (case mode arg of None \<Rightarrow> [''standalone'', ''master'', ''slave''] | Some m \<Rightarrow> m) os = Inr l"
    using arg_line_of_Inr by blast
  then show ?thesis
    using assms tk by (simp add: convert_argument_def normalized_def Let_def)
qed

lemma upt_Suc_Cons: "[k..<k + Suc n] = k # [Suc k..<Suc k + n]"
  by (subst upt_rec) simp

lemma convert_all_Inr:
  assumes "list_all (\<lambda>a. help_str a \<noteq> None) args"
  shows "\<exists>rows. convert_all i args = Inr (rows, map normalized args)
    \<and> map fst rows = map (\<lambda>(j, a). importance_of j a) (zip [Suc i..<Suc i + length args] args)
    \<and> map (\<lambda>r. fst (snd r)) rows = map (\<lambda>a. fst (snd (title_key_id a))) args"
  using assms
proof (induction args arbitrary: i)
  case Nil
  then show ?case by simp
next
  case (Cons a args)
  obtain h where h: "help_str a = Some h"
    using Cons.prems by auto
  obtain line where c: "convert_argument i a = Inr ((importance_of (Suc i) a, fst (snd (title_key_id a)), line),
    normalized a)"
    using convert_argument_Some [OF h] by blast
  obtain rows where r: "convert_all (Suc i) args = Inr (rows, map normalized args)"
    "map fst rows = map (\<lambda>(j, a). importance_of j a) (zip [Suc (Suc i)..<Suc (Suc i) + length args] args)"
    "map (\<lambda>r. fst (snd r)) rows = map (\<lambda>a. fst (snd (title_key_id a))) args"
    using Cons.IH [of "Suc i"] Cons.prems by auto
  have "[Suc i..<Suc i + length (a # args)] = Suc i # [Suc (Suc i)..<Suc (Suc i) + length args]"
    by (metis length_Cons upt_Suc_Cons)
  then show ?case
    using c r by simp
qed

lemma sort_split:
  fixes xs :: "'a::linorder list"
  assumes "\<forall>x\<in>set xs. \<forall>y\<in>set xs. P x \<longrightarrow> \<not> P y \<longrightarrow> x < y"
  shows "sort xs = sort (filter P xs) @ sort (filter (\<lambda>x. \<not> P x) xs)"
proof (rule properties_for_sort)
  show "mset (sort (filter P xs) @ sort (filter (\<lambda>x. \<not> P x) xs)) = mset xs"
    by simp
  show "sorted (sort (filter P xs) @ sort (filter (\<lambda>x. \<not> P x) xs))"
    using assms by (auto simp: sorted_append less_imp_le)
qed

lemma sorted_by_fst:
  fixes xs :: "('a::linorder \<times> 'b::linorder) list"
  assumes "sorted_wrt (<) (map fst xs)"
  shows "sorted xs"
proof -
  have "sorted_wrt (\<lambda>x y. fst x < fst y) xs"
    using assms by (simp add: sorted_wrt_map)
  then show ?thesis
    by (rule sorted_wrt_mono_rel [rotated]) (simp add: less_eq_prod_def)
qed

lemma inverse_add_le: "0 < k \<Longrightarrow> 1 / (of_nat k + of_nat i :: rat) \<le> 1 / of_nat k"
  by (rule divide_left_mono) simp_all

lemma importance_plain: "important a = None \<Longrightarrow>
  importance_of j a = (if is_required a then - 1 / of_nat j else 0)"
  by (simp add: importance_of_def)

lemma importance_lower:
  assumes "list_all (\<lambda>a. important a = None) args" "0 < k"
  shows "\<forall>y \<in> set (map (\<lambda>(j, a). importance_of j a) (zip [k..<k + length args] args)).
    y < 0 \<longrightarrow> - 1 / of_nat k \<le> y"
  using assms by (auto simp: set_zip list_all_length importance_plain inverse_add_le split: if_splits)

lemma importance_sorted:
  assumes "list_all (\<lambda>a. important a = None) args" "0 < k"
  shows "sorted_wrt (<) (filter (\<lambda>y. y < 0) (map (\<lambda>(j, a). importance_of j a) (zip [k..<k + length args] args)))"
  using assms
proof (induction args arbitrary: k)
  case Nil
  then show ?case by simp
next
  case (Cons a args)
  have u: "[k..<k + length (a # args)] = k # [Suc k..<Suc k + length args]"
    by (metis length_Cons upt_Suc_Cons)
  have "- 1 / of_nat k < (- 1 / of_nat (Suc k) :: rat)"
    using Cons.prems(2) by (simp add: frac_less2)
  then have "\<forall>y \<in> set (map (\<lambda>(j, a). importance_of j a) (zip [Suc k..<Suc k + length args] args)).
      y < 0 \<longrightarrow> - 1 / of_nat k < y"
    using importance_lower [of args "Suc k"] Cons.prems(1) by fastforce
  then show ?case
    using Cons.IH [of "Suc k"] Cons.prems u by (auto simp: importance_plain)
qed

lemma importance_neg_iff:
  assumes "list_all (\<lambda>a. important a = None) args" "0 < k"
  shows "map (\<lambda>x. x < 0) (map (\<lambda>(j, a). importance_of j a) (zip [k..<k + length args] args))
    = map is_required args"
  using assms
proof (induction args arbitrary: k)
  case Nil
  then show ?case by simp
next
  case (Cons a args)
  have "[k..<k + length (a # args)] = k # [Suc k..<Suc k + length args]"
    by (metis length_Cons upt_Suc_Cons)
  then show ?case
    using Cons.IH [of "Suc k"] Cons.prems by (simp add: importance_plain)
qed

subsection \<open>Properties of the page rows\<close>



text \<open>
  C30. Building the rows raises exactly when some action has no help text:
  \<open>len(arg.help)\<close> raises \<open>TypeError\<close> on \<open>None\<close>, the default help of an
  \<open>argparse\<close> argument, and nothing else in \<open>convert_argument\<close> raises.
\<close>

theorem convert_fails_iff_no_help: "isl (convert_all i args) \<longleftrightarrow> (\<exists>a\<in>set args. help_str a = None)"
proof (induction args arbitrary: i)
  case Nil
  then show ?case by simp
next
  case (Cons a args)
  show ?case
  proof (cases "help_str a")
    case None
    then show ?thesis
      using convert_argument_None [OF None, of i] by (auto split: sum.split)
  next
    case (Some h)
    then obtain line where "convert_argument i a = Inr ((importance_of (Suc i) a, fst (snd (title_key_id a)), line),
      normalized a)"
      using convert_argument_Some by blast
    then show ?thesis
      using Cons.IH [of "Suc i"] Some by (auto split: sum.split prod.split)
  qed
qed

theorem convert_fails_iff_no_help_witness:
  "isl (convert_all 0 [help_action, verbose_action\<lparr>help_str := None\<rparr>])"
  using convert_fails_iff_no_help [of 0 "[help_action, verbose_action\<lparr>help_str := None\<rparr>]"] by simp

text \<open>
  C31. When no action sets \<open>important\<close>, the page lists the mandatory arguments
  first, in the parser's order, and then the optional ones sorted by key: the
  sort key of a row is negative exactly for a mandatory argument, the negative
  keys grow with the argument's position, and sorting keeps the mandatory rows
  as they are in front of the sorted optional rows.
\<close>

theorem mandatory_rows_first:
  assumes "list_all (\<lambda>a. help_str a \<noteq> None \<and> important a = None) args"
  shows "\<exists>rows. convert_all 0 args = Inr (rows, map normalized args)
    \<and> map (\<lambda>r. fst r < 0) rows = map is_required args
    \<and> map (\<lambda>r. fst (snd r)) rows = map (\<lambda>a. fst (snd (title_key_id a))) args
    \<and> sort rows = filter (\<lambda>r. fst r < 0) rows @ sort (filter (\<lambda>r. \<not> fst r < 0) rows)"
proof -
  have h: "list_all (\<lambda>a. help_str a \<noteq> None) args" and i: "list_all (\<lambda>a. important a = None) args"
    using assms by (simp_all add: list_all_iff)
  obtain rows where r: "convert_all 0 args = Inr (rows, map normalized args)"
    "map fst rows = map (\<lambda>(j, a). importance_of j a) (zip [Suc 0..<Suc 0 + length args] args)"
    "map (\<lambda>r. fst (snd r)) rows = map (\<lambda>a. fst (snd (title_key_id a))) args"
    using convert_all_Inr [OF h, of 0] by blast
  have "map (\<lambda>r. fst r < 0) rows = map (\<lambda>x. x < 0) (map fst rows)"
    by simp
  also have "\<dots> = map is_required args"
    using importance_neg_iff [OF i, of "Suc 0"] unfolding r(2) by simp
  finally have req: "map (\<lambda>r. fst r < 0) rows = map is_required args" .
  have "map fst (filter (\<lambda>r. fst r < 0) rows) = filter (\<lambda>x. x < 0) (map fst rows)"
    by (simp add: filter_map comp_def)
  then have "sorted_wrt (<) (map fst (filter (\<lambda>r. fst r < 0) rows))"
    using importance_sorted [OF i, of "Suc 0"] unfolding r(2) by simp
  then have "sort (filter (\<lambda>r. fst r < 0) rows) = filter (\<lambda>r. fst r < 0) rows"
    by (intro sorted_sort_id sorted_by_fst)
  moreover have "sort rows = sort (filter (\<lambda>r. fst r < 0) rows) @ sort (filter (\<lambda>r. \<not> fst r < 0) rows)"
    by (rule sort_split) (auto simp: less_prod_def)
  ultimately show ?thesis
    using r req by simp
qed

theorem mandatory_rows_first_witness:
  "\<exists>rows. convert_all 0 [help_action, verbose_action, workflow_action]
       = Inr (rows, map normalized [help_action, verbose_action, workflow_action])
     \<and> map (\<lambda>r. fst r < 0) rows = [False, False, True]
     \<and> map (\<lambda>r. fst (snd r)) rows = [''--help'', ''--verbose'', ''workflow'']
     \<and> sort rows = filter (\<lambda>r. fst r < 0) rows @ sort (filter (\<lambda>r. \<not> fst r < 0) rows)"
proof -
  have "list_all (\<lambda>a. help_str a \<noteq> None \<and> important a = None) [help_action, verbose_action, workflow_action]"
    by (simp add: action_defs)
  from mandatory_rows_first [OF this] obtain rows where
    "convert_all 0 [help_action, verbose_action, workflow_action]
       = Inr (rows, map normalized [help_action, verbose_action, workflow_action])"
    "map (\<lambda>r. fst r < 0) rows = map is_required [help_action, verbose_action, workflow_action]"
    "map (\<lambda>r. fst (snd r)) rows
       = map (\<lambda>a. fst (snd (title_key_id a))) [help_action, verbose_action, workflow_action]"
    "sort rows = filter (\<lambda>r. fst r < 0) rows @ sort (filter (\<lambda>r. \<not> fst r < 0) rows)"
    by blast
  moreover have "map is_required [help_action, verbose_action, workflow_action] = [False, False, True]"
    by (simp add: action_defs is_required_def)
  moreover have "map (\<lambda>a. fst (snd (title_key_id a))) [help_action, verbose_action, workflow_action]
      = [''--help'', ''--verbose'', ''workflow'']"
    by (simp add: action_defs title_key_id_def Let_def)
  ultimately show ?thesis
    by metis
qed

text \<open>
  C32. The page data of \<open>main\<close> (the sorted rows and the option tables) is built
  without an exception for every parser whose actions all have help texts and
  are handled by \<open>generate_opts\<close>, the first one optional: the help texts
  \<open>convert_argument\<close> rewrites do not affect \<open>generate_opts\<close>.
\<close>

theorem frontend_tables_total:
  assumes "list_all (\<lambda>a. help_str a \<noteq> None \<and> valid_action a) args"
    "args = [] \<or> option_strings (hd args) \<noteq> []"
  shows "\<exists>r. frontend_tables args = Inr r"
proof -
  have h: "list_all (\<lambda>a. help_str a \<noteq> None) args" and v: "list_all valid_action args"
    using assms(1) by (simp_all add: list_all_iff)
  obtain rows where r: "convert_all 0 args = Inr (rows, map normalized args)"
    using convert_all_Inr [OF h, of 0] by blast
  obtain acc where "gen_loop args empty_acc = Inr acc"
    using gen_loop_valid [OF v, of empty_acc] assms(2) by auto
  moreover have "gen_loop (map normalized args) empty_acc = gen_loop args empty_acc"
  proof -
    have "normalized = (\<lambda>a. a\<lparr>help_str := map_option normalize_help (help_str a)\<rparr>)"
      by (simp add: fun_eq_iff normalized_def)
    then show ?thesis
      using gen_loop_help [of "\<lambda>a. map_option normalize_help (help_str a)" args] by simp
  qed
  ultimately show ?thesis
    using r by (auto simp: frontend_tables_def generate_opts_def Let_def)
qed
theorem frontend_tables_total_witness:
  "\<exists>r. frontend_tables [help_action, verbose_action, workflow_action] = Inr r"
  using frontend_tables_total [of "[help_action, verbose_action, workflow_action]"]
  by (simp add: valid_action_def strippable_def action_defs)

end
