(* ===== verification/FrontendScan.thy ===== *)
theory FrontendScan
  imports FrontendArgs Bootstrap
begin

text \<open>
  \<open>scan_workflows\<close> of \<open>src/veles/scripts/generate_frontend.py\<close> (lines 94--139): the
  files under \<open>root.common.dirs.veles\<close> that define \<open>run(load, main)\<close>. The walk of
  \<open>os.walk\<close> is its list of directories (path, path relative to the root, file
  names); importing a file (\<open>try_to_import_file\<close>, \<open>is_module\<close>) and reading the
  argument names of its \<open>run\<close> (\<open>inspect.getargspec\<close>, which raises for a \<open>run\<close>
  it cannot describe) are library calls and are parameters: \<open>import_mod p\<close> is the
  module imported from \<open>p\<close>, if any, and \<open>run_args m\<close> is \<open>None\<close> when the module
  has no \<open>run\<close>, else the result of \<open>getargspec(mod.run).args\<close>. A directory's files
  are iterated as \<open>set(files) - BLACKLISTED_FILES\<close>, in an order Python leaves to
  the hash of the names: the model takes the listing order without duplicates,
  and the properties are about the set of workflows found. \<open>scan_workflows\<close> is
  the walk (lines 94--133); \<open>scan_workflows_main\<close> is the whole function, which
  after the walk imports \<open>devnull\<close> from \<open>IPython.utils.io\<close> (line 134): the
  parameter \<open>ipython\<close> is \<open>Some e\<close> when that import raises \<open>e\<close> (IPython not
  installed), and then the workflows found are lost. Printing, \<open>gc\<close>, \<open>warnings\<close>,
  closing \<open>devnull\<close> and the thread check are output only.
\<close>

record walk_dir =
  w_path :: string
  w_rel :: string
  w_files :: "string list"

definition blacklisted_dirs :: "string list" where
  "blacklisted_dirs = [''external'', ''znicz/external'', ''tests'', ''znicz/tests/unit'',
     ''znicz/tests/functional'']"

definition blacklisted_files :: "string list" where
  "blacklisted_files = [''boxer.py'', ''bbox_detection.py'', ''generate_frontend.py'', ''__init__.py'']"

text \<open>Lines 101--107: \<open>relpath.startswith(bdir)\<close> for some blacklisted directory.\<close>

definition skip_dir :: "string \<Rightarrow> bool" where
  "skip_dir relpath = list_ex (\<lambda>b. take (length b) relpath = b) blacklisted_dirs"

text \<open>\<open>os.path.splitext(f)[1]\<close> of a file name: from the last dot, unless only dots
  precede it.\<close>

definition splitext_ext :: "string \<Rightarrow> string" where
  "splitext_ext f =
     (let r = rev f; tl_part = takeWhile (\<lambda>c. c \<noteq> CHR ''.'') r
      in if length tl_part = length f then []
         else if list_ex (\<lambda>c. c \<noteq> CHR ''.'') (drop (Suc (length tl_part)) r)
         then CHR ''.'' # rev tl_part else [])"

text \<open>Lines 120--129: \<open>for func in dir(mod)\<close> stops at \<open>run\<close>; its argument list
  decides, and \<open>getargspec\<close> may raise.\<close>

definition is_workflow :: "('m \<Rightarrow> (fe_error + string list) option) \<Rightarrow> 'm \<Rightarrow> fe_error + bool" where
  "is_workflow run_args m =
     (case run_args m of
        None \<Rightarrow> Inr False
      | Some (Inl e) \<Rightarrow> Inl e
      | Some (Inr args) \<Rightarrow> Inr (args = [''load'', ''main'']))"

text \<open>Lines 108--129, over the files of one directory.\<close>

fun scan_files :: "(string \<Rightarrow> 'm option) \<Rightarrow> ('m \<Rightarrow> (fe_error + string list) option) \<Rightarrow>
    string \<Rightarrow> string list \<Rightarrow> fe_error + string list" where
  "scan_files import_mod run_args path [] = Inr []"
| "scan_files import_mod run_args path (f # fs) =
     (let f_path = path_join path f
      in if splitext_ext f \<noteq> ''.py'' then scan_files import_mod run_args path fs
         else case import_mod f_path of
                None \<Rightarrow> scan_files import_mod run_args path fs
              | Some m \<Rightarrow>
                  (case is_workflow run_args m of
                     Inl e \<Rightarrow> Inl e
                   | Inr found \<Rightarrow>
                       (case scan_files import_mod run_args path fs of
                          Inl e \<Rightarrow> Inl e
                        | Inr ws \<Rightarrow> Inr (if found then f_path # ws else ws))))"

text \<open>Lines 94--133: the walk, skipping blacklisted directories and files.\<close>

fun scan_workflows :: "(string \<Rightarrow> 'm option) \<Rightarrow> ('m \<Rightarrow> (fe_error + string list) option) \<Rightarrow>
    walk_dir list \<Rightarrow> fe_error + string list" where
  "scan_workflows import_mod run_args [] = Inr []"
| "scan_workflows import_mod run_args (d # ds) =
     (if skip_dir (w_rel d) then scan_workflows import_mod run_args ds
      else case scan_files import_mod run_args (w_path d)
                  (filter (\<lambda>f. f \<notin> set blacklisted_files) (remdups (w_files d))) of
             Inl e \<Rightarrow> Inl e
           | Inr ws \<Rightarrow>
               (case scan_workflows import_mod run_args ds of
                  Inl e \<Rightarrow> Inl e
                | Inr ws' \<Rightarrow> Inr (ws @ ws')))"

text \<open>Lines 94--139: the walk, then \<open>from IPython.utils.io import devnull\<close>.\<close>

definition scan_workflows_main :: "fe_error option \<Rightarrow> (string \<Rightarrow> 'm option) \<Rightarrow>
    ('m \<Rightarrow> (fe_error + string list) option) \<Rightarrow> walk_dir list \<Rightarrow> fe_error + string list" where
  "scan_workflows_main ipython import_mod run_args walk =
     (case scan_workflows import_mod run_args walk of
        Inl e \<Rightarrow> Inl e
      | Inr workflows \<Rightarrow> (case ipython of Some e \<Rightarrow> Inl e | None \<Rightarrow> Inr workflows))"

definition found_in :: "(string \<Rightarrow> 'm option) \<Rightarrow> ('m \<Rightarrow> (fe_error + string list) option) \<Rightarrow>
    string \<Rightarrow> string \<Rightarrow> bool" where
  "found_in import_mod run_args path f =
     (splitext_ext f = ''.py'' \<and>
      (\<exists>m. import_mod (path_join path f) = Some m \<and> run_args m = Some (Inr [''load'', ''main''])))"

text \<open>A walk used to evaluate the properties: a sample directory with a workflow, a
  helper module and a package marker, and a test directory.\<close>

definition demo_walk :: "walk_dir list" where
  "demo_walk =
     [\<lparr>w_path = ''/v/znicz/samples'', w_rel = ''znicz/samples'',
       w_files = [''wf.py'', ''helper.py'', ''__init__.py'', ''README'']\<rparr>,
      \<lparr>w_path = ''/v/tests'', w_rel = ''tests'', w_files = [''wf.py'']\<rparr>]"

definition demo_import :: "string \<Rightarrow> string option" where
  "demo_import p = (if p \<in> {''/v/znicz/samples/wf.py'', ''/v/znicz/samples/helper.py'', ''/v/tests/wf.py''}
     then Some p else None)"

definition demo_run_args :: "string \<Rightarrow> (fe_error + string list) option" where
  "demo_run_args m = (if m = ''/v/znicz/samples/wf.py'' \<or> m = ''/v/tests/wf.py'' then Some (Inr [''load'', ''main''])
     else if m = ''/v/znicz/samples/helper.py'' then Some (Inr [''x'']) else None)"

definition annotated_run_args :: "string \<Rightarrow> (fe_error + string list) option" where
  "annotated_run_args m = (if m = ''/v/znicz/samples/helper.py''
     then Some (Inl (ValueError ''Function has keyword-only parameters or annotations''))
     else demo_run_args m)"

subsection \<open>Lemmas\<close>

lemma scan_files_set:
  "scan_files im ra path fs = Inr ws \<Longrightarrow>
     set ws = path_join path ` {f \<in> set fs. found_in im ra path f}"
proof (induction fs arbitrary: ws)
  case Nil
  then show ?case by simp
next
  case (Cons f fs)
  then show ?case
    by (auto simp: Let_def found_in_def is_workflow_def split: if_splits option.splits sum.splits)
qed

lemma scan_files_error:
  "f \<in> set fs \<Longrightarrow> splitext_ext f = ''.py'' \<Longrightarrow> im (path_join path f) = Some m \<Longrightarrow>
     ra m = Some (Inl e) \<Longrightarrow> isl (scan_files im ra path fs)"
proof (induction fs)
  case Nil
  then show ?case by simp
next
  case (Cons g fs)
  then show ?case
    by (auto simp: Let_def is_workflow_def split: if_splits option.splits sum.splits)
qed

lemma splitext_py_if: "list_ex (\<lambda>c. c \<noteq> CHR ''.'') stem \<Longrightarrow> splitext_ext (stem @ ''.py'') = ''.py''"
  by (simp add: splitext_ext_def Let_def list_ex_iff)

lemma splitext_py_only_if:
  assumes "splitext_ext f = ''.py''"
  shows "\<exists>stem. f = stem @ ''.py'' \<and> list_ex (\<lambda>c. c \<noteq> CHR ''.'') stem"
proof -
  define P where "P = (\<lambda>c. c \<noteq> CHR ''.'')"
  define t where "t = takeWhile P (rev f)"
  define rest where "rest = tl (dropWhile P (rev f))"
  have c: "length t \<noteq> length f" "list_ex P (drop (Suc (length t)) (rev f))" "rev t = ''py''"
    using assms unfolding splitext_ext_def Let_def t_def P_def
    by (simp_all split: if_splits)
  have t: "t = ''yp''"
    using c(3) by (metis rev_rev_ident rev.simps(1) rev.simps(2) append.simps)
  have ne: "dropWhile P (rev f) \<noteq> []"
    using c(1) takeWhile_dropWhile_id [of P "rev f"] unfolding t_def
    by (metis append_Nil2 length_rev)
  then have "\<not> P (hd (dropWhile P (rev f)))"
    by (rule hd_dropWhile)
  then have "hd (dropWhile P (rev f)) = CHR ''.''"
    by (simp add: P_def)
  then have d: "dropWhile P (rev f) = CHR ''.'' # rest"
    using ne unfolding rest_def by (metis list.collapse)
  have r: "rev f = ''yp'' @ CHR ''.'' # rest"
    using takeWhile_dropWhile_id [of P "rev f"] d t unfolding t_def by simp
  have "f = rev rest @ ''.py''"
    using arg_cong [OF r, of rev] by simp
  moreover have "list_ex P (rev rest)"
    using c(2) r t by (simp add: list_ex_iff)
  ultimately show ?thesis
    unfolding P_def by blast
qed

text \<open>The whole function returns what the walk found, or raises: the walk's exception
  first, then the import's.\<close>

lemma scan_workflows_main_Inr:
  "scan_workflows_main ipython im ra walk = Inr ws \<longleftrightarrow> ipython = None \<and> scan_workflows im ra walk = Inr ws"
  by (auto simp: scan_workflows_main_def split: sum.splits option.splits)

lemma scan_workflows_main_import_error:
  "isl (scan_workflows im ra walk) \<or> ipython = Some e \<Longrightarrow> isl (scan_workflows_main ipython im ra walk)"
  by (auto simp: scan_workflows_main_def split: sum.splits option.splits)

subsection \<open>Properties of \<open>scan_workflows\<close>\<close>

text \<open>
  The extension test \<open>os.path.splitext(f)[1] == ".py"\<close> holds exactly for the
  names that end in \<open>.py\<close> after a stem with a character other than a dot.
\<close>

theorem splitext_py_iff:
  "splitext_ext f = ''.py'' \<longleftrightarrow> (\<exists>stem. f = stem @ ''.py'' \<and> list_ex (\<lambda>c. c \<noteq> CHR ''.'') stem)"
  using splitext_py_if splitext_py_only_if by blast

text \<open>
  C36. When \<open>scan_workflows\<close> returns, the workflows it lists are exactly the
  joined paths of the files, in directories whose relative path starts with no
  blacklisted name, that are not blacklisted, end in \<open>.py\<close>, import as modules
  and have a \<open>run\<close> whose arguments are \<open>load, main\<close>.
\<close>

theorem scan_workflows_found:
  "scan_workflows im ra walk = Inr ws \<Longrightarrow>
     set ws = (\<Union>d \<in> {d \<in> set walk. \<not> skip_dir (w_rel d)}.
       path_join (w_path d) ` {f \<in> set (w_files d). f \<notin> set blacklisted_files \<and> found_in im ra (w_path d) f})"
proof (induction walk arbitrary: ws)
  case Nil
  then show ?case by simp
next
  case (Cons d ds)
  have eq: "{d' \<in> set (d # ds). \<not> skip_dir (w_rel d')} = (if skip_dir (w_rel d)
      then {d' \<in> set ds. \<not> skip_dir (w_rel d')} else insert d {d' \<in> set ds. \<not> skip_dir (w_rel d')})"
    by auto
  show ?case
  proof (cases "skip_dir (w_rel d)")
    case True
    then show ?thesis
      using Cons eq by simp
  next
    case False
    then obtain ws1 ws2 where w: "scan_files im ra (w_path d)
        (filter (\<lambda>f. f \<notin> set blacklisted_files) (remdups (w_files d))) = Inr ws1"
      "scan_workflows im ra ds = Inr ws2" "ws = ws1 @ ws2"
      using Cons.prems by (auto split: sum.splits)
    have "set ws1 = path_join (w_path d) ` {f \<in> set (w_files d). f \<notin> set blacklisted_files
        \<and> found_in im ra (w_path d) f}"
      using scan_files_set [OF w(1)] by (simp add: conj_commute conj_left_commute)
    then show ?thesis
      using Cons.IH [OF w(2)] w(3) eq False by simp
  qed
qed

text \<open>
  C37. One module in a scanned directory whose \<open>run\<close> \<open>getargspec\<close> cannot
  describe (a non-function, or in Python 3 a function with annotations or
  keyword-only arguments) makes the whole \<open>scan_workflows\<close> raise.
\<close>

theorem scan_aborts_on_getargspec_error:
  "d \<in> set walk \<Longrightarrow> \<not> skip_dir (w_rel d) \<Longrightarrow> f \<in> set (w_files d) \<Longrightarrow> f \<notin> set blacklisted_files \<Longrightarrow>
     splitext_ext f = ''.py'' \<Longrightarrow> im (path_join (w_path d) f) = Some m \<Longrightarrow> ra m = Some (Inl e) \<Longrightarrow>
     isl (scan_workflows im ra walk)"
proof (induction walk)
  case Nil
  then show ?case by simp
next
  case (Cons d' ds)
  show ?case
  proof (cases "d' = d")
    case True
    then have "isl (scan_files im ra (w_path d) (filter (\<lambda>f. f \<notin> set blacklisted_files) (remdups (w_files d))))"
      using Cons.prems by (intro scan_files_error [of f _ _ _ m _ e]) auto
    then show ?thesis
      using True Cons.prems(2) by (auto split: sum.splits)
  next
    case False
    then show ?thesis
      using Cons by (auto split: sum.splits)
  qed
qed

theorem scan_workflows_found_witness:
  "scan_workflows demo_import demo_run_args demo_walk = Inr [''/v/znicz/samples/wf.py'']
   \<and> set [''/v/znicz/samples/wf.py''] = (\<Union>d \<in> {d \<in> set demo_walk. \<not> skip_dir (w_rel d)}.
       path_join (w_path d) ` {f \<in> set (w_files d). f \<notin> set blacklisted_files
         \<and> found_in demo_import demo_run_args (w_path d) f})"
proof -
  have eq: "scan_workflows demo_import demo_run_args demo_walk = Inr [''/v/znicz/samples/wf.py'']"
    by (simp add: demo_walk_def demo_import_def demo_run_args_def skip_dir_def blacklisted_dirs_def
        blacklisted_files_def splitext_ext_def path_join_def is_workflow_def)
  show ?thesis
    using eq scan_workflows_found [OF eq] by simp
qed

theorem scan_aborts_on_getargspec_error_witness:
  "isl (scan_workflows demo_import annotated_run_args demo_walk)"
  using scan_aborts_on_getargspec_error [of "hd demo_walk" demo_walk "''helper.py''" demo_import
      "''/v/znicz/samples/helper.py''" annotated_run_args]
  by (simp add: demo_walk_def demo_import_def annotated_run_args_def skip_dir_def blacklisted_dirs_def
      blacklisted_files_def splitext_ext_def path_join_def)

end
