(* ===== verification/FrontendMain.thy ===== *)
theory FrontendMain
  imports FrontendHtml FrontendScan
begin

text \<open>
  \<open>main\<close> of \<open>src/veles/scripts/generate_frontend.py\<close> (lines 65--90): the scan for
  workflows, then the rows and option tables of the parser's actions, then the
  page. The parser (\<open>CommandLineBase.init_parser\<close>) is library code and its action
  list is a parameter, as are the walk, the two library calls of
  \<open>scan_workflows\<close> and the outcome of its IPython import; \<open>WEB_FOLDER\<close> (line 58)
  is the string \<open>web\<close>. The template engine and \<open>json.dumps\<close> are not modelled:
  the page is the record of the values the code passes to \<open>generate\<close> (lines
  83--88), before serialisation, and the path it writes. \<open>debug_imports\<close> (line
  66) only selects progress output and is not modelled.
\<close>

record page =
  pg_arguments :: string
  pg_workflows :: "string list"
  pg_cmdline_states :: "argval dict"
  pg_opts :: opts
  pg_positional_opts :: "string list"
  pg_choices :: "argval list dict"
  pg_defaults_opt :: "argval dict"
  pg_path :: string

definition frontend_main ::
  "string \<Rightarrow> walk_dir list \<Rightarrow> fe_error option \<Rightarrow> (string \<Rightarrow> 'm option) \<Rightarrow>
   ('m \<Rightarrow> (fe_error + string list) option) \<Rightarrow> action list \<Rightarrow> fe_error + page" where
  "frontend_main web walk ipython import_mod run_args arguments =
     (case scan_workflows_main ipython import_mod run_args walk of
        Inl e \<Rightarrow> Inl e
      | Inr list_workflows \<Rightarrow>
          (case frontend_tables arguments of
             Inl e \<Rightarrow> Inl e
           | Inr (html, opts_d, positional, chs, defaults_opt) \<Rightarrow>
               Inr \<lparr>pg_arguments = html, pg_workflows = list_workflows, pg_cmdline_states = [],
                    pg_opts = opts_d, pg_positional_opts = positional, pg_choices = chs,
                    pg_defaults_opt = defaults_opt, pg_path = path_join web ''frontend.html''\<rparr>))"

subsection \<open>Lemmas\<close>

text \<open>The page lists exactly the workflows the scan found, and its rows and tables are
  those of the parser's actions; the scan runs first, so its exception wins over
  one of the rows.\<close>

lemma frontend_main_Inr:
  assumes "frontend_main web walk ipython im ra arguments = Inr p"
  shows "scan_workflows_main ipython im ra walk = Inr (pg_workflows p)
    \<and> frontend_tables arguments = Inr (pg_arguments p, pg_opts p, pg_positional_opts p, pg_choices p,
         pg_defaults_opt p)
    \<and> pg_cmdline_states p = [] \<and> pg_path p = path_join web ''frontend.html''"
  using assms by (auto simp: frontend_main_def split: sum.splits prod.splits)

lemma frontend_main_scan_first:
  "scan_workflows_main ipython im ra walk = Inl e \<Longrightarrow> frontend_main web walk ipython im ra arguments = Inl e"
  by (simp add: frontend_main_def)

end
