(* ===== verification/Logger.thy ===== *)
theory Logger
  imports Prelude
begin

text \<open>
  \<open>src/src/logger.py\<close>: the mixin \<open>Logger\<close>, whose constructor fetches the logger
  named after the instance's class (\<open>self.__class__.__name__\<close>, the most derived
  class) and whose \<open>log\<close> returns it. \<open>logging.getLogger\<close> is library code; it is
  modelled from its documented contract: the manager keeps one logger per name,
  creates it on the first request and returns the same object afterwards. Logger
  objects are identities (\<open>nat\<close>); levels, handlers and the dotted-name hierarchy
  are not modelled (a class name has no dot).
\<close>

record log_manager =
  logger_dict :: "nat dict"
  next_logger :: nat

definition getLogger :: "string \<Rightarrow> log_manager \<Rightarrow> nat \<times> log_manager" where
  "getLogger name m =
     (case map_of (logger_dict m) name of
        Some l \<Rightarrow> (l, m)
      | None \<Rightarrow> (next_logger m,
                 m\<lparr>logger_dict := dset name (next_logger m) (logger_dict m),
                   next_logger := Suc (next_logger m)\<rparr>))"

text \<open>An instance: its class name and the attribute \<open>logger_\<close> (\<open>logger_attr\<close>);
  \<open>log_method\<close> is the method \<open>log\<close>.\<close>

record logger_obj =
  class_name :: string
  logger_attr :: nat

definition logger_init :: "string \<Rightarrow> log_manager \<Rightarrow> logger_obj \<times> log_manager" where
  "logger_init cls m =
     (let (l, m') = getLogger cls m in (\<lparr>class_name = cls, logger_attr = l\<rparr>, m'))"

definition log_method :: "logger_obj \<Rightarrow> nat" where
  "log_method self = logger_attr self"

text \<open>The manager's invariant: the loggers handed out are distinct and all below the
  next fresh identity.\<close>

definition manager_ok :: "log_manager \<Rightarrow> bool" where
  "manager_ok m \<longleftrightarrow> distinct (dkeys (logger_dict m)) \<and> distinct (map snd (logger_dict m)) \<and>
     list_all (\<lambda>l. l < next_logger m) (map snd (logger_dict m))"

text \<open>Any number of further \<open>getLogger\<close> calls, by other code of the process.\<close>

definition get_loggers :: "string list \<Rightarrow> log_manager \<Rightarrow> log_manager" where
  "get_loggers ns m = fold (\<lambda>n m. snd (getLogger n m)) ns m"

subsection \<open>Lemmas\<close>

lemma getLogger_ok: "manager_ok m \<Longrightarrow> manager_ok (snd (getLogger n m))"
proof (cases "map_of (logger_dict m) n")
  case None
  assume ok: "manager_ok m"
  have "n \<notin> set (dkeys (logger_dict m))"
    using None by (simp add: map_of_eq_None_iff)
  then have "dset n (next_logger m) (logger_dict m) = logger_dict m @ [(n, next_logger m)]"
    by (rule dset_new)
  then show ?thesis
    using ok None by (auto simp: getLogger_def manager_ok_def list_all_iff)
next
  case (Some l)
  then show "manager_ok m \<Longrightarrow> ?thesis" by (simp add: getLogger_def)
qed

lemma getLogger_found: "map_of (logger_dict (snd (getLogger n m))) n = Some (fst (getLogger n m))"
  by (simp add: getLogger_def split: option.split)

lemma getLogger_keeps: "map_of (logger_dict m) k = Some l \<Longrightarrow> map_of (logger_dict (snd (getLogger n m))) k = Some l"
  by (auto simp: getLogger_def split: option.split)

lemma getLogger_again: "getLogger n (snd (getLogger n m)) = (fst (getLogger n m), snd (getLogger n m))"
  using getLogger_found [of n m] by (simp add: getLogger_def)

text \<open>Two instances share their logger exactly when their classes have the same name,
  whatever was created between the two constructions.\<close>

lemma getLogger_fresh:
  "manager_ok m \<Longrightarrow> map_of (logger_dict m) n = None \<Longrightarrow> map_of (logger_dict m) k = Some l \<Longrightarrow>
   fst (getLogger n m) \<noteq> l"
  by (auto simp: getLogger_def manager_ok_def list_all_iff dest!: map_of_SomeD)

lemma get_loggers_ok: "manager_ok m \<Longrightarrow> manager_ok (get_loggers ns m)"
  by (induction ns arbitrary: m) (simp_all add: get_loggers_def getLogger_ok)

lemma get_loggers_keeps:
  "map_of (logger_dict m) k = Some l \<Longrightarrow> map_of (logger_dict (get_loggers ns m)) k = Some l"
  by (induction ns arbitrary: m) (simp_all add: get_loggers_def getLogger_keeps)

lemma logger_shared_iff:
  assumes "manager_ok m" "logger_init c1 m = (o1, m1)" "logger_init c2 (get_loggers ns m1) = (o2, m2)"
  shows "log_method o1 = log_method o2 \<longleftrightarrow> c1 = c2"
proof -
  let ?m = "get_loggers ns m1"
  have l1: "map_of (logger_dict m1) c1 = Some (log_method o1)"
    using assms(2) getLogger_found [of c1 m] by (auto simp: logger_init_def log_method_def split: prod.splits)
  then have l1': "map_of (logger_dict ?m) c1 = Some (log_method o1)"
    by (rule get_loggers_keeps)
  have ok: "manager_ok ?m"
    using assms(1,2) getLogger_ok [of m c1] get_loggers_ok
    by (auto simp: logger_init_def split: prod.splits)
  have o2: "log_method o2 = fst (getLogger c2 ?m)"
    using assms(3) by (auto simp: logger_init_def log_method_def split: prod.splits)
  show ?thesis
  proof (cases "map_of (logger_dict ?m) c2")
    case None
    then have "c1 \<noteq> c2" using l1' by auto
    moreover have "log_method o2 \<noteq> log_method o1"
      using getLogger_fresh [OF ok None l1'] o2 by simp
    ultimately show ?thesis by simp
  next
    case (Some l2)
    then have "log_method o2 = l2" using o2 by (simp add: getLogger_def)
    moreover have "l2 = log_method o1 \<longleftrightarrow> c1 = c2"
    proof
      assume "l2 = log_method o1"
      then show "c1 = c2"
        using ok Some l1' map_of_inj_vals [of "logger_dict ?m" c1 l2 c2] by (simp add: manager_ok_def)
    next
      assume "c1 = c2"
      then show "l2 = log_method o1" using Some l1' by simp
    qed
    ultimately show ?thesis by auto
  qed
qed

end
