(* ===== verification/Spec2Isabelle.thy ===== *)
theory Spec2Isabelle
  imports MergeRefine ConfigCopy Validation Bootstrap Display FrontendMain Logger
begin

text \<open>
  \<^bold>\<open>A verification development for the configuration tree of Veles.\<close>

  \<^medskip>
  \<^bold>\<open>The program.\<close> \<open>src/veles/config.py\<close> defines the class \<open>Config\<close>, a tree of
  settings whose nodes are created on first read, and builds the global tree
  \<open>root\<close> when the module is imported. Its parts and how they interact:
  \<^item> the node (\<open>Config.__init__\<close>, \<open>__getattr__\<close>, \<open>__setattr__\<close>, \<open>__content__\<close>,
    \<open>__getitem__\<close>, \<open>__iter__\<close>): reading a missing attribute creates an empty child
    node, stores it on the parent and returns it; writing an attribute stores it
    in the instance dictionary unless the name is protected;
  \<^item> the protection registry (the module-level dict \<open>__protected__\<close>, keyed by the
    node object, and \<open>Config.protect\<close>), consulted by every \<open>__setattr__\<close>;
  \<^item> the merge engine (\<open>Config.update\<close>, \<open>Config.__update__\<close>): a dictionary or a
    node is merged into a node, nested dictionaries into child nodes (read through
    \<open>__getattr__\<close>, so created on demand), everything else by \<open>setattr\<close>;
  \<^item> the helpers \<open>get\<close> and \<open>validate_kwargs\<close>, which read the tree;
  \<^item> the module body: the defaults dictionary merged into \<open>root.common\<close>, the
    \<open>site_config\<close> override units of three directories, the derived templates path,
    and the lock-down by \<open>protect\<close>.
  \<^item> the display functions \<open>fix_contents\<close> and \<open>print_\<close>, which turn the tree into
    nested dictionaries by following its references.
  \<open>src/veles/scripts/generate_frontend.py\<close> builds the web form of the workflows'
  command line: it walks the source tree for workflow modules
  (\<open>scan_workflows\<close>), converts every \<open>argparse\<close> action of the parser into an
  HTML row (\<open>convert_argument\<close> and the widget functions), sorts the rows and
  computes the option tables the page's script uses (\<open>generate_opts\<close>). It reads
  \<open>root.common.dirs.veles\<close> and nothing else of the tree. \<open>src/src/logger.py\<close> is
  the mixin \<open>Logger\<close>, which fetches the logger named after the instance's class.

  \<^medskip>
  \<^bold>\<open>The model.\<close> Config objects live in a heap: the record \<open>state\<close> of theory
  \<open>ConfigNode\<close> has one instance \<open>__dict__\<close> per address (\<open>objs\<close>, an association
  list in insertion order, holding \<open>__path__\<close> too), the registry \<open>prot\<close> from
  address to protected names (identity, not equality, as the code's dict keyed by
  objects without \<open>__eq__\<close>) and the address of \<open>root\<close>. Values are the datatype
  \<open>pyval\<close> (theory \<open>PyValue\<close>), in which a node is \<open>PConfig a\<close>, so sharing and
  aliasing are those of the code. Every operation takes the state and returns
  \<open>(error + 'a) \<times> state\<close>: an exception is \<open>Inl\<close> of the datatype \<open>error\<close> together
  with the state reached when it was raised, since the code's writes before a
  raise stay done. Python's attribute lookup is modelled in the order the
  interpreter uses: data descriptors of the class, then the instance dictionary,
  then class attributes, then the \<open>__getattr__\<close> hook.

  \<^medskip>
  \<^bold>\<open>Theories.\<close>
  \<^item> \<open>Prelude\<close>: dictionaries as association lists (\<open>dset\<close> replaces in place or
    appends, as a Python dict keeps insertion order; \<open>ddel\<close>; \<open>dget\<close>) and their
    lemmas; the collections \<open>cfg_simps\<close> and \<open>frame_simps\<close>.
  \<^item> \<open>PyValue\<close>: \<open>pyval\<close>, \<open>truthy\<close> (Python truth testing), \<open>refs\<close>, \<open>error\<close> and
    \<open>exc_class\<close>.
  \<^item> \<open>ConfigNode\<close>: \<open>config_init\<close> (\<open>__init__\<close>, lines 63--64), \<open>setattr\<close>
    (\<open>__setattr__\<close>, lines 110--115), \<open>getattr_hook\<close> (\<open>__getattr__\<close>, lines 101--108),
    \<open>getattr\<close> (the interpreter's lookup), \<open>content\<close> (\<open>__content__\<close>, lines 117--122), \<open>getitem\<close>,
    \<open>iter\<close>, \<open>get_path\<close> (a chain of attribute reads), \<open>protect\<close> (lines 79--84);
    the invariant \<open>wf_state\<close> (distinct keys at every level, no dangling reference,
    protection only of allocated nodes, root allocated) and heap extension
    \<open>heap_ext\<close>. Lemmas: placeholder creation and its path (C1), protection
    (C2--C4), preservation of \<open>wf_state\<close> by every node operation (C5), stability of
    a second read (C19), a write read back (C39).
  \<^item> \<open>Merge\<close>: \<open>update_tree\<close> (\<open>__update__\<close>, lines 92--99), \<open>update\<close> (lines
    70--77), \<open>opaque\<close>, \<open>subtree\<close> and \<open>strip_marker\<close> (the \<open>"dict"\<close> marker).
    Lemmas: a flat merge is a sequence of writes (C6), a nested merge keeps the
    child's other settings (C7), the error paths of a merge and the partial state
    they leave (C8--C11), sharing of child nodes when merging a node (C12), the
    marker (C13, C14), preservation of \<open>wf_state\<close> (C15), at most one node
    allocated per sub-dictionary of the source (C40, counted by \<open>subtree_count\<close>).
  \<^item> \<open>MergeRefine\<close>: the specification of the merge on abstract trees
    (\<open>ctree\<close>, \<open>tmerge\<close>) and the abstraction \<open>tree_abs\<close> of a heap node as a
    tree with the list of nodes it occupies; \<open>nodes_ok\<close> is tree shape (no node
    visited twice). The simulation \<open>update_tree_sim\<close>, proved by induction over
    \<open>update_tree\<close> from one lemma per branch (\<open>leaf_step\<close>, \<open>new_child_step\<close>,
    \<open>child_merge_step\<close>) and the list lemma \<open>ents_dset\<close>, gives C38:
    \<open>update\<close> refines \<open>tmerge\<close>, errors included, and leaves the rest of the heap
    alone.
  \<^item> \<open>FrontendMain\<close>: \<open>frontend_main\<close> (\<open>main\<close>, lines 65--90), the scan
    (\<open>scan_workflows_main\<close>, the IPython import included), then the rows and
    option tables, then the page (record \<open>page\<close>: the values passed to
    \<open>generate\<close> at lines 83--88, before \<open>json.dumps\<close>, and the output path). Lemmas: the page is
    made of the scan's workflows and \<open>frontend_tables\<close>' results; a scan error is
    raised before any argument is converted.
  \<^item> \<open>Logger\<close>: \<open>logger_init\<close> (\<open>Logger.__init__\<close>, lines 16--17) and
    \<open>log_method\<close> (\<open>Logger.log\<close>, lines 19--20) over an explicit logging manager
    (\<open>getLogger\<close>, modelled from the library's documented contract: one logger
    per name). Lemma \<open>logger_shared_iff\<close>: two instances share a logger exactly
    when their classes have the same name.
  \<^item> \<open>ConfigCopy\<close>: \<open>getstate\<close> and \<open>setstate\<close> (\<open>__getstate__\<close>,
    \<open>__setstate__\<close>, lines 127--139), \<open>config_new\<close> (\<open>Config.__new__\<close>) and
    \<open>copy_config\<close>, the \<open>copy.copy\<close> protocol that calls them. Lemmas: the copy
    has the original's dictionary and changes nothing else, but is not protected
    (C16); on a new object before \<open>__setstate__\<close> a lookup that reaches
    \<open>__getattr__\<close> recurses, which is why the class defines the hook.
  \<^item> \<open>Validation\<close>: \<open>get\<close> (lines 157--162) and \<open>validate_kwargs\<close> (lines
    165--176) with the warnings it logs as a list of \<open>warning\<close> values in order.
    Lemmas: reading an unset path yields a placeholder and \<open>get\<close> the default,
    the warnings emitted (C17), the exception when the flag cannot be read
    (C18).
  \<^item> \<open>Bootstrap\<close>: the environment the module body reads (record \<open>env\<close>),
    \<open>defaults\<close> (the dictionary of lines 178--291), \<open>run_module_unit\<close> and
    \<open>dir_layers\<close> (the \<open>site_config\<close> imports of lines 293--308, with the
    \<open>sys.modules\<close> cache), \<open>set_templates\<close> (line 310), \<open>lock_down\<close> (lines
    319--321) and \<open>bootstrap\<close>, the whole module body in order. Lemmas: the
    first unit found is the one run for every directory (C20), the lock-down
    protects the critical directories (C21), the templates path (C22).
  \<^item> \<open>Display\<close>: \<open>fix_rec\<close>/\<open>fix_contents\<close> (\<open>fix_contents\<close>, lines 52--57) and
    \<open>print_config\<close> (\<open>Config.print_\<close>, lines 86--90) with the lines it writes.
    Lemmas: on a heap ranked by a function that decreases along references
    \<open>fix_contents\<close> returns the content with every \<open>Config\<close> replaced (C33); on a
    reference cycle it does not return (C34) and \<open>print_\<close> stops after its title;
    its result holds no \<open>Config\<close> at any depth when no node hides one in a
    leaf value (\<open>plain_leaves\<close>, C35): a \<open>Config\<close> inside a list or a leaf dict is
    printed as an object.
  \<^item> \<open>FrontendArgs\<close>: the \<open>argparse\<close> action as a record, the values it carries
    (\<open>argval\<close>), the exceptions of the script (\<open>fe_error\<close>) and Python's \<open>str\<close> and
    \<open>repr\<close> of those values.
  \<^item> \<open>FrontendOpts\<close>: \<open>generate_opts\<close> (lines 142--177) as the loop \<open>gen_loop\<close>
    of \<open>gen_step\<close> over an accumulator record that keeps the stale local
    \<open>option_strings\<close>. Lemmas: the dash stripping against \<open>lstrip\<close> (C23), the
    tables for short/long option pairs (C24), positional actions and the alias
    table (C25), the \<open>IndexError\<close> and \<open>UnboundLocalError\<close> paths (C26, C27),
    totality on well-formed parsers (C28).
  \<^item> \<open>FrontendHtml\<close>: \<open>convert_argument\<close> and the widget functions (lines
    180--297) with the code's templates, and \<open>frontend_tables\<close>, the pure part of
    \<open>main\<close> (lines 71--79). Lemmas: the normalised help text (C29), the
    \<open>TypeError\<close> of an action without help (C30), the order of the sorted rows
    (C31), totality (C32).
  \<^item> \<open>FrontendScan\<close>: \<open>scan_workflows\<close> (the walk, lines 94--133) over the
    walk as a list of directories, with importing a file and \<open>getargspec\<close> as
    parameters, and \<open>scan_workflows_main\<close> (the whole function, lines 94--139),
    which adds the import of \<open>IPython.utils.io.devnull\<close> (line 134, its outcome a
    parameter): when IPython is missing its \<open>ImportError\<close> replaces the workflows
    found. Lemmas: the set of workflows found (C36), the abort on a
    \<open>getargspec\<close> error (C37), the \<open>ImportError\<close> path, the \<open>.py\<close> test of
    \<open>splitext\<close>.

  \<^medskip>
  \<^bold>\<open>Termination, bounds and fuel.\<close> No definition uses fuel.
  \<open>fix_rec\<close> follows references of the heap, which may form a cycle, so it is a
  \<open>partial_function (option)\<close>: \<open>None\<close> is the recursion that does not return
  (Python's \<open>RecursionError\<close>); C33 proves that it returns on every acyclic
  well-formed heap, by induction on a rank of the nodes, and C34 that it does not
  return on a cycle. \<open>subtree_count\<close>, \<open>tmerge\<close> and \<open>src_names\<close> terminate by the
  same measure as \<open>update_tree\<close>. The abstraction \<open>tree_abs\<close> takes a depth
  bound \<open>n\<close> (it is \<open>None\<close> on a deeper or cyclic heap); it is monotone in \<open>n\<close>
  (\<open>tree_abs_transfer\<close>), so C38 assumes some bound for the tree before the
  merge and proves one exists after it. \<open>update_tree\<close> recurses
  into the value of a key of the source dictionary, so it terminates by the
  measure \<open>size\<close> of the source; every other recursion is structural (on the
  source list, the path, or the directory list). The code's only loop that may
  not end is the mutual recursion of \<open>__getattr__\<close> on an object without
  \<open>__path__\<close>, which the model returns as \<open>RecursionErr\<close>, the \<open>RecursionError\<close> the
  interpreter raises. Python's recursion limit (about 1000 frames) is not
  modelled: \<open>fix_rec\<close> and \<open>update_tree\<close> return on an acyclic tree of any depth,
  where the interpreter raises \<open>RecursionError\<close> on a nesting deeper than the
  limit. Integers are unbounded, as in Python.

  \<^medskip>
  \<^bold>\<open>Not modelled.\<close> \<open>__repr__\<close> and the layout \<open>pprint\<close> gives (output:
  Python's \<open>repr\<close> of arbitrary values); the byte format of pickling and
  \<open>copy.deepcopy\<close> (only \<open>copy.copy\<close> is modelled over the two hooks);
  \<open>__getnewargs__\<close> (defined only under Python 2);
  \<open>__del__\<close> beyond the fact that a new node starts unprotected; creating the
  directories and \<open>sys.path\<close> manipulation in the module body; the stack-trace text
  of \<open>validate_kwargs\<close>; the mutation of a merge source by \<open>del v["dict"]\<close> is
  modelled on the value written, not on the caller's dictionary;
  in \<open>generate_frontend.py\<close>, loading the template file, \<open>json.dumps\<close>, writing
  the page, printing and \<open>CommandLineBase.init_parser\<close> (library code that
  builds the parser); of the logging library, levels, handlers and the
  hierarchy of dotted logger names. An instance attribute named \<open>__update__\<close>
  or \<open>protect\<close> set on a node shadows the method in the code's calls
  \<open>v.__update__(...)\<close> (lines 75, 95) and \<open>protect\<close> (lines 319--321); the model
  always calls the class's method (the corner is noted beside \<open>update_tree\<close>
  and \<open>lock_down\<close>). \<open>str.capitalize\<close> is modelled on Latin-1 characters:
  the sharp s becomes \<open>Ss\<close>, but the micro sign and y with diaeresis, whose
  capitals lie outside Latin-1, are kept as they are.

  \<^medskip>
  \<^bold>\<open>Planned next.\<close> The mutation of the caller's dictionary by a merge;
  merging a \<open>Config\<close> argument (its shallow \<open>__content__\<close> shares child nodes, so
  the result is not tree-shaped and C38 does not apply to it).
\<close>

end
